(* ===== verification/Prelude.thy ===== *)
theory Prelude
  imports Main "HOL-Library.Word"
begin

text \<open>
  Shared vocabulary of the development: the machine integers of the Rust sources, strings as
  their UTF-8 bytes, decimal and hexadecimal rendering (\<open>format!\<close> with \<open>{}\<close> and \<open>{:x}\<close>),
  the handful of \<open>str\<close> operations the sources call, results as sums (\<open>Inl\<close> is \<open>Err\<close>,
  \<open>Inr\<close> is \<open>Ok\<close>), and the collections of simplification rules the component theories extend.
\<close>

unbundle bit_operations_syntax

named_theorems wire_simps \<open>reading back what was written\<close>
named_theorems layout_simps \<open>lengths of encoded values\<close>
named_theorems result_defs \<open>unfoldings of the result and effect combinators\<close>

section \<open>Integers\<close>

type_synonym u8 = "8 word"
type_synonym u16 = "16 word"
type_synonym u32 = "32 word"
type_synonym u64 = "64 word"
type_synonym i8 = "8 word"
type_synonym i16 = "16 word"
type_synonym i32 = "32 word"
type_synonym i64 = "64 word"
type_synonym bytes = "8 word list"

text \<open>
  Signed integers are the same words read with \<open>sint\<close>; a loop \<open>for _ in 0..n\<close> over an \<open>i32\<close>
  bound runs \<open>loop_count n\<close> times, so not at all for a negative bound.
\<close>

definition loop_count :: "i32 \<Rightarrow> nat" where
  "loop_count n = nat (sint n)"

lemma loop_count_neg: "sint n < 0 \<Longrightarrow> loop_count n = 0"
  by (simp add: loop_count_def)

lemma loop_count_of_nat: "k < 2 ^ 31 \<Longrightarrow> loop_count (word_of_nat k) = k"
  by (simp add: loop_count_def signed_of_nat signed_take_bit_int_eq_self)

lemma loop_count_bound: "loop_count n < 2 ^ 31"
proof -
  have "sint n < 2 ^ 31"
    using sint_lt [of n] by simp
  then show ?thesis
    by (simp add: loop_count_def)
qed

section \<open>Strings\<close>

text \<open>
  A Rust \<open>String\<close> is its UTF-8 bytes. The model keeps those bytes as characters, so that
  \<open>len()\<close> is \<open>length\<close>, ASCII literals are HOL string literals, and byte offsets
  (\<open>find\<close>, slicing) are list offsets.
\<close>

definition bytes_of_str :: "string \<Rightarrow> bytes" where
  "bytes_of_str s = map (\<lambda>c. word_of_nat (of_char c)) s"

definition str_of_bytes :: "bytes \<Rightarrow> string" where
  "str_of_bytes bs = map (\<lambda>b. char_of (unat b)) bs"

lemma length_bytes_of_str [simp]: "length (bytes_of_str s) = length s"
  by (simp add: bytes_of_str_def)

lemma length_str_of_bytes [simp]: "length (str_of_bytes bs) = length bs"
  by (simp add: str_of_bytes_def)

lemma str_of_bytes_of_str [simp]: "str_of_bytes (bytes_of_str s) = s"
proof -
  have "char_of (unat (word_of_nat (of_char c) :: u8)) = c" for c
    by (simp add: unsigned_of_nat char_of_take_bit_eq)
  then show ?thesis
    by (simp add: str_of_bytes_def bytes_of_str_def comp_def)
qed

lemma bytes_of_str_of_bytes [simp]: "bytes_of_str (str_of_bytes bs) = bs"
proof -
  have "word_of_nat (unat b mod 256) = b" for b :: u8
  proof -
    have "unat b < 256"
      using unsigned_less [of b, where ?'a = nat] by simp
    then show ?thesis
      by simp
  qed
  then show ?thesis
    by (simp add: str_of_bytes_def bytes_of_str_def comp_def)
qed

lemma bytes_of_str_append [simp]: "bytes_of_str (s @ t) = bytes_of_str s @ bytes_of_str t"
  by (simp add: bytes_of_str_def)

lemma str_of_bytes_append [simp]: "str_of_bytes (s @ t) = str_of_bytes s @ str_of_bytes t"
  by (simp add: str_of_bytes_def)

lemma bytes_of_str_inj: "bytes_of_str s = bytes_of_str t \<longleftrightarrow> s = t"
  using str_of_bytes_of_str by metis

section \<open>Rendering numbers\<close>

definition digit_char :: "nat \<Rightarrow> char" where
  "digit_char d = (if d < 10 then char_of (48 + d) else char_of (87 + d))"

fun show_nat :: "nat \<Rightarrow> string" where
  "show_nat n = (if n < 10 then [digit_char n] else show_nat (n div 10) @ [digit_char (n mod 10)])"

fun show_hex_nat :: "nat \<Rightarrow> string" where
  "show_hex_nat n =
     (if n < 16 then [digit_char n] else show_hex_nat (n div 16) @ [digit_char (n mod 16)])"

declare show_nat.simps [simp del] show_hex_nat.simps [simp del]

definition show_int :: "int \<Rightarrow> string" where
  "show_int i = (if i < 0 then ''-'' @ show_nat (nat (- i)) else show_nat (nat i))"

definition show_unsigned :: "'a::len word \<Rightarrow> string" where
  "show_unsigned w = show_nat (unat w)"

definition show_signed :: "'a::len word \<Rightarrow> string" where
  "show_signed w = show_int (sint w)"

definition show_hex :: "'a::len word \<Rightarrow> string" where
  "show_hex w = show_hex_nat (unat w)"

lemma show_nat_nonempty [simp]: "show_nat n \<noteq> []"
  by (subst show_nat.simps) simp

lemma show_hex_nat_nonempty [simp]: "show_hex_nat n \<noteq> []"
  by (subst show_hex_nat.simps) simp

section \<open>Operations of str\<close>

definition starts_with :: "string \<Rightarrow> string \<Rightarrow> bool" where
  "starts_with s p \<longleftrightarrow> take (length p) s = p"

definition ends_with :: "string \<Rightarrow> string \<Rightarrow> bool" where
  "ends_with s p \<longleftrightarrow> length p \<le> length s \<and> drop (length s - length p) s = p"

fun str_find :: "string \<Rightarrow> string \<Rightarrow> nat option" where
  "str_find [] p = (if p = [] then Some 0 else None)"
| "str_find (c # s) p =
     (if starts_with (c # s) p then Some 0 else map_option Suc (str_find s p))"

definition str_contains :: "string \<Rightarrow> string \<Rightarrow> bool" where
  "str_contains s p \<longleftrightarrow> str_find s p \<noteq> None"

definition replace_char :: "char \<Rightarrow> char \<Rightarrow> string \<Rightarrow> string" where
  "replace_char a b s = map (\<lambda>c. if c = a then b else c) s"

fun rsplit_last :: "char \<Rightarrow> string \<Rightarrow> string" where
  "rsplit_last d [] = []"
| "rsplit_last d (c # s) = (if d \<in> set (c # s) then rsplit_last d s else c # s)"

fun join_with :: "string \<Rightarrow> string list \<Rightarrow> string" where
  "join_with d [] = []"
| "join_with d [x] = x"
| "join_with d (x # y # xs) = x @ d @ join_with d (y # xs)"

lemma starts_with_iff: "starts_with s p \<longleftrightarrow> (\<exists>t. s = p @ t)"
  unfolding starts_with_def by (metis append_eq_conv_conj)

lemma ends_with_iff: "ends_with s p \<longleftrightarrow> (\<exists>t. s = t @ p)"
  unfolding ends_with_def
  by (metis append_take_drop_id diff_add_inverse2 append_eq_conv_conj le_add2 length_append)

lemma length_replace_char [simp]: "length (replace_char a b s) = length s"
  by (simp add: replace_char_def)

lemma replace_char_append [simp]: "replace_char a b (s @ t) = replace_char a b s @ replace_char a b t"
  by (simp add: replace_char_def)

lemma str_find_Some:
  "str_find s p = Some k \<Longrightarrow> k + length p \<le> length s \<and> take (length p) (drop k s) = p"
proof (induction s p arbitrary: k rule: str_find.induct)
  case (1 p)
  then show ?case by (simp split: if_splits)
next
  case (2 c s p)
  show ?case
  proof (cases "starts_with (c # s) p")
    case True
    then obtain t where "c # s = p @ t"
      by (auto simp: starts_with_iff)
    then have "length p \<le> length (c # s)" "take (length p) (c # s) = p"
      by (metis le_add1 length_append, simp)
    with True "2.prems" show ?thesis
      by simp
  next
    case False
    with "2.prems" obtain j where "str_find s p = Some j" "k = Suc j"
      by auto
    with "2.IH" False show ?thesis by simp
  qed
qed

lemma str_find_None: "str_find s p = None \<longleftrightarrow> (\<forall>a b. s \<noteq> a @ p @ b)"
proof (induction s p rule: str_find.induct)
  case (1 p)
  then show ?case by simp
next
  case (2 c s p)
  show ?case
  proof (cases "starts_with (c # s) p")
    case True
    then obtain t where "c # s = p @ t"
      by (auto simp: starts_with_iff)
    then have "c # s = [] @ p @ t" by simp
    with True show ?thesis
      unfolding str_find.simps by auto
  next
    case False
    have "(\<exists>a b. c # s = a @ p @ b) \<longleftrightarrow> (\<exists>a b. s = a @ p @ b)"
    proof
      assume "\<exists>a b. c # s = a @ p @ b"
      then obtain a b where ab: "c # s = a @ p @ b" by blast
      with False have "a \<noteq> []"
        by (auto simp: starts_with_iff)
      with ab show "\<exists>a b. s = a @ p @ b"
        by (cases a) auto
    next
      assume "\<exists>a b. s = a @ p @ b"
      then show "\<exists>a b. c # s = a @ p @ b"
        by (metis append_Cons)
    qed
    with False "2.IH" show ?thesis
      by auto
  qed
qed

section \<open>Results and effects\<close>

text \<open>
  A parser reads a value off the front of a buffer (\<open>buf: &mut &[u8]\<close>); it returns the value
  and the bytes left. Every caller in the sources leaves through \<open>?\<close> on an error, so the
  buffer an error leaves behind is never read and is not part of the result.
  An effect is a computation that may change a state and fail; on failure the state reached so
  far is kept, as the state of a Rust object is when a method returns \<open>Err\<close>.
\<close>

type_synonym ('e, 'a) parser = "bytes \<Rightarrow> 'e + ('a \<times> bytes)"
type_synonym ('s, 'e, 'a) eff = "'s \<Rightarrow> ('e + 'a) \<times> 's"

fun map_ok :: "('a \<Rightarrow> 'b) \<Rightarrow> 'e + 'a \<Rightarrow> 'e + 'b" where
  "map_ok f (Inl e) = Inl e"
| "map_ok f (Inr x) = Inr (f x)"

fun map_err :: "('e \<Rightarrow> 'f) \<Rightarrow> 'e + 'a \<Rightarrow> 'f + 'a" where
  "map_err f (Inl e) = Inl (f e)"
| "map_err f (Inr x) = Inr x"

definition preturn :: "'a \<Rightarrow> ('e, 'a) parser" where
  "preturn x = (\<lambda>buf. Inr (x, buf))"

definition pfail :: "'e \<Rightarrow> ('e, 'a) parser" where
  "pfail e = (\<lambda>buf. Inl e)"

definition pbind :: "('e, 'a) parser \<Rightarrow> ('a \<Rightarrow> ('e, 'b) parser) \<Rightarrow> ('e, 'b) parser" where
  "pbind p f = (\<lambda>buf. case p buf of Inl e \<Rightarrow> Inl e | Inr (x, rest) \<Rightarrow> f x rest)"

fun ptimes :: "nat \<Rightarrow> ('e, 'a) parser \<Rightarrow> ('e, 'a list) parser" where
  "ptimes 0 p = preturn []"
| "ptimes (Suc n) p = pbind p (\<lambda>x. pbind (ptimes n p) (\<lambda>xs. preturn (x # xs)))"

definition prun :: "('e, 'a) parser \<Rightarrow> bytes \<Rightarrow> 'e + 'a" where
  "prun p buf = map_ok fst (p buf)"

definition ereturn :: "'a \<Rightarrow> ('s, 'e, 'a) eff" where
  "ereturn x = (\<lambda>s. (Inr x, s))"

definition efail :: "'e \<Rightarrow> ('s, 'e, 'a) eff" where
  "efail e = (\<lambda>s. (Inl e, s))"

definition ebind :: "('s, 'e, 'a) eff \<Rightarrow> ('a \<Rightarrow> ('s, 'e, 'b) eff) \<Rightarrow> ('s, 'e, 'b) eff" where
  "ebind m f = (\<lambda>s. case m s of (Inl e, s') \<Rightarrow> (Inl e, s') | (Inr x, s') \<Rightarrow> f x s')"

definition eresult :: "'e + 'a \<Rightarrow> ('s, 'e, 'a) eff" where
  "eresult r = (\<lambda>s. (r, s))"

definition ecatch :: "('s, 'e, 'a) eff \<Rightarrow> ('s, 'f, 'e + 'a) eff" where
  "ecatch m = (\<lambda>s. case m s of (r, s') \<Rightarrow> (Inr r, s'))"

text \<open>
  The shapes of effects the tool handlers use: an effect over a list, left to right; a
  computation that cannot fail; reading and changing the state; and a body whose early \<open>return\<close>
  and final value have the same type, where \<open>Inl\<close> is the early one.
\<close>

fun emap :: "('a \<Rightarrow> ('s, 'e, 'b) eff) \<Rightarrow> 'a list \<Rightarrow> ('s, 'e, 'b list) eff" where
  "emap f [] = ereturn []"
| "emap f (x # xs) = ebind (f x) (\<lambda>y. ebind (emap f xs) (\<lambda>ys. ereturn (y # ys)))"

definition epure :: "('s \<Rightarrow> 'a \<times> 's) \<Rightarrow> ('s, 'e, 'a) eff" where
  "epure f = (\<lambda>s. case f s of (x, s') \<Rightarrow> (Inr x, s'))"

definition eget :: "('s \<Rightarrow> 'a) \<Rightarrow> ('s, 'e, 'a) eff" where
  "eget f = (\<lambda>s. (Inr (f s), s))"

definition eset :: "('s \<Rightarrow> 's) \<Rightarrow> ('s, 'e, unit) eff" where
  "eset f = (\<lambda>s. (Inr (), f s))"

definition emerge :: "('s, 'a, 'a) eff \<Rightarrow> 's \<Rightarrow> 'a \<times> 's" where
  "emerge m = (\<lambda>s. case m s of (Inl x, s') \<Rightarrow> (x, s') | (Inr x, s') \<Rightarrow> (x, s'))"

definition eoption :: "'e \<Rightarrow> 'a option \<Rightarrow> ('s, 'e, 'a) eff" where
  "eoption e v = (\<lambda>s. (case v of None \<Rightarrow> Inl e | Some x \<Rightarrow> Inr x, s))"

lemmas parser_defs = preturn_def pfail_def pbind_def prun_def
lemmas eff_defs = ereturn_def efail_def ebind_def eresult_def ecatch_def

lemma pbind_Inr_iff:
  "pbind p f buf = Inr (y, r) \<longleftrightarrow> (\<exists>x m. p buf = Inr (x, m) \<and> f x m = Inr (y, r))"
  by (auto simp: pbind_def split: sum.splits prod.splits)

lemma prun_Inr_iff: "prun p buf = Inr x \<longleftrightarrow> (\<exists>r. p buf = Inr (x, r))"
  by (cases "p buf") (auto simp: prun_def)

lemma prun_Inl_iff: "prun p buf = Inl e \<longleftrightarrow> p buf = Inl e"
  by (cases "p buf") (auto simp: prun_def)

lemma ebind_Inr_iff:
  "ebind m f s = (Inr y, s') \<longleftrightarrow> (\<exists>x t. m s = (Inr x, t) \<and> f x t = (Inr y, s'))"
  by (auto simp: ebind_def split: prod.splits sum.splits)

lemma ebind_return [simp]: "ebind (ereturn x) f = f x"
  by (simp add: ebind_def ereturn_def)

lemma ebind_fail [simp]: "ebind (efail e) f = efail e"
  by (simp add: ebind_def efail_def)

lemma ebind_get [simp]: "ebind (eget g) f s = f (g s) s"
  by (simp add: ebind_def eget_def)

lemma ebind_set [simp]: "ebind (eset g) f s = f () (g s)"
  by (simp add: ebind_def eset_def)

lemma ebind_option [simp]: "ebind (eoption e (Some x)) f s = f x s" "ebind (eoption e None) f s = (Inl e, s)"
  by (simp_all add: ebind_def eoption_def)

lemma ebind_step: "m s = (Inr x, t) \<Longrightarrow> ebind m f s = f x t"
  by (simp add: ebind_def)

lemma ebind_stop: "m s = (Inl e, t) \<Longrightarrow> ebind m f s = (Inl e, t)"
  by (simp add: ebind_def)

lemma ebind_cases:
  assumes "ebind m f s = (r, s')"
  obtains e where "m s = (Inl e, s')" and "r = Inl e"
    | x t where "m s = (Inr x, t)" and "f x t = (r, s')"
proof -
  obtain q t where m: "m s = (q, t)" by force
  show thesis
  proof (cases q)
    case (Inl e)
    with m assms have "m s = (Inl e, s')" "r = Inl e" by (simp_all add: ebind_def)
    then show thesis by (rule that(1))
  next
    case (Inr x)
    with m assms have "m s = (Inr x, t)" "f x t = (r, s')" by (simp_all add: ebind_def)
    then show thesis by (rule that(2))
  qed
qed

text \<open>What every step of a computation keeps, the computation keeps.\<close>

definition keeps :: "('s \<Rightarrow> 's \<Rightarrow> bool) \<Rightarrow> ('s, 'e, 'a) eff \<Rightarrow> bool" where
  "keeps R m \<longleftrightarrow> (\<forall>s. R s (snd (m s)))"

lemma keeps_run: "keeps R m \<Longrightarrow> m s = (r, s') \<Longrightarrow> R s s'"
  unfolding keeps_def by (metis snd_conv)

named_theorems keeps_intros \<open>effects that keep a relation between their states\<close>

lemma keeps_bind:
  assumes "\<And>a b c. R a b \<Longrightarrow> R b c \<Longrightarrow> R a c" and "keeps R m" and "\<And>x. keeps R (f x)"
  shows "keeps R (ebind m f)"
  unfolding keeps_def
proof
  fix s
  obtain r t where m: "m s = (r, t)" by force
  with assms(2) have st: "R s t"
    unfolding keeps_def by (metis snd_conv)
  show "R s (snd (ebind m f s))"
  proof (cases r)
    case (Inl e)
    with m st show ?thesis by (simp add: ebind_def)
  next
    case (Inr x)
    with m have "ebind m f s = f x t" by (simp add: ebind_def)
    with assms(1) [OF st] assms(3) show ?thesis
      unfolding keeps_def by simp
  qed
qed

lemma map_err_Inr_iff [simp]: "map_err f r = Inr x \<longleftrightarrow> r = Inr x"
  by (cases r) auto

end
