(* ===== verification/Wire.thy ===== *)
theory Wire
  imports Prelude
begin

text \<open>
  The byte layer: big-endian reading and writing of unsigned words (\<open>put_u8\<close>/\<open>get_u8\<close> to
  \<open>put_u64\<close>/\<open>get_u64\<close>, the documented big-endian order that \<open>protocol.rs\<close> pins in its tests
  and \<open>eventloop.rs\<close> spells out with \<open>from_be_bytes\<close>), and the interfaces the readers of the
  client share: a reader that depends on the bytes it consumes only, a codec whose reader undoes
  its writer, and a canonical codec whose reader accepts nothing else.
\<close>

section \<open>Big-endian words\<close>

definition put_u8 :: "u8 \<Rightarrow> bytes" where
  "put_u8 w = [w]"

definition put_u16 :: "u16 \<Rightarrow> bytes" where
  "put_u16 w = [ucast (drop_bit 8 w), ucast w]"

definition put_u32 :: "u32 \<Rightarrow> bytes" where
  "put_u32 w = [ucast (drop_bit 24 w), ucast (drop_bit 16 w), ucast (drop_bit 8 w), ucast w]"

definition put_u64 :: "u64 \<Rightarrow> bytes" where
  "put_u64 w = put_u32 (ucast (drop_bit 32 w)) @ put_u32 (ucast w)"

definition be16 :: "u8 \<Rightarrow> u8 \<Rightarrow> u16" where
  "be16 a b = push_bit 8 (ucast a) OR ucast b"

definition be32 :: "u8 \<Rightarrow> u8 \<Rightarrow> u8 \<Rightarrow> u8 \<Rightarrow> u32" where
  "be32 a b c d = push_bit 24 (ucast a) OR push_bit 16 (ucast b) OR push_bit 8 (ucast c) OR ucast d"

definition be64 :: "u32 \<Rightarrow> u32 \<Rightarrow> u64" where
  "be64 hi lo = push_bit 32 (ucast hi) OR ucast lo"

fun from_be16 :: "bytes \<Rightarrow> u16" where
  "from_be16 (a # b # _) = be16 a b"
| "from_be16 _ = 0"

fun from_be32 :: "bytes \<Rightarrow> u32" where
  "from_be32 (a # b # c # d # _) = be32 a b c d"
| "from_be32 _ = 0"

definition from_be64 :: "bytes \<Rightarrow> u64" where
  "from_be64 bs = be64 (from_be32 bs) (from_be32 (drop 4 bs))"

lemma length_put [simp, layout_simps]:
  "length (put_u8 a) = 1" "length (put_u16 b) = 2" "length (put_u32 c) = 4" "length (put_u64 d) = 8"
  by (simp_all add: put_u8_def put_u16_def put_u32_def put_u64_def)

lemma be16_put: "be16 (ucast (drop_bit 8 w)) (ucast w) = w"
  by (rule bit_word_eqI) (auto simp: be16_def bit_simps)

lemma be32_put:
  "be32 (ucast (drop_bit 24 w)) (ucast (drop_bit 16 w)) (ucast (drop_bit 8 w)) (ucast w) = w"
proof (rule bit_word_eqI)
  fix n
  assume "n < LENGTH(32)"
  then consider "n < 8" | "8 \<le> n" "n < 16" | "16 \<le> n" "n < 24" | "24 \<le> n" "n < 32"
    by fastforce
  then show "bit (be32 (ucast (drop_bit 24 w)) (ucast (drop_bit 16 w)) (ucast (drop_bit 8 w)) (ucast w)) n
      = bit w n"
    by cases (auto simp: be32_def bit_simps)
qed

lemma be64_put: "be64 (ucast (drop_bit 32 w)) (ucast w) = w"
  by (rule bit_word_eqI) (auto simp: be64_def bit_simps)

lemma bit_u8_high: "\<not> bit (a :: u8) n" if "8 \<le> n"
  using that bit_imp_le_length [of a n] by auto

lemma put_be16: "put_u16 (be16 a b) = [a, b]"
  unfolding put_u16_def be16_def
  by (auto intro!: bit_word_eqI simp: bit_simps bit_u8_high)

lemma put_be32: "put_u32 (be32 a b c d) = [a, b, c, d]"
  unfolding put_u32_def be32_def
  by (auto intro!: bit_word_eqI simp: bit_simps bit_u8_high)

lemma bit_u32_high: "\<not> bit (a :: u32) n" if "32 \<le> n"
  using that bit_imp_le_length [of a n] by auto

lemma put_be64: "put_u64 (be64 hi lo) = put_u32 hi @ put_u32 lo"
proof -
  have "ucast (drop_bit 32 (be64 hi lo)) = hi" "ucast (be64 hi lo) = lo"
    by (auto intro!: bit_word_eqI simp: be64_def bit_simps bit_u32_high)
  then show ?thesis
    by (simp add: put_u64_def)
qed

lemma from_be16_put [simp, wire_simps]: "from_be16 (put_u16 w @ r) = w"
  by (simp add: put_u16_def be16_put)

lemma from_be32_put [simp, wire_simps]: "from_be32 (put_u32 w @ r) = w"
  by (simp add: put_u32_def be32_put)

lemma from_be64_put [simp, wire_simps]: "from_be64 (put_u64 w @ r) = w"
  by (simp add: from_be64_def put_u64_def be64_put)

lemma put_from_be16: "2 \<le> length bs \<Longrightarrow> put_u16 (from_be16 bs) = take 2 bs"
  by (cases bs rule: from_be16.cases) (auto simp: put_be16 numeral_2_eq_2)

lemma put_from_be32: "4 \<le> length bs \<Longrightarrow> put_u32 (from_be32 bs) = take 4 bs"
  by (cases bs rule: from_be32.cases) (auto simp: put_be32)

lemma put_from_be64: "8 \<le> length bs \<Longrightarrow> put_u64 (from_be64 bs) = take 8 bs"
proof -
  assume len: "8 \<le> length bs"
  have "put_u64 (from_be64 bs) = take 4 bs @ take 4 (drop 4 bs)"
    using len by (simp add: from_be64_def put_be64 put_from_be32)
  also have "\<dots> = take 8 bs"
    using take_add [of 4 4 bs] by simp
  finally show ?thesis .
qed

section \<open>Interfaces of readers and codecs\<close>

text \<open>
  A reader consumes a prefix of its buffer, and neither its value nor its success depends on
  what follows that prefix.
\<close>

locale byte_reader =
  fixes get :: "('e, 'a) parser"
  assumes consumes:
    "get buf = Inr (x, r) \<Longrightarrow> \<exists>pre. buf = pre @ r \<and> (\<forall>t. get (pre @ t) = Inr (x, t))"
begin

lemma length_le: "get buf = Inr (x, r) \<Longrightarrow> length r \<le> length buf"
  using consumes by fastforce

lemma extend: "get buf = Inr (x, r) \<Longrightarrow> get (buf @ t) = Inr (x, r @ t)"
  using consumes by fastforce

lemma run_extend: "prun get buf = Inr x \<Longrightarrow> prun get (buf @ t) = Inr x"
  by (auto simp: prun_Inr_iff dest: extend)

end

lemma byte_reader_return: "byte_reader (preturn x)"
  by unfold_locales (auto simp: preturn_def)

lemma byte_reader_fail: "byte_reader (pfail e)"
  by unfold_locales (auto simp: pfail_def)

lemma byte_reader_bind:
  assumes "byte_reader p" and "\<And>x. byte_reader (f x)"
  shows "byte_reader (pbind p f)"
proof
  fix buf y r
  assume "pbind p f buf = Inr (y, r)"
  then obtain x m where p: "p buf = Inr (x, m)" and f: "f x m = Inr (y, r)"
    by (auto simp: pbind_Inr_iff)
  from byte_reader.consumes [OF assms(1) p] obtain a where
    a: "buf = a @ m" "\<forall>t. p (a @ t) = Inr (x, t)" by blast
  from byte_reader.consumes [OF assms(2) f] obtain b where
    b: "m = b @ r" "\<forall>t. f x (b @ t) = Inr (y, t)" by blast
  have "buf = (a @ b) @ r \<and> (\<forall>t. pbind p f ((a @ b) @ t) = Inr (y, t))"
    using a b by (simp add: pbind_def)
  then show "\<exists>pre. buf = pre @ r \<and> (\<forall>t. pbind p f (pre @ t) = Inr (y, t))"
    by blast
qed

lemma byte_reader_times: "byte_reader p \<Longrightarrow> byte_reader (ptimes n p)"
  by (induction n) (auto intro: byte_reader_bind byte_reader_return)

lemmas byte_reader_intros =
  byte_reader_return byte_reader_fail byte_reader_bind byte_reader_times

text \<open>A codec: reading back a value that was written gives the value and leaves the rest.\<close>

locale wire_codec =
  fixes put :: "'a \<Rightarrow> bytes"
    and get :: "('e, 'a) parser"
    and ok :: "'a \<Rightarrow> bool"
  assumes get_put: "ok x \<Longrightarrow> get (put x @ r) = Inr (x, r)"
begin

lemma put_inj: "ok x \<Longrightarrow> ok y \<Longrightarrow> put x = put y \<Longrightarrow> x = y"
  by (metis get_put Inr_inject Pair_inject)

lemma put_prefix_free: "ok x \<Longrightarrow> ok y \<Longrightarrow> put x @ r = put y @ s \<Longrightarrow> x = y \<and> r = s"
  by (metis get_put Inr_inject Pair_inject)

lemma get_put_list:
  "\<forall>x \<in> set xs. ok x \<Longrightarrow> ptimes (length xs) get (concat (map put xs) @ r) = Inr (xs, r)"
  by (induction xs) (simp_all add: parser_defs get_put)

end

text \<open>A canonical codec: whatever the reader accepts is what the writer writes.\<close>

locale canonical_codec = wire_codec +
  assumes put_get: "get buf = Inr (x, r) \<Longrightarrow> ok x \<and> buf = put x @ r"

sublocale canonical_codec \<subseteq> byte_reader get
proof
  fix buf x r
  assume "get buf = Inr (x, r)"
  then have x: "ok x" "buf = put x @ r"
    by (auto dest: put_get)
  then show "\<exists>pre. buf = pre @ r \<and> (\<forall>t. get (pre @ t) = Inr (x, t))"
    by (auto intro: get_put)
qed

context canonical_codec
begin

lemma get_unique: "get buf = Inr (x, r) \<Longrightarrow> get buf' = Inr (x, r) \<Longrightarrow> buf = buf'"
  using put_get by metis

lemma get_list_sound:
  "ptimes n get buf = Inr (xs, r) \<Longrightarrow>
     length xs = n \<and> (\<forall>x \<in> set xs. ok x) \<and> buf = concat (map put xs) @ r"
proof (induction n arbitrary: buf xs)
  case 0
  then show ?case by (simp add: preturn_def)
next
  case (Suc n)
  from Suc.prems obtain x m ys where x: "get buf = Inr (x, m)"
    and ys: "ptimes n get m = Inr (ys, r)" and xs: "xs = x # ys"
    by (auto simp: pbind_Inr_iff preturn_def)
  from put_get [OF x] Suc.IH [OF ys] xs show ?case
    by simp
qed

end

end
