(* ===== verification/Utf8.thy ===== *)
theory Utf8
  imports Wire
begin

text \<open>
  UTF-8 as the standard library checks and decodes it (\<open>String::from_utf8\<close>, \<open>str::chars\<close>), on
  which \<open>read_string\<close> (\<open>reader.rs\<close>) and \<open>write_jdwp_string\<close> (\<open>protocol.rs\<close>) rest. The decoder
  reports where and how it stops exactly as \<open>Utf8Error\<close> does: the offset of the first bad
  sequence and its length, or no length when the input ends inside a sequence.
\<close>

definition byte_of :: "nat \<Rightarrow> u8" where
  "byte_of n = word_of_nat n"

definition char32_of :: "nat \<Rightarrow> u32" where
  "char32_of n = word_of_nat n"

definition is_scalar :: "u32 \<Rightarrow> bool" where
  "is_scalar c \<longleftrightarrow> c \<le> 0xD7FF \<or> 0xE000 \<le> c \<and> c \<le> 0x10FFFF"

definition is_cont :: "u8 \<Rightarrow> bool" where
  "is_cont b \<longleftrightarrow> 0x80 \<le> b \<and> b \<le> 0xBF"

definition second_of_3 :: "u8 \<Rightarrow> u8 \<Rightarrow> bool" where
  "second_of_3 a b \<longleftrightarrow>
     (if a = 0xE0 then 0xA0 \<le> b \<and> b \<le> 0xBF else if a = 0xED then 0x80 \<le> b \<and> b \<le> 0x9F else is_cont b)"

definition second_of_4 :: "u8 \<Rightarrow> u8 \<Rightarrow> bool" where
  "second_of_4 a b \<longleftrightarrow>
     (if a = 0xF0 then 0x90 \<le> b \<and> b \<le> 0xBF else if a = 0xF4 then 0x80 \<le> b \<and> b \<le> 0x8F else is_cont b)"

definition char2 :: "u8 \<Rightarrow> u8 \<Rightarrow> u32" where
  "char2 a b = char32_of ((unat a - 0xC0) * 64 + (unat b - 0x80))"

definition char3 :: "u8 \<Rightarrow> u8 \<Rightarrow> u8 \<Rightarrow> u32" where
  "char3 a b c = char32_of ((unat a - 0xE0) * 4096 + (unat b - 0x80) * 64 + (unat c - 0x80))"

definition char4 :: "u8 \<Rightarrow> u8 \<Rightarrow> u8 \<Rightarrow> u8 \<Rightarrow> u32" where
  "char4 a b c d =
     char32_of ((unat a - 0xF0) * 262144 + (unat b - 0x80) * 4096 + (unat c - 0x80) * 64 + (unat d - 0x80))"

fun utf8_next :: "(nat option, u32) parser" where
  "utf8_next [] = Inl None"
| "utf8_next (a # bs) =
     (if a < 0x80 then Inr (ucast a, bs)
      else if a < 0xC2 then Inl (Some 1)
      else if a \<le> 0xDF then
        (case bs of [] \<Rightarrow> Inl None
         | b # r \<Rightarrow> if is_cont b then Inr (char2 a b, r) else Inl (Some 1))
      else if a \<le> 0xEF then
        (case bs of [] \<Rightarrow> Inl None
         | b # bs2 \<Rightarrow> if \<not> second_of_3 a b then Inl (Some 1)
             else (case bs2 of [] \<Rightarrow> Inl None
                   | c # r \<Rightarrow> if is_cont c then Inr (char3 a b c, r) else Inl (Some 2)))
      else if a \<le> 0xF4 then
        (case bs of [] \<Rightarrow> Inl None
         | b # bs2 \<Rightarrow> if \<not> second_of_4 a b then Inl (Some 1)
             else (case bs2 of [] \<Rightarrow> Inl None
                   | c # bs3 \<Rightarrow> if \<not> is_cont c then Inl (Some 2)
                       else (case bs3 of [] \<Rightarrow> Inl None
                             | d # r \<Rightarrow> if is_cont d then Inr (char4 a b c d, r) else Inl (Some 3))))
      else Inl (Some 1))"

lemma utf8_next_shorter: "utf8_next bs = Inr (c, r) \<Longrightarrow> length r < length bs"
  by (cases bs) (auto split: if_splits list.splits)

function utf8_scan :: "nat \<Rightarrow> bytes \<Rightarrow> (nat \<times> nat option) + u32 list" where
  "utf8_scan i bs =
     (if bs = [] then Inr []
      else (case utf8_next bs of
              Inl el \<Rightarrow> Inl (i, el)
            | Inr (c, r) \<Rightarrow>
                (case utf8_scan (i + (length bs - length r)) r of
                   Inl e \<Rightarrow> Inl e
                 | Inr cs \<Rightarrow> Inr (c # cs))))"
  by pat_completeness auto
termination
  by (relation "measure (\<lambda>(i, bs). length bs)") (auto dest: utf8_next_shorter)

declare utf8_scan.simps [simp del]

definition utf8_error_message :: "nat \<times> nat option \<Rightarrow> string" where
  "utf8_error_message e = (case e of
     (i, Some n) \<Rightarrow> ''invalid utf-8 sequence of '' @ show_nat n @ '' bytes from index '' @ show_nat i
   | (i, None) \<Rightarrow> ''incomplete utf-8 byte sequence from index '' @ show_nat i)"

definition from_utf8 :: "bytes \<Rightarrow> (nat \<times> nat option) + string" where
  "from_utf8 bs = (case utf8_scan 0 bs of Inl e \<Rightarrow> Inl e | Inr _ \<Rightarrow> Inr (str_of_bytes bs))"

definition chars :: "string \<Rightarrow> u32 list" where
  "chars s = (case utf8_scan 0 (bytes_of_str s) of Inl _ \<Rightarrow> [] | Inr cs \<Rightarrow> cs)"

definition valid_str :: "string \<Rightarrow> bool" where
  "valid_str s \<longleftrightarrow> from_utf8 (bytes_of_str s) = Inr s"

text \<open>The encoder, \<open>char::encode_utf8\<close>, in arithmetic form.\<close>

definition utf8_char :: "u32 \<Rightarrow> bytes" where
  "utf8_char c = (let n = unat c in map byte_of
     (if n < 0x80 then [n]
      else if n < 0x800 then [0xC0 + n div 64, 0x80 + n mod 64]
      else if n < 0x10000 then [0xE0 + n div 4096, 0x80 + n div 64 mod 64, 0x80 + n mod 64]
      else [0xF0 + n div 262144, 0x80 + n div 4096 mod 64, 0x80 + n div 64 mod 64, 0x80 + n mod 64]))"

section \<open>The decoder undoes the encoder and accepts nothing else\<close>

lemmas word_nat_order = word_le_nat_alt word_less_nat_alt

lemma unat_byte_of [simp]: "n < 256 \<Longrightarrow> unat (byte_of n) = n"
  by (simp add: byte_of_def unsigned_of_nat take_bit_nat_eq_self)

lemma byte_of_unat [simp]: "byte_of (unat b) = b"
  by (simp add: byte_of_def)

lemma char32_of_unat [simp]: "char32_of (unat c) = c"
  by (simp add: char32_of_def)

lemma unat_char32_of [simp]: "n < 4294967296 \<Longrightarrow> unat (char32_of n) = n"
  by (simp add: char32_of_def unsigned_of_nat take_bit_nat_eq_self)

lemma u8_eq_iff: "(a :: u8) = b \<longleftrightarrow> unat a = unat b"
  by (simp add: word_eq_iff_unsigned)

lemma unat_less_u8: "unat (a :: u8) < 256"
  using unsigned_less [of a, where ?'a = nat] by simp

lemma ucast_byte_of [simp]: "n < 256 \<Longrightarrow> ucast (byte_of n) = char32_of n"
  unfolding byte_of_def char32_of_def
  by (simp add: unsigned_ucast_eq unsigned_of_nat take_bit_nat_eq_self)

lemma radix_mod: "b < k \<Longrightarrow> (a * k + b) mod k = (b :: nat)"
  by simp

lemma radix3:
  obtains x y z where "n = (x * 64 + y) * 64 + z" "y < 64" "z < (64 :: nat)"
    "n div 4096 = x" "n div 64 mod 64 = y" "n mod 64 = z"
proof
  show "n = (n div 4096 * 64 + n div 64 mod 64) * 64 + n mod 64"
    using div_mult2_eq [of n 64 64] by simp
qed simp_all

lemma radix4:
  obtains x y z w where "n = ((x * 64 + y) * 64 + z) * 64 + w" "y < 64" "z < 64" "w < (64 :: nat)"
    "n div 262144 = x" "n div 4096 mod 64 = y" "n div 64 mod 64 = z" "n mod 64 = w"
proof
  show "n = ((n div 262144 * 64 + n div 4096 mod 64) * 64 + n div 64 mod 64) * 64 + n mod 64"
    using div_mult2_eq [of n 64 64] div_mult2_eq [of n 4096 64] by simp
qed simp_all

lemma utf8_char_next:
  assumes "is_scalar c"
  shows "utf8_next (utf8_char c @ r) = Inr (c, r)"
proof -
  define n where "n = unat c"
  have c: "char32_of n = c" and scal: "n \<le> 0xD7FF \<or> 0xE000 \<le> n \<and> n \<le> 0x10FFFF"
    using assms by (auto simp: n_def is_scalar_def word_nat_order)
  note defs = utf8_char_def n_def [symmetric] word_nat_order is_cont_def char2_def char3_def
    char4_def second_of_3_def second_of_4_def u8_eq_iff c
  consider "n < 0x80" | "0x80 \<le> n" "n < 0x800" | "0x800 \<le> n" "n < 0x10000" | "0x10000 \<le> n"
    by linarith
  then show ?thesis
  proof cases
    case 1
    then show ?thesis
      by (simp add: defs)
  next
    case 2
    obtain q m where qm: "q = n div 64" "m = n mod 64" by blast
    then have n: "n = q * 64 + m" "m < 64" "n div 64 = q" "n mod 64 = m"
      by simp_all
    with 2 have "2 \<le> q" "q < 32" by simp_all
    moreover from n have "char32_of (q * 64 + m) = c" by (metis c)
    moreover have "utf8_char c = [byte_of (0xC0 + q), byte_of (0x80 + m)]"
      using 2 n(3,4) by (simp add: utf8_char_def n_def [symmetric])
    ultimately show ?thesis
      using n(2) by (simp add: is_cont_def char2_def word_nat_order)
  next
    case 3
    obtain x y z where n: "n = (x * 64 + y) * 64 + z" "y < 64" "z < 64"
      "n div 4096 = x" "n div 64 mod 64 = y" "n mod 64 = z"
      by (rule radix3)
    have "x < 16" "x = 0 \<longrightarrow> 32 \<le> y" "x = 13 \<longrightarrow> y \<le> 31"
      using 3 scal n(1-3) by auto
    moreover have "utf8_char c = [byte_of (0xE0 + x), byte_of (0x80 + y), byte_of (0x80 + z)]"
      using 3 n(4-6) by (simp add: utf8_char_def n_def [symmetric])
    moreover have "char32_of (x * 4096 + y * 64 + z) = c"
      using n(1) c by (simp add: algebra_simps)
    ultimately show ?thesis
      using n(2,3) by (simp add: is_cont_def second_of_3_def char3_def word_nat_order u8_eq_iff)
  next
    case 4
    obtain x y z w where n: "n = ((x * 64 + y) * 64 + z) * 64 + w" "y < 64" "z < 64" "w < 64"
      "n div 262144 = x" "n div 4096 mod 64 = y" "n div 64 mod 64 = z" "n mod 64 = w"
      by (rule radix4)
    have "x \<le> 4" "x = 0 \<longrightarrow> 16 \<le> y" "x = 4 \<longrightarrow> y \<le> 15"
      using 4 scal n(1-4) by auto
    moreover have "utf8_char c =
        [byte_of (0xF0 + x), byte_of (0x80 + y), byte_of (0x80 + z), byte_of (0x80 + w)]"
      using 4 n(5-8) by (simp add: utf8_char_def n_def [symmetric])
    moreover have "char32_of (x * 262144 + y * 4096 + z * 64 + w) = c"
      using n(1) c by (simp add: algebra_simps)
    ultimately show ?thesis
      using n(2-4) by (simp add: is_cont_def second_of_4_def char4_def word_nat_order u8_eq_iff)
  qed
qed

lemma utf8_next_char:
  assumes "utf8_next buf = Inr (c, r)"
  shows "is_scalar c \<and> buf = utf8_char c @ r"
proof (cases buf)
  case Nil
  with assms show ?thesis by simp
next
  case (Cons a bs)
  note eq = assms [unfolded Cons]
  have a: "byte_of (unat a) = a" by simp
  have ua: "unat a < 256" by (rule unat_less_u8)
  note defs = is_scalar_def utf8_char_def word_nat_order is_cont_def char2_def char3_def
    char4_def second_of_3_def second_of_4_def u8_eq_iff Let_def
  consider "unat a < 0x80" | "0xC2 \<le> unat a" "unat a \<le> 0xDF" | "0xE0 \<le> unat a" "unat a \<le> 0xEF"
    | "0xF0 \<le> unat a" "unat a \<le> 0xF4"
    using eq by (auto simp: word_nat_order split: if_splits)
  then show ?thesis
  proof cases
    case 1
    then have "c = char32_of (unat a)" "r = bs"
      using eq ucast_byte_of [OF ua] by (auto simp: word_nat_order)
    with 1 show ?thesis
      by (simp add: Cons defs)
  next
    case 2
    then obtain b where b: "bs = b # r" "is_cont b" "c = char2 a b"
      using eq by (auto simp: word_nat_order split: list.splits if_splits)
    define x y where "x = unat a - 0xC0" and "y = unat b - 0x80"
    have xy: "unat a = 0xC0 + x" "unat b = 0x80 + y" "2 \<le> x" "x < 32" "y < 64"
      using 2 b(2) by (auto simp: x_def y_def is_cont_def word_nat_order)
    then have "a = byte_of (0xC0 + x)" "b = byte_of (0x80 + y)"
      by (metis byte_of_unat)+
    with xy b show ?thesis
      by (simp add: Cons defs)
  next
    case 3
    then obtain b d where b: "bs = b # d # r" "second_of_3 a b" "is_cont d" "c = char3 a b d"
      using eq by (auto simp: word_nat_order split: list.splits if_splits)
    define x y z where "x = unat a - 0xE0" and "y = unat b - 0x80" and "z = unat d - 0x80"
    have xy: "unat a = 0xE0 + x" "unat b = 0x80 + y" "unat d = 0x80 + z" "x < 16" "y < 64" "z < 64"
        "x = 0 \<longrightarrow> 32 \<le> y" "x = 13 \<longrightarrow> y < 32"
      using 3 b(2,3) by (auto simp: x_def y_def z_def defs split: if_splits)
    then have ab: "a = byte_of (0xE0 + x)" "b = byte_of (0x80 + y)" "d = byte_of (0x80 + z)"
      by (metis byte_of_unat)+
    define n where "n = x * 4096 + y * 64 + z"
    have q: "n div 4096 = x" "n div 64 = x * 64 + y"
      unfolding n_def using xy(5,6) by (auto intro!: div_nat_eqI)
    have n_radix: "n = (x * 64 + y) * 64 + z"
      by (simp add: n_def)
    have n: "n div 64 mod 64 = y" "n mod 64 = z"
      unfolding q(2) by (metis radix_mod xy(5), metis radix_mod n_radix xy(6))
    have bounds: "0x800 \<le> n" "n < 0x10000"
      unfolding n_def using xy(4-8) by (cases "x = 0"; simp)+
    have surr: "n \<le> 0xD7FF \<or> 0xE000 \<le> n"
    proof -
      consider "x \<le> 12" | "x = 13" | "14 \<le> x" by linarith
      then show ?thesis
        unfolding n_def using xy(5-8) by cases simp_all
    qed
    have "c = char32_of n"
      using b(4) xy by (simp add: char3_def n_def)
    with q(1) n bounds surr ab b(1) show ?thesis
      by (simp add: Cons defs)
  next
    case 4
    then obtain b d e where b: "bs = b # d # e # r" "second_of_4 a b" "is_cont d" "is_cont e"
        "c = char4 a b d e"
      using eq by (auto simp: word_nat_order split: list.splits if_splits)
    define x y z w where "x = unat a - 0xF0" and "y = unat b - 0x80" and "z = unat d - 0x80"
      and "w = unat e - 0x80"
    have xy: "unat a = 0xF0 + x" "unat b = 0x80 + y" "unat d = 0x80 + z" "unat e = 0x80 + w"
        "x \<le> 4" "y < 64" "z < 64" "w < 64" "x = 0 \<longrightarrow> 16 \<le> y" "x = 4 \<longrightarrow> y < 16"
      using 4 b(2-4) by (auto simp: x_def y_def z_def w_def defs split: if_splits)
    then have ab: "a = byte_of (0xF0 + x)" "b = byte_of (0x80 + y)" "d = byte_of (0x80 + z)"
        "e = byte_of (0x80 + w)"
      by (metis byte_of_unat)+
    define n where "n = x * 262144 + y * 4096 + z * 64 + w"
    have q: "n div 262144 = x" "n div 4096 = x * 64 + y" "n div 64 = (x * 64 + y) * 64 + z"
      unfolding n_def using xy(6-8) by (auto intro!: div_nat_eqI)
    have n_radix: "n = ((x * 64 + y) * 64 + z) * 64 + w"
      by (simp add: n_def)
    have n: "n div 4096 mod 64 = y" "n div 64 mod 64 = z" "n mod 64 = w"
      unfolding q(2,3)
      by (metis radix_mod xy(6), metis radix_mod xy(7), metis radix_mod n_radix xy(8))
    have bounds: "0x10000 \<le> n" "n \<le> 0x10FFFF"
      unfolding n_def using xy(5-10) by (cases "x = 0"; cases "x = 4"; simp)+
    have "c = char32_of n"
      using b(5) xy by (simp add: char4_def n_def)
    with q(1) n bounds ab b(1) show ?thesis
      by (simp add: Cons defs)
  qed
qed

interpretation utf8: canonical_codec utf8_char utf8_next is_scalar
  by unfold_locales (auto simp: utf8_char_next dest: utf8_next_char)

section \<open>Whole strings\<close>

definition utf8_chars :: "u32 list \<Rightarrow> bytes" where
  "utf8_chars cs = concat (map utf8_char cs)"

lemma utf8_char_nonempty [simp]: "utf8_char c \<noteq> []"
  by (simp add: utf8_char_def Let_def)

lemma utf8_scan_chars: "\<forall>c \<in> set cs. is_scalar c \<Longrightarrow> utf8_scan i (utf8_chars cs) = Inr cs"
  by (induction cs arbitrary: i)
    (simp_all add: utf8_chars_def utf8_scan.simps [of _ "[]"] utf8.get_put
      utf8_scan.simps [of _ "utf8_char _ @ _"])

lemma utf8_scan_sound:
  "utf8_scan i bs = Inr cs \<Longrightarrow> (\<forall>c \<in> set cs. is_scalar c) \<and> bs = utf8_chars cs"
proof (induction i bs arbitrary: cs rule: utf8_scan.induct)
  case (1 i bs)
  show ?case
  proof (cases "bs = []")
    case True
    with "1.prems" show ?thesis
      by (simp add: utf8_scan.simps [of i "[]"] utf8_chars_def)
  next
    case False
    with "1.prems" obtain c r ds where first: "utf8_next bs = Inr (c, r)"
      and rec: "utf8_scan (i + (length bs - length r)) r = Inr ds" and cs: "cs = c # ds"
      by (auto simp: utf8_scan.simps [of i bs] split: sum.splits prod.splits)
    from "1.IH" [OF False first refl rec] utf8.put_get [OF first] show ?thesis
      by (simp add: cs utf8_chars_def)
  qed
qed

lemma utf8_scan_iff:
  "utf8_scan i bs = Inr cs \<longleftrightarrow> (\<forall>c \<in> set cs. is_scalar c) \<and> bs = utf8_chars cs"
  using utf8_scan_chars utf8_scan_sound by blast

lemma from_utf8_iff:
  "from_utf8 bs = Inr s \<longleftrightarrow>
     s = str_of_bytes bs \<and> (\<exists>cs. (\<forall>c \<in> set cs. is_scalar c) \<and> bs = utf8_chars cs)"
  by (auto simp: from_utf8_def utf8_scan_iff utf8_scan_chars dest: utf8_scan_sound split: sum.splits)

lemma valid_str_iff: "valid_str s \<longleftrightarrow> (\<exists>cs. (\<forall>c \<in> set cs. is_scalar c) \<and> bytes_of_str s = utf8_chars cs)"
  by (simp add: valid_str_def from_utf8_iff)

lemma valid_str_chars:
  "valid_str s \<Longrightarrow> (\<forall>c \<in> set (chars s). is_scalar c) \<and> bytes_of_str s = utf8_chars (chars s)"
  by (auto simp: valid_str_iff chars_def utf8_scan_chars)

end
