(* ===== verification/Protocol.thy ===== *)
theory Protocol
  imports Utf8
begin

text \<open>
  \<open>jdwp-client/src/protocol.rs\<close>: errors, command and reply packets with their 11-byte header,
  and the writer of length-prefixed modified UTF-8 strings.
\<close>

datatype io_error = UnexpectedEof | OtherIo string

datatype jdwp_error =
    Io io_error
  | Protocol string
  | InvalidHandshake
  | JdwpErrorCode u16 string
  | ConnectionClosed

type_synonym 'a jdwp_result = "jdwp_error + 'a"

definition JDWP_HANDSHAKE :: bytes where
  "JDWP_HANDSHAKE = bytes_of_str ''JDWP-Handshake''"

definition HEADER_SIZE :: nat where
  "HEADER_SIZE = 11"

definition REPLY_FLAG :: u8 where
  "REPLY_FLAG = 0x80"

record command_packet =
  cmd_id :: u32
  command_set :: u8
  command :: u8
  cmd_data :: bytes

record reply_packet =
  reply_id :: u32
  error_code :: u16
  reply_data :: bytes

definition new_command :: "u32 \<Rightarrow> u8 \<Rightarrow> u8 \<Rightarrow> command_packet" where
  "new_command i cs c = \<lparr>cmd_id = i, command_set = cs, command = c, cmd_data = []\<rparr>"

definition encode_command :: "command_packet \<Rightarrow> bytes jdwp_result" where
  "encode_command p =
     (let len = HEADER_SIZE + length (cmd_data p)
      in if 2 ^ 32 \<le> len
         then Inl (Protocol (''Packet too large to encode: '' @ show_nat len @ '' bytes''))
         else Inr (put_u32 (word_of_nat len) @ put_u32 (cmd_id p) @ put_u8 0x00
                   @ put_u8 (command_set p) @ put_u8 (command p) @ cmd_data p))"

text \<open>
  The body of the loop over \<open>s.chars()\<close>: NUL as two bytes, supplementary characters as two
  surrogates of three bytes each, everything else as in UTF-8.
\<close>

definition mutf8_surrogate :: "u32 \<Rightarrow> bytes" where
  "mutf8_surrogate s =
     [0xE0 OR ucast (drop_bit 12 s), 0x80 OR ucast (drop_bit 6 s AND 0x3F), 0x80 OR ucast (s AND 0x3F)]"

definition mutf8_char :: "u32 \<Rightarrow> bytes" where
  "mutf8_char cp =
     (if cp = 0 then [0xC0, 0x80]
      else if cp \<le> 0x7F then [ucast cp]
      else if cp \<le> 0x7FF then
        [0xC0 OR ucast (drop_bit 6 cp), 0x80 OR ucast (cp AND 0x3F)]
      else if cp \<le> 0xFFFF then
        [0xE0 OR ucast (drop_bit 12 cp), 0x80 OR ucast (drop_bit 6 cp AND 0x3F), 0x80 OR ucast (cp AND 0x3F)]
      else (let cp' = cp - 0x10000; high = 0xD800 + drop_bit 10 cp'; low = 0xDC00 + (cp' AND 0x3FF)
            in mutf8_surrogate high @ mutf8_surrogate low))"

definition mutf8 :: "string \<Rightarrow> bytes" where
  "mutf8 s = concat (map mutf8_char (chars s))"

definition write_jdwp_string :: "bytes \<Rightarrow> string \<Rightarrow> bytes" where
  "write_jdwp_string buf s = buf @ put_u32 (word_of_nat (length (mutf8 s))) @ mutf8 s"

definition decode_reply :: "bytes \<Rightarrow> reply_packet jdwp_result" where
  "decode_reply buf =
     (if length buf < HEADER_SIZE then Inl (Protocol ''Reply packet too short'')
      else (let i = from_be32 (drop 4 buf); flags = buf ! 8
            in if flags \<noteq> REPLY_FLAG
               then Inl (Protocol (''Invalid reply flag: 0x'' @ show_hex flags))
               else Inr \<lparr>reply_id = i, error_code = from_be16 (drop 9 buf), reply_data = drop 11 buf\<rparr>))"

definition is_error :: "reply_packet \<Rightarrow> bool" where
  "is_error r \<longleftrightarrow> error_code r \<noteq> 0"

definition error_names :: "(nat \<times> string) list" where
  "error_names =
    [(0, ''NONE''), (10, ''INVALID_THREAD''),
     (11, ''INVALID_THREAD_GROUP''), (12, ''INVALID_PRIORITY''),
     (13, ''THREAD_NOT_SUSPENDED''), (14, ''THREAD_SUSPENDED''),
     (20, ''INVALID_OBJECT''), (21, ''INVALID_CLASS''),
     (22, ''CLASS_NOT_PREPARED''), (23, ''INVALID_METHODID''),
     (24, ''INVALID_LOCATION''), (25, ''INVALID_FIELDID''),
     (30, ''INVALID_FRAMEID''), (31, ''NO_MORE_FRAMES''),
     (32, ''OPAQUE_FRAME''), (33, ''NOT_CURRENT_FRAME''),
     (34, ''TYPE_MISMATCH''), (35, ''INVALID_SLOT''),
     (40, ''DUPLICATE''), (41, ''NOT_FOUND''),
     (50, ''INVALID_MONITOR''), (51, ''NOT_MONITOR_OWNER''),
     (52, ''INTERRUPT''), (60, ''INVALID_CLASS_FORMAT''),
     (61, ''CIRCULAR_CLASS_DEFINITION''), (62, ''FAILS_VERIFICATION''),
     (63, ''ADD_METHOD_NOT_IMPLEMENTED''), (64, ''SCHEMA_CHANGE_NOT_IMPLEMENTED''),
     (65, ''INVALID_TYPESTATE''), (66, ''HIERARCHY_CHANGE_NOT_IMPLEMENTED''),
     (67, ''DELETE_METHOD_NOT_IMPLEMENTED''), (68, ''UNSUPPORTED_VERSION''),
     (69, ''NAMES_DONT_MATCH''), (70, ''CLASS_MODIFIERS_CHANGE_NOT_IMPLEMENTED''),
     (71, ''METHOD_MODIFIERS_CHANGE_NOT_IMPLEMENTED''), (99, ''NOT_IMPLEMENTED''),
     (100, ''NULL_POINTER''), (101, ''ABSENT_INFORMATION''),
     (102, ''INVALID_EVENT_TYPE''), (103, ''ILLEGAL_ARGUMENT''),
     (110, ''OUT_OF_MEMORY''), (111, ''ACCESS_DENIED''),
     (112, ''VM_DEAD''), (113, ''INTERNAL''),
     (115, ''UNATTACHED_THREAD''), (500, ''INVALID_TAG''),
     (502, ''ALREADY_INVOKING''), (503, ''INVALID_INDEX''),
     (504, ''INVALID_LENGTH''), (506, ''INVALID_STRING''),
     (507, ''INVALID_CLASS_LOADER''), (508, ''INVALID_ARRAY''),
     (509, ''TRANSPORT_LOAD''), (510, ''TRANSPORT_INIT''),
     (511, ''NATIVE_METHOD''), (512, ''INVALID_COUNT'')]"

definition error_message :: "reply_packet \<Rightarrow> string" where
  "error_message r =
     (case map_of error_names (unat (error_code r)) of Some m \<Rightarrow> m | None \<Rightarrow> ''UNKNOWN_ERROR'')"

definition check_error :: "reply_packet \<Rightarrow> unit jdwp_result" where
  "check_error r =
     (if is_error r then Inl (JdwpErrorCode (error_code r) (error_message r)) else Inr ())"

section \<open>Modified UTF-8 against UTF-8\<close>

lemma or_offset: "n < 2 ^ k \<Longrightarrow> (2 ^ k * m) OR n = 2 ^ k * m + (n :: nat)"
proof -
  assume "n < 2 ^ k"
  then have n: "take_bit k n = n"
    by (simp add: take_bit_nat_eq_self)
  have "push_bit k m AND take_bit k n = 0"
    by (rule bit_eqI) (simp add: bit_simps)
  then have "push_bit k m + take_bit k n = push_bit k m OR take_bit k n"
    by (rule disjunctive_add_eq_or)
  with n show ?thesis
    by (simp add: push_bit_eq_mult mult.commute)
qed

lemma unat_and_63: "unat (w AND 0x3F :: u32) = unat w mod 64"
proof -
  have "w AND 0x3F = take_bit 6 w"
    by (simp add: take_bit_eq_mask mask_eq_exp_minus_1)
  then show ?thesis
    by (simp add: take_bit_eq_mod unat_mod_distrib)
qed

lemma unat_drop_bit_u32: "unat (drop_bit n w :: u32) = unat w div 2 ^ n"
proof -
  have "unat (drop_bit n w) = drop_bit n (take_bit 32 (unat w))"
    using unsigned_drop_bit_eq [of n w, where ?'a = nat] by simp
  also have "take_bit 32 (unat w) = unat w"
    using unsigned_less [of w, where ?'a = nat] by (simp add: take_bit_nat_eq_self)
  finally show ?thesis
    by (simp only: drop_bit_eq_div)
qed

lemma or_byte:
  assumes "unat (x :: u32) < 2 ^ k" and "2 ^ k * m + 2 ^ k \<le> 256"
  shows "byte_of (2 ^ k * m) OR ucast x = byte_of (2 ^ k * m + unat x)"
proof -
  have "unat x < 256" "2 ^ k * m < 256" "2 ^ k * m + unat x < 256"
    using assms by auto
  moreover have "unat (byte_of (2 ^ k * m) OR ucast x)
      = unat (byte_of (2 ^ k * m)) OR unat (ucast x :: u8)"
    by (simp only: unsigned_or_eq)
  ultimately show ?thesis
    using or_offset [OF assms(1), of m]
    by (simp add: u8_eq_iff unsigned_ucast_eq take_bit_nat_eq_self)
qed

lemma or_c0: "unat (x :: u32) < 32 \<Longrightarrow> 0xC0 OR ucast x = byte_of (0xC0 + unat x)"
  using or_byte [of x 5 6] by (simp add: byte_of_def)
lemma or_80: "unat (x :: u32) < 64 \<Longrightarrow> 0x80 OR ucast x = byte_of (0x80 + unat x)"
  using or_byte [of x 6 2] by (simp add: byte_of_def)
lemma or_e0: "unat (x :: u32) < 16 \<Longrightarrow> 0xE0 OR ucast x = byte_of (0xE0 + unat x)"
  using or_byte [of x 4 14] by (simp add: byte_of_def)

lemma mutf8_char_bmp:
  assumes "c \<noteq> 0" and "c \<le> 0xFFFF"
  shows "mutf8_char c = utf8_char c"
proof -
  have c: "unat c < 0x10000" "unat c \<noteq> 0"
    using assms by (auto simp: word_nat_order unat_eq_zero)
  have "unat c mod 64 < 64" "unat c div 64 mod 64 < 64" by simp_all
  moreover have "unat c < 0x80 \<Longrightarrow> ucast c = byte_of (unat c)"
    by (simp add: u8_eq_iff unsigned_ucast_eq take_bit_nat_eq_self)
  moreover have "unat c < 0x800 \<Longrightarrow> unat c div 64 < 32" "unat c div 4096 < 16"
    using c by auto
  ultimately show ?thesis
    using c assms(1)
    by (simp add: mutf8_char_def utf8_char_def Let_def word_nat_order or_c0 or_80 or_e0
        unat_and_63 unat_drop_bit_u32)
qed

lemma mutf8_char_nul: "mutf8_char 0 = [0xC0, 0x80]"
  by (simp add: mutf8_char_def)

lemma mutf8_char_supp:
  assumes "0xFFFF < c" and "c \<le> 0x10FFFF"
  shows "\<exists>b r. mutf8_char c = 0xED # b # r \<and> 0xA0 \<le> b"
proof -
  define d where "d = c - 0x10000"
  have d: "unat d = unat c - 0x10000"
    using assms by (simp add: d_def word_nat_order unat_sub)
  then have dl: "unat d < 0x100000"
    using assms by (simp add: word_nat_order)
  define h where "h = 0xD800 + drop_bit 10 d"
  have h: "unat h = 0xD800 + unat d div 1024" "unat d div 1024 < 1024"
    using dl by (simp_all add: h_def unat_word_ariths unat_drop_bit_u32)
  have "mutf8_surrogate h = [byte_of (0xE0 + unat h div 4096), byte_of (0x80 + unat h div 64 mod 64),
      byte_of (0x80 + unat h mod 64)]"
    using h by (simp add: mutf8_surrogate_def or_e0 or_80 unat_and_63 unat_drop_bit_u32)
  moreover have "unat h div 4096 = 13"
    using h by (auto intro!: div_nat_eqI)
  moreover have "32 \<le> unat h div 64 mod 64"
  proof -
    define s where "s = unat d div 1024 div 64"
    have s: "s < 16" "unat h div 64 = 13 * 64 + (32 + s)"
      using h by (auto simp: s_def div_add1_eq [of 55296])
    have "(13 * 64 + (32 + s)) mod 64 = 32 + s"
      by (rule radix_mod) (use s in simp)
    with s(2) show ?thesis by simp
  qed
  moreover have "mutf8_char c = mutf8_surrogate h @ mutf8_surrogate (0xDC00 + (d AND 0x3FF))"
    using assms by (auto simp: mutf8_char_def h_def d_def Let_def word_nat_order)
  ultimately have "\<exists>r. mutf8_char c = byte_of 0xED # byte_of (0x80 + unat h div 64 mod 64) # r"
    and "0xA0 \<le> byte_of (0x80 + unat h div 64 mod 64)"
    by (simp_all add: word_nat_order)
  then show ?thesis
    by (auto simp: byte_of_def)
qed

definition bmp_char :: "u32 \<Rightarrow> bool" where
  "bmp_char c \<longleftrightarrow> c \<noteq> 0 \<and> c \<le> 0xFFFF"

lemma mutf8_bmp: "valid_str s \<Longrightarrow> \<forall>c \<in> set (chars s). bmp_char c \<Longrightarrow> mutf8 s = bytes_of_str s"
  using valid_str_chars [of s]
  by (auto simp: mutf8_def utf8_chars_def bmp_char_def mutf8_char_bmp intro!: arg_cong [where f = concat])

lemma mutf8_char_rejected:
  assumes "is_scalar c" and "\<not> bmp_char c"
  shows "\<exists>el. utf8_next (mutf8_char c @ r) = Inl el"
proof (cases "c = 0")
  case True
  then show ?thesis
    by (simp add: mutf8_char_nul)
next
  case False
  with assms have "0xFFFF < c" "c \<le> 0x10FFFF"
    by (auto simp: bmp_char_def is_scalar_def word_nat_order)
  then obtain b t where "mutf8_char c = 0xED # b # t" "0xA0 \<le> b"
    using mutf8_char_supp by blast
  then show ?thesis
    by (auto simp: second_of_3_def word_nat_order)
qed

lemma mutf8_char_nonempty [simp]: "mutf8_char c \<noteq> []"
  by (simp add: mutf8_char_def mutf8_surrogate_def Let_def)

lemma utf8_scan_mutf8:
  "\<forall>c \<in> set cs. is_scalar c \<Longrightarrow> \<exists>c \<in> set cs. \<not> bmp_char c \<Longrightarrow>
     \<exists>e. utf8_scan i (concat (map mutf8_char cs)) = Inl e"
proof (induction cs arbitrary: i)
  case Nil
  then show ?case by simp
next
  case (Cons c cs)
  let ?bs = "mutf8_char c @ concat (map mutf8_char cs)"
  show ?case
  proof (cases "bmp_char c")
    case False
    with Cons.prems mutf8_char_rejected obtain el where "utf8_next ?bs = Inl el"
      by fastforce
    then show ?thesis
      by (simp add: utf8_scan.simps [of i ?bs])
  next
    case True
    with Cons.prems have "utf8_next ?bs = Inr (c, concat (map mutf8_char cs))"
      by (simp add: bmp_char_def mutf8_char_bmp utf8_char_next)
    moreover from True Cons.prems
    obtain e where "utf8_scan (i + length (mutf8_char c)) (concat (map mutf8_char cs)) = Inl e"
      using Cons.IH by fastforce
    ultimately show ?thesis
      by (simp add: utf8_scan.simps [of i ?bs])
  qed
qed

lemma from_utf8_mutf8:
  assumes "valid_str s"
  shows "(\<forall>c \<in> set (chars s). bmp_char c) \<Longrightarrow> from_utf8 (mutf8 s) = Inr s"
    and "\<not> (\<forall>c \<in> set (chars s). bmp_char c) \<Longrightarrow> \<exists>e. from_utf8 (mutf8 s) = Inl e"
proof -
  assume "\<forall>c \<in> set (chars s). bmp_char c"
  then show "from_utf8 (mutf8 s) = Inr s"
    using assms mutf8_bmp [OF assms] by (simp add: valid_str_def)
next
  assume "\<not> (\<forall>c \<in> set (chars s). bmp_char c)"
  then have "\<exists>e. utf8_scan 0 (mutf8 s) = Inl e"
    unfolding mutf8_def using valid_str_chars [OF assms] by (intro utf8_scan_mutf8) auto
  then show "\<exists>e. from_utf8 (mutf8 s) = Inl e"
    by (auto simp: from_utf8_def)
qed

section \<open>Packets\<close>

text \<open>The layout of a reply on the wire, as the header comment of \<open>protocol.rs\<close> gives it.\<close>

definition reply_wire :: "reply_packet \<Rightarrow> bytes" where
  "reply_wire r = put_u32 (word_of_nat (HEADER_SIZE + length (reply_data r))) @ put_u32 (reply_id r)
     @ put_u8 REPLY_FLAG @ put_u16 (error_code r) @ reply_data r"

lemma length_reply_wire [layout_simps]: "length (reply_wire r) = HEADER_SIZE + length (reply_data r)"
  by (simp add: reply_wire_def HEADER_SIZE_def)

lemma decode_reply_wire: "decode_reply (reply_wire r) = Inr r"
  by (simp add: decode_reply_def reply_wire_def HEADER_SIZE_def REPLY_FLAG_def nth_append
      put_u8_def drop_append)

lemma check_error_iff: "check_error r = Inr () \<longleftrightarrow> error_code r = 0"
  by (simp add: check_error_def is_error_def)

lemma length_encode_command [layout_simps]:
  "encode_command p = Inr bs \<Longrightarrow> length bs = HEADER_SIZE + length (cmd_data p)"
  by (auto simp: encode_command_def Let_def HEADER_SIZE_def split: if_splits)

end
