(* ===== verification/JdwpTypes.thy ===== *)
theory JdwpTypes
  imports Protocol
begin

text \<open>
  \<open>jdwp-client/src/types.rs\<close>: identifiers, locations, tagged values with their wire form and their
  two renderings. A float is its IEEE bit pattern; the decimal text of a float (Rust's \<open>Display\<close>)
  is a parameter of the renderings, as nothing here depends on its digits.
\<close>

type_synonym object_id = u64
type_synonym thread_id = object_id
type_synonym reference_type_id = u64
type_synonym method_id = u64
type_synonym field_id = u64
type_synonym frame_id = u64

record location =
  type_tag :: u8
  class_id :: reference_type_id
  method_id :: method_id
  loc_index :: u64

datatype thread_status = Zombie | ThreadRunning | Sleeping | MonitorWait | ObjectWait

datatype suspend_status = NotSuspended | Suspended

datatype type_tag =
    TagArray | TagByte | TagChar | TagObject | TagFloat | TagDouble | TagInt | TagLong | TagShort
  | TagVoid | TagBoolean | TagString | TagThread | TagThreadGroup | TagClassLoader | TagClassObject

fun thread_status_code :: "thread_status \<Rightarrow> u32" where
  "thread_status_code Zombie = 0"
| "thread_status_code ThreadRunning = 1"
| "thread_status_code Sleeping = 2"
| "thread_status_code MonitorWait = 3"
| "thread_status_code ObjectWait = 4"

fun suspend_status_code :: "suspend_status \<Rightarrow> u32" where
  "suspend_status_code NotSuspended = 0"
| "suspend_status_code Suspended = 1"

fun tag_code :: "type_tag \<Rightarrow> u8" where
  "tag_code TagArray = 91"
| "tag_code TagByte = 66"
| "tag_code TagChar = 67"
| "tag_code TagObject = 76"
| "tag_code TagFloat = 70"
| "tag_code TagDouble = 68"
| "tag_code TagInt = 73"
| "tag_code TagLong = 74"
| "tag_code TagShort = 83"
| "tag_code TagVoid = 86"
| "tag_code TagBoolean = 90"
| "tag_code TagString = 115"
| "tag_code TagThread = 116"
| "tag_code TagThreadGroup = 103"
| "tag_code TagClassLoader = 108"
| "tag_code TagClassObject = 99"

datatype value_data =
    VByte i8
  | VChar u16
  | VFloat u32
  | VDouble u64
  | VInt i32
  | VLong i64
  | VShort i16
  | VBoolean bool
  | VObject object_id
  | VVoid

record jvalue =
  tag :: u8
  vdata :: value_data

record float_text =
  f32_text :: "u32 \<Rightarrow> string"
  f64_text :: "u64 \<Rightarrow> string"

definition char_text :: "u16 \<Rightarrow> string" where
  "char_text v = (let c = ucast v :: u32 in if is_scalar c then str_of_bytes (utf8_char c) else ''?'')"

definition bool_text :: "bool \<Rightarrow> string" where
  "bool_text b = (if b then ''true'' else ''false'')"

definition quote :: string where
  "quote = [CHR 0x27]"

fun value_format :: "float_text \<Rightarrow> value_data \<Rightarrow> string" where
  "value_format ft (VByte v) = ''(byte) '' @ show_signed v"
| "value_format ft (VChar v) = ''(char) '' @ quote @ char_text v @ quote"
| "value_format ft (VFloat v) = ''(float) '' @ f32_text ft v"
| "value_format ft (VDouble v) = ''(double) '' @ f64_text ft v"
| "value_format ft (VInt v) = ''(int) '' @ show_signed v"
| "value_format ft (VLong v) = ''(long) '' @ show_signed v"
| "value_format ft (VShort v) = ''(short) '' @ show_signed v"
| "value_format ft (VBoolean v) = ''(boolean) '' @ bool_text v"
| "value_format ft (VObject i) = (if i = 0 then ''(object) null'' else ''(object) @'' @ show_hex i)"
| "value_format ft VVoid = ''(void)''"

fun format_compact :: "float_text \<Rightarrow> value_data \<Rightarrow> string" where
  "format_compact ft (VByte v) = show_signed v"
| "format_compact ft (VChar v) = quote @ char_text v @ quote"
| "format_compact ft (VFloat v) = f32_text ft v @ ''f''"
| "format_compact ft (VDouble v) = f64_text ft v @ ''d''"
| "format_compact ft (VInt v) = show_signed v"
| "format_compact ft (VLong v) = show_signed v @ ''L''"
| "format_compact ft (VShort v) = show_signed v"
| "format_compact ft (VBoolean v) = bool_text v"
| "format_compact ft (VObject i) = (if i = 0 then ''null'' else ''@'' @ show_hex i)"
| "format_compact ft VVoid = ''void''"

fun write_to :: "value_data \<Rightarrow> bytes \<Rightarrow> bytes" where
  "write_to (VByte v) buf = buf @ put_u8 v"
| "write_to (VChar v) buf = buf @ put_u16 v"
| "write_to (VFloat v) buf = buf @ put_u32 v"
| "write_to (VDouble v) buf = buf @ put_u64 v"
| "write_to (VInt v) buf = buf @ put_u32 v"
| "write_to (VLong v) buf = buf @ put_u64 v"
| "write_to (VShort v) buf = buf @ put_u16 v"
| "write_to (VBoolean v) buf = buf @ put_u8 (if v then 1 else 0)"
| "write_to (VObject i) buf = buf @ put_u64 i"
| "write_to VVoid buf = buf"

record variable =
  code_index :: u64
  var_name :: string
  var_signature :: string
  var_length :: u32
  var_slot :: u32

section \<open>Tags and values\<close>

lemma tag_code_inj: "tag_code s = tag_code t \<longleftrightarrow> s = t"
  by (cases s; cases t) simp_all

definition object_tags :: "u8 list" where
  "object_tags = [76, 115, 116, 103, 108, 99, 91]"

text \<open>Which data a JDWP tag announces.\<close>

fun value_tagged :: "u8 \<Rightarrow> value_data \<Rightarrow> bool" where
  "value_tagged t (VByte _) = (t = 66)"
| "value_tagged t (VChar _) = (t = 67)"
| "value_tagged t (VFloat _) = (t = 70)"
| "value_tagged t (VDouble _) = (t = 68)"
| "value_tagged t (VInt _) = (t = 73)"
| "value_tagged t (VLong _) = (t = 74)"
| "value_tagged t (VShort _) = (t = 83)"
| "value_tagged t (VBoolean _) = (t = 90)"
| "value_tagged t (VObject _) = (t \<in> set object_tags)"
| "value_tagged t VVoid = (t = 86)"

definition primitive_tags :: "u8 list" where
  "primitive_tags = [66, 67, 68, 70, 73, 74, 83, 90, 86]"

definition known_tag :: "u8 \<Rightarrow> bool" where
  "known_tag t \<longleftrightarrow> t \<in> set (primitive_tags @ object_tags)"

lemmas tag_list_defs = known_tag_def primitive_tags_def object_tags_def

lemma write_to_append: "write_to v buf = buf @ write_to v []"
  by (cases v) simp_all

lemma value_tagged_known: "value_tagged t v \<Longrightarrow> known_tag t"
  by (cases v) (auto simp: tag_list_defs)

lemma known_tag_code: "known_tag t \<longleftrightarrow> (\<exists>s. t = tag_code s)"
proof
  assume "known_tag t"
  then show "\<exists>s. t = tag_code s"
    by (auto simp: tag_list_defs intro: tag_code.simps [symmetric])
next
  assume "\<exists>s. t = tag_code s"
  then obtain s where "t = tag_code s" by blast
  then show "known_tag t"
    by (cases s) (simp_all add: tag_list_defs)
qed

end
