(* ===== verification/Reader.thy ===== *)
theory Reader
  imports JdwpTypes
begin

text \<open>
  \<open>jdwp-client/src/reader.rs\<close>: bounds-checked readers off the front of a buffer. Each of them is
  a canonical codec with the writer of its type, except the value reader, which takes any nonzero
  byte for \<open>true\<close>.
\<close>

section \<open>The readers\<close>

definition not_enough :: "string \<Rightarrow> jdwp_error" where
  "not_enough what = Protocol (''Not enough data for '' @ what)"

definition read_string :: "(jdwp_error, string) parser" where
  "read_string buf =
     (if length buf < 4 then Inl (not_enough ''string length'')
      else (let len = unat (from_be32 buf); rest = drop 4 buf
            in if length rest < len
               then Inl (not_enough (''string: expected '' @ show_nat len @ '', got '' @ show_nat (length rest)))
               else (case from_utf8 (take len rest) of
                       Inl e \<Rightarrow> Inl (Protocol (''Invalid UTF-8 in string: '' @ utf8_error_message e))
                     | Inr s \<Rightarrow> Inr (s, drop len rest))))"

definition read_u32 :: "(jdwp_error, u32) parser" where
  "read_u32 buf = (if length buf < 4 then Inl (not_enough ''u32'') else Inr (from_be32 buf, drop 4 buf))"

definition read_i32 :: "(jdwp_error, i32) parser" where
  "read_i32 buf = (if length buf < 4 then Inl (not_enough ''i32'') else Inr (from_be32 buf, drop 4 buf))"

definition read_u8 :: "(jdwp_error, u8) parser" where
  "read_u8 buf = (if length buf < 1 then Inl (not_enough ''u8'') else Inr (buf ! 0, drop 1 buf))"

definition read_u64 :: "(jdwp_error, u64) parser" where
  "read_u64 buf = (if length buf < 8 then Inl (not_enough ''u64'') else Inr (from_be64 buf, drop 8 buf))"

definition read_i8 :: "(jdwp_error, i8) parser" where
  "read_i8 buf = (if length buf < 1 then Inl (not_enough ''i8'') else Inr (buf ! 0, drop 1 buf))"

definition read_u16 :: "(jdwp_error, u16) parser" where
  "read_u16 buf = (if length buf < 2 then Inl (not_enough ''u16'') else Inr (from_be16 buf, drop 2 buf))"

definition read_i16 :: "(jdwp_error, i16) parser" where
  "read_i16 buf = (if length buf < 2 then Inl (not_enough ''i16'') else Inr (from_be16 buf, drop 2 buf))"

definition read_i64 :: "(jdwp_error, i64) parser" where
  "read_i64 buf = (if length buf < 8 then Inl (not_enough ''i64'') else Inr (from_be64 buf, drop 8 buf))"

definition read_f32 :: "(jdwp_error, u32) parser" where
  "read_f32 buf = (if length buf < 4 then Inl (not_enough ''f32'') else Inr (from_be32 buf, drop 4 buf))"

definition read_f64 :: "(jdwp_error, u64) parser" where
  "read_f64 buf = (if length buf < 8 then Inl (not_enough ''f64'') else Inr (from_be64 buf, drop 8 buf))"

definition pmap :: "('a \<Rightarrow> 'b) \<Rightarrow> ('e, 'a) parser \<Rightarrow> ('e, 'b) parser" where
  "pmap f p = pbind p (\<lambda>x. preturn (f x))"

definition read_value_by_tag :: "u8 \<Rightarrow> (jdwp_error, value_data) parser" where
  "read_value_by_tag t =
     (if t = 66 then pmap VByte read_i8
      else if t = 67 then pmap VChar read_u16
      else if t = 68 then pmap VDouble read_f64
      else if t = 70 then pmap VFloat read_f32
      else if t = 73 then pmap VInt read_i32
      else if t = 74 then pmap VLong read_i64
      else if t = 83 then pmap VShort read_i16
      else if t = 90 then pmap (\<lambda>b. VBoolean (b \<noteq> 0)) read_u8
      else if t = 86 then preturn VVoid
      else if t \<in> set object_tags then pmap VObject read_u64
      else pfail (Protocol (''Unknown value tag: '' @ show_unsigned t)))"

section \<open>Each reader undoes its writer and accepts nothing else\<close>

lemmas reader_defs = read_u32_def read_i32_def read_u8_def read_u64_def read_i8_def read_u16_def
  read_i16_def read_i64_def read_f32_def read_f64_def

lemma read_put [simp, wire_simps]:
  "read_u8 (put_u8 a @ r) = Inr (a, r)" "read_i8 (put_u8 a @ r) = Inr (a, r)"
  "read_u16 (put_u16 b @ r) = Inr (b, r)" "read_i16 (put_u16 b @ r) = Inr (b, r)"
  "read_u32 (put_u32 c @ r) = Inr (c, r)" "read_i32 (put_u32 c @ r) = Inr (c, r)"
  "read_f32 (put_u32 c @ r) = Inr (c, r)"
  "read_u64 (put_u64 d @ r) = Inr (d, r)" "read_i64 (put_u64 d @ r) = Inr (d, r)"
  "read_f64 (put_u64 d @ r) = Inr (d, r)"
  by (simp_all add: reader_defs put_u8_def)

lemma read_put_end [simp, wire_simps]:
  "read_u8 (put_u8 a) = Inr (a, [])" "read_i8 (put_u8 a) = Inr (a, [])"
  "read_u16 (put_u16 b) = Inr (b, [])" "read_i16 (put_u16 b) = Inr (b, [])"
  "read_u32 (put_u32 c) = Inr (c, [])" "read_i32 (put_u32 c) = Inr (c, [])"
  "read_f32 (put_u32 c) = Inr (c, [])"
  "read_u64 (put_u64 d) = Inr (d, [])" "read_i64 (put_u64 d) = Inr (d, [])"
  "read_f64 (put_u64 d) = Inr (d, [])"
  using read_put [where r = "[]"] by simp_all

lemma read_word_sound:
  "read_u8 buf = Inr (a, r) \<Longrightarrow> buf = put_u8 a @ r" "read_i8 buf = Inr (a, r) \<Longrightarrow> buf = put_u8 a @ r"
  "read_u16 buf = Inr (b, r) \<Longrightarrow> buf = put_u16 b @ r" "read_i16 buf = Inr (b, r) \<Longrightarrow> buf = put_u16 b @ r"
  "read_u32 buf = Inr (c, r) \<Longrightarrow> buf = put_u32 c @ r" "read_i32 buf = Inr (c, r) \<Longrightarrow> buf = put_u32 c @ r"
  "read_f32 buf = Inr (c, r) \<Longrightarrow> buf = put_u32 c @ r"
  "read_u64 buf = Inr (d, r) \<Longrightarrow> buf = put_u64 d @ r" "read_i64 buf = Inr (d, r) \<Longrightarrow> buf = put_u64 d @ r"
  "read_f64 buf = Inr (d, r) \<Longrightarrow> buf = put_u64 d @ r"
  by (auto simp: reader_defs put_u8_def put_from_be16 put_from_be32 put_from_be64 Cons_nth_drop_Suc
      split: if_splits)

interpretation u8_codec: canonical_codec put_u8 read_u8 "\<lambda>_. True"
  by unfold_locales (auto dest: read_word_sound)

interpretation i8_codec: canonical_codec put_u8 read_i8 "\<lambda>_. True"
  by unfold_locales (auto dest: read_word_sound)

interpretation u16_codec: canonical_codec put_u16 read_u16 "\<lambda>_. True"
  by unfold_locales (auto dest: read_word_sound)

interpretation i16_codec: canonical_codec put_u16 read_i16 "\<lambda>_. True"
  by unfold_locales (auto dest: read_word_sound)

interpretation u32_codec: canonical_codec put_u32 read_u32 "\<lambda>_. True"
  by unfold_locales (auto dest: read_word_sound)

interpretation i32_codec: canonical_codec put_u32 read_i32 "\<lambda>_. True"
  by unfold_locales (auto dest: read_word_sound)

interpretation f32_codec: canonical_codec put_u32 read_f32 "\<lambda>_. True"
  by unfold_locales (auto dest: read_word_sound)

interpretation u64_codec: canonical_codec put_u64 read_u64 "\<lambda>_. True"
  by unfold_locales (auto dest: read_word_sound)

interpretation i64_codec: canonical_codec put_u64 read_i64 "\<lambda>_. True"
  by unfold_locales (auto dest: read_word_sound)

interpretation f64_codec: canonical_codec put_u64 read_f64 "\<lambda>_. True"
  by unfold_locales (auto dest: read_word_sound)

section \<open>Strings\<close>

text \<open>A string in the layout \<open>read_string\<close> expects: its byte count and its UTF-8 bytes.\<close>

definition put_string :: "string \<Rightarrow> bytes" where
  "put_string s = put_u32 (word_of_nat (length s)) @ bytes_of_str s"

definition string_ok :: "string \<Rightarrow> bool" where
  "string_ok s \<longleftrightarrow> valid_str s \<and> length s < 2 ^ 32"

lemma unat_u32_of_nat: "n < 2 ^ 32 \<Longrightarrow> unat (word_of_nat n :: u32) = n"
  by (simp add: unsigned_of_nat take_bit_nat_eq_self)

lemma read_string_put: "string_ok s \<Longrightarrow> read_string (put_string s @ r) = Inr (s, r)"
  by (simp add: read_string_def put_string_def string_ok_def valid_str_def unat_u32_of_nat)

lemma read_string_sound:
  assumes "read_string buf = Inr (s, r)"
  shows "string_ok s \<and> buf = put_string s @ r"
proof -
  let ?len = "unat (from_be32 buf)" and ?rest = "drop 4 buf"
  from assms have len: "4 \<le> length buf" "?len \<le> length ?rest"
    and s: "from_utf8 (take ?len ?rest) = Inr s" and r: "r = drop ?len ?rest"
    by (auto simp: read_string_def Let_def not_less split: if_splits sum.splits)
  from s have sb: "s = str_of_bytes (take ?len ?rest)"
    by (simp add: from_utf8_iff)
  with s len have "valid_str s" "length s = ?len"
    by (simp_all add: valid_str_def)
  moreover have "?len < 2 ^ 32"
    using unsigned_less [of "from_be32 buf", where ?'a = nat] by simp
  moreover have "buf = put_u32 (from_be32 buf) @ take ?len ?rest @ r"
    by (metis put_from_be32 len(1) append_take_drop_id r)
  ultimately show ?thesis
    using sb by (simp add: string_ok_def put_string_def)
qed

interpretation string_codec: canonical_codec put_string read_string string_ok
  by unfold_locales (auto simp: read_string_put dest: read_string_sound)

lemma put_string_ascii: "mutf8 s = bytes_of_str s \<Longrightarrow> write_jdwp_string buf s = buf @ put_string s"
  by (simp add: write_jdwp_string_def put_string_def)

section \<open>Tagged values\<close>

lemma pmap_Inr_iff: "pmap f p buf = Inr (y, r) \<longleftrightarrow> (\<exists>x. p buf = Inr (x, r) \<and> y = f x)"
  by (auto simp: pmap_def pbind_Inr_iff preturn_def)

lemma pmap_pmap [simp]: "pmap f (pmap g p) = pmap (\<lambda>x. f (g x)) p"
  by (rule ext) (simp add: pmap_def pbind_def preturn_def split: sum.split)

lemma pmap_preturn [simp]: "pmap f (preturn x) = preturn (f x)"
  by (simp add: pmap_def pbind_def preturn_def)

lemma byte_reader_map: "byte_reader p \<Longrightarrow> byte_reader (pmap f p)"
  by (simp add: pmap_def byte_reader_bind byte_reader_return)

lemma object_tag_cases: "t \<in> set object_tags \<Longrightarrow> t \<notin> set primitive_tags"
  by (auto simp: tag_list_defs)

lemma read_value_put:
  "value_tagged t v \<Longrightarrow> read_value_by_tag t (write_to v [] @ r) = Inr (v, r)"
  by (cases v)
    (auto simp: read_value_by_tag_def pmap_def parser_defs tag_list_defs split: if_splits)

lemma read_value_tagged: "read_value_by_tag t buf = Inr (v, r) \<Longrightarrow> value_tagged t v"
  by (auto simp: read_value_by_tag_def pmap_Inr_iff preturn_def pfail_def split: if_splits)

lemma byte_reader_value: "byte_reader (read_value_by_tag t)"
  unfolding read_value_by_tag_def
  by (auto intro!: byte_reader_map byte_reader_return byte_reader_fail
      i8_codec.byte_reader_axioms u16_codec.byte_reader_axioms f64_codec.byte_reader_axioms
      f32_codec.byte_reader_axioms i32_codec.byte_reader_axioms i64_codec.byte_reader_axioms
      i16_codec.byte_reader_axioms u8_codec.byte_reader_axioms u64_codec.byte_reader_axioms)

text \<open>The bytes a value of a tag occupies.\<close>

definition tag_width :: "u8 \<Rightarrow> nat" where
  "tag_width t =
     (if t = 86 then 0 else if t \<in> {66, 90} then 1 else if t \<in> {67, 83} then 2
      else if t \<in> {70, 73} then 4 else 8)"

lemma length_write_to: "value_tagged t v \<Longrightarrow> length (write_to v []) = tag_width t"
  by (cases v) (auto simp: tag_width_def object_tags_def)

lemma read_value_width:
  assumes "known_tag t" and "tag_width t \<le> length buf"
  shows "\<exists>v. read_value_by_tag t buf = Inr (v, drop (tag_width t) buf)"
  using assms
  by (auto simp: tag_list_defs tag_width_def read_value_by_tag_def pmap_def parser_defs reader_defs)

lemma read_value_short:
  "known_tag t \<Longrightarrow> length buf < tag_width t \<Longrightarrow> \<exists>e. read_value_by_tag t buf = Inl e"
  by (auto simp: tag_list_defs tag_width_def read_value_by_tag_def pmap_def parser_defs reader_defs
      split: if_splits)

lemma read_value_unknown:
  "\<not> known_tag t \<Longrightarrow>
     read_value_by_tag t buf = Inl (Protocol (''Unknown value tag: '' @ show_unsigned t))"
  by (auto simp: tag_list_defs read_value_by_tag_def pfail_def)

definition value_ok :: "jvalue \<Rightarrow> bool" where
  "value_ok v \<longleftrightarrow> value_tagged (tag v) (vdata v)"

definition put_value :: "jvalue \<Rightarrow> bytes" where
  "put_value v = put_u8 (tag v) @ write_to (vdata v) []"

text \<open>A tag byte followed by the value it announces, as several commands read it.\<close>

definition read_tagged_value :: "(jdwp_error, jvalue) parser" where
  "read_tagged_value =
     pbind read_u8 (\<lambda>t. pbind (read_value_by_tag t) (\<lambda>d. preturn \<lparr>tag = t, vdata = d\<rparr>))"

interpretation value_codec: wire_codec put_value read_tagged_value value_ok
  by unfold_locales
    (simp add: put_value_def read_tagged_value_def value_ok_def pbind_def preturn_def read_value_put)

interpretation value_reader: byte_reader read_tagged_value
  unfolding read_tagged_value_def
  by (intro byte_reader_bind byte_reader_value byte_reader_return u8_codec.byte_reader_axioms)

end
