(* ===== verification/Commands.thy ===== *)
theory Commands
  imports Prelude
begin

text \<open>
  \<open>jdwp-client/src/commands.rs\<close>: the numbers of JDWP command sets, commands, event kinds and
  step modes, one constant per constant of the source, prefixed by its module.
\<close>

section \<open>\<open>command_sets\<close>\<close>

definition CS_VIRTUAL_MACHINE :: u8 where [simp]: "CS_VIRTUAL_MACHINE = 1"
definition CS_REFERENCE_TYPE :: u8 where [simp]: "CS_REFERENCE_TYPE = 2"
definition CS_CLASS_TYPE :: u8 where [simp]: "CS_CLASS_TYPE = 3"
definition CS_METHOD :: u8 where [simp]: "CS_METHOD = 6"
definition CS_OBJECT_REFERENCE :: u8 where [simp]: "CS_OBJECT_REFERENCE = 9"
definition CS_STRING_REFERENCE :: u8 where [simp]: "CS_STRING_REFERENCE = 10"
definition CS_THREAD_REFERENCE :: u8 where [simp]: "CS_THREAD_REFERENCE = 11"
definition CS_THREAD_GROUP_REFERENCE :: u8 where [simp]: "CS_THREAD_GROUP_REFERENCE = 12"
definition CS_ARRAY_REFERENCE :: u8 where [simp]: "CS_ARRAY_REFERENCE = 13"
definition CS_EVENT_REQUEST :: u8 where [simp]: "CS_EVENT_REQUEST = 15"
definition CS_STACK_FRAME :: u8 where [simp]: "CS_STACK_FRAME = 16"

section \<open>\<open>vm_commands\<close>\<close>

definition VM_VERSION :: u8 where [simp]: "VM_VERSION = 1"
definition VM_CLASSES_BY_SIGNATURE :: u8 where [simp]: "VM_CLASSES_BY_SIGNATURE = 2"
definition VM_ALL_CLASSES :: u8 where [simp]: "VM_ALL_CLASSES = 3"
definition VM_ALL_THREADS :: u8 where [simp]: "VM_ALL_THREADS = 4"
definition VM_TOP_LEVEL_THREAD_GROUPS :: u8 where [simp]: "VM_TOP_LEVEL_THREAD_GROUPS = 5"
definition VM_DISPOSE :: u8 where [simp]: "VM_DISPOSE = 6"
definition VM_ID_SIZES :: u8 where [simp]: "VM_ID_SIZES = 7"
definition VM_SUSPEND :: u8 where [simp]: "VM_SUSPEND = 8"
definition VM_RESUME :: u8 where [simp]: "VM_RESUME = 9"
definition VM_EXIT :: u8 where [simp]: "VM_EXIT = 10"
definition VM_CREATE_STRING :: u8 where [simp]: "VM_CREATE_STRING = 11"
definition VM_CAPABILITIES :: u8 where [simp]: "VM_CAPABILITIES = 12"
definition VM_CLASS_PATHS :: u8 where [simp]: "VM_CLASS_PATHS = 13"
definition VM_DISPOSE_OBJECTS :: u8 where [simp]: "VM_DISPOSE_OBJECTS = 14"
definition VM_HOLD_EVENTS :: u8 where [simp]: "VM_HOLD_EVENTS = 15"
definition VM_RELEASE_EVENTS :: u8 where [simp]: "VM_RELEASE_EVENTS = 16"

section \<open>\<open>reference_type_commands\<close>\<close>

definition RT_SIGNATURE :: u8 where [simp]: "RT_SIGNATURE = 1"
definition RT_CLASS_LOADER :: u8 where [simp]: "RT_CLASS_LOADER = 2"
definition RT_MODIFIERS :: u8 where [simp]: "RT_MODIFIERS = 3"
definition RT_FIELDS :: u8 where [simp]: "RT_FIELDS = 4"
definition RT_METHODS :: u8 where [simp]: "RT_METHODS = 5"
definition RT_GET_VALUES :: u8 where [simp]: "RT_GET_VALUES = 6"
definition RT_SOURCE_FILE :: u8 where [simp]: "RT_SOURCE_FILE = 7"
definition RT_NESTED_TYPES :: u8 where [simp]: "RT_NESTED_TYPES = 8"
definition RT_STATUS :: u8 where [simp]: "RT_STATUS = 9"
definition RT_INTERFACES :: u8 where [simp]: "RT_INTERFACES = 10"
definition RT_CLASS_OBJECT :: u8 where [simp]: "RT_CLASS_OBJECT = 11"
definition RT_SOURCE_DEBUG_EXTENSION :: u8 where [simp]: "RT_SOURCE_DEBUG_EXTENSION = 12"
definition RT_SIGNATURE_WITH_GENERIC :: u8 where [simp]: "RT_SIGNATURE_WITH_GENERIC = 13"
definition RT_FIELDS_WITH_GENERIC :: u8 where [simp]: "RT_FIELDS_WITH_GENERIC = 14"
definition RT_METHODS_WITH_GENERIC :: u8 where [simp]: "RT_METHODS_WITH_GENERIC = 15"

section \<open>\<open>method_commands\<close>\<close>

definition MC_LINE_TABLE :: u8 where [simp]: "MC_LINE_TABLE = 1"
definition MC_VARIABLE_TABLE :: u8 where [simp]: "MC_VARIABLE_TABLE = 2"
definition MC_BYTECODES :: u8 where [simp]: "MC_BYTECODES = 3"
definition MC_IS_OBSOLETE :: u8 where [simp]: "MC_IS_OBSOLETE = 4"
definition MC_VARIABLE_TABLE_WITH_GENERIC :: u8 where [simp]: "MC_VARIABLE_TABLE_WITH_GENERIC = 5"

section \<open>\<open>thread_commands\<close>\<close>

definition TH_NAME :: u8 where [simp]: "TH_NAME = 1"
definition TH_SUSPEND :: u8 where [simp]: "TH_SUSPEND = 2"
definition TH_RESUME :: u8 where [simp]: "TH_RESUME = 3"
definition TH_STATUS :: u8 where [simp]: "TH_STATUS = 4"
definition TH_THREAD_GROUP :: u8 where [simp]: "TH_THREAD_GROUP = 5"
definition TH_FRAMES :: u8 where [simp]: "TH_FRAMES = 6"
definition TH_FRAME_COUNT :: u8 where [simp]: "TH_FRAME_COUNT = 7"
definition TH_OWNED_MONITORS :: u8 where [simp]: "TH_OWNED_MONITORS = 8"
definition TH_CURRENT_CONTENDED_MONITOR :: u8 where [simp]: "TH_CURRENT_CONTENDED_MONITOR = 9"
definition TH_STOP :: u8 where [simp]: "TH_STOP = 10"
definition TH_INTERRUPT :: u8 where [simp]: "TH_INTERRUPT = 11"
definition TH_SUSPEND_COUNT :: u8 where [simp]: "TH_SUSPEND_COUNT = 12"

section \<open>\<open>event_commands\<close>\<close>

definition EV_SET :: u8 where [simp]: "EV_SET = 1"
definition EV_CLEAR :: u8 where [simp]: "EV_CLEAR = 2"
definition EV_CLEAR_ALL_BREAKPOINTS :: u8 where [simp]: "EV_CLEAR_ALL_BREAKPOINTS = 3"

section \<open>\<open>string_reference_commands\<close>\<close>

definition SR_VALUE :: u8 where [simp]: "SR_VALUE = 1"

section \<open>\<open>object_reference_commands\<close>\<close>

definition OR_REFERENCE_TYPE :: u8 where [simp]: "OR_REFERENCE_TYPE = 1"
definition OR_GET_VALUES :: u8 where [simp]: "OR_GET_VALUES = 2"
definition OR_SET_VALUES :: u8 where [simp]: "OR_SET_VALUES = 3"
definition OR_MONITOR_INFO :: u8 where [simp]: "OR_MONITOR_INFO = 5"
definition OR_INVOKE_METHOD :: u8 where [simp]: "OR_INVOKE_METHOD = 6"
definition OR_DISABLE_COLLECTION :: u8 where [simp]: "OR_DISABLE_COLLECTION = 7"
definition OR_ENABLE_COLLECTION :: u8 where [simp]: "OR_ENABLE_COLLECTION = 8"
definition OR_IS_COLLECTED :: u8 where [simp]: "OR_IS_COLLECTED = 9"

section \<open>\<open>array_reference_commands\<close>\<close>

definition AR_LENGTH :: u8 where [simp]: "AR_LENGTH = 1"
definition AR_GET_VALUES :: u8 where [simp]: "AR_GET_VALUES = 2"

section \<open>\<open>stack_frame_commands\<close>\<close>

definition SF_GET_VALUES :: u8 where [simp]: "SF_GET_VALUES = 1"
definition SF_SET_VALUES :: u8 where [simp]: "SF_SET_VALUES = 2"
definition SF_THIS_OBJECT :: u8 where [simp]: "SF_THIS_OBJECT = 3"
definition SF_POP_FRAMES :: u8 where [simp]: "SF_POP_FRAMES = 4"

section \<open>\<open>event_kinds\<close>\<close>

definition EK_SINGLE_STEP :: u8 where [simp]: "EK_SINGLE_STEP = 1"
definition EK_BREAKPOINT :: u8 where [simp]: "EK_BREAKPOINT = 2"
definition EK_FRAME_POP :: u8 where [simp]: "EK_FRAME_POP = 3"
definition EK_EXCEPTION :: u8 where [simp]: "EK_EXCEPTION = 4"
definition EK_USER_DEFINED :: u8 where [simp]: "EK_USER_DEFINED = 5"
definition EK_THREAD_START :: u8 where [simp]: "EK_THREAD_START = 6"
definition EK_THREAD_DEATH :: u8 where [simp]: "EK_THREAD_DEATH = 7"
definition EK_CLASS_PREPARE :: u8 where [simp]: "EK_CLASS_PREPARE = 8"
definition EK_CLASS_UNLOAD :: u8 where [simp]: "EK_CLASS_UNLOAD = 9"
definition EK_CLASS_LOAD :: u8 where [simp]: "EK_CLASS_LOAD = 10"
definition EK_FIELD_ACCESS :: u8 where [simp]: "EK_FIELD_ACCESS = 20"
definition EK_FIELD_MODIFICATION :: u8 where [simp]: "EK_FIELD_MODIFICATION = 21"
definition EK_EXCEPTION_CATCH :: u8 where [simp]: "EK_EXCEPTION_CATCH = 30"
definition EK_METHOD_ENTRY :: u8 where [simp]: "EK_METHOD_ENTRY = 40"
definition EK_METHOD_EXIT :: u8 where [simp]: "EK_METHOD_EXIT = 41"
definition EK_METHOD_EXIT_WITH_RETURN_VALUE :: u8 where [simp]: "EK_METHOD_EXIT_WITH_RETURN_VALUE = 42"
definition EK_MONITOR_CONTENDED_ENTER :: u8 where [simp]: "EK_MONITOR_CONTENDED_ENTER = 43"
definition EK_MONITOR_CONTENDED_ENTERED :: u8 where [simp]: "EK_MONITOR_CONTENDED_ENTERED = 44"
definition EK_MONITOR_WAIT :: u8 where [simp]: "EK_MONITOR_WAIT = 45"
definition EK_MONITOR_WAITED :: u8 where [simp]: "EK_MONITOR_WAITED = 46"
definition EK_VM_START :: u8 where [simp]: "EK_VM_START = 90"
definition EK_VM_DEATH :: u8 where [simp]: "EK_VM_DEATH = 99"

section \<open>\<open>step_sizes\<close>\<close>

definition SS_MIN :: i32 where [simp]: "SS_MIN = 0"
definition SS_LINE :: i32 where [simp]: "SS_LINE = 1"

section \<open>\<open>step_depths\<close>\<close>

definition SD_INTO :: i32 where [simp]: "SD_INTO = 0"
definition SD_OVER :: i32 where [simp]: "SD_OVER = 1"
definition SD_OUT :: i32 where [simp]: "SD_OUT = 2"

end
