(* ===== verification/Events.thy ===== *)
theory Events
  imports Reader Commands
begin

text \<open>
  \<open>jdwp-client/src/events.rs\<close>: composite event packets and their parser. An unsupported event kind
  stops the loop and keeps the events read before it (\<open>break\<close>); a short buffer or an unknown
  value tag fails the whole packet.
\<close>

datatype event_kind =
    VMStart thread_id
  | VMDeath
  | ThreadStart thread_id
  | ThreadDeath thread_id
  | ClassPrepare thread_id reference_type_id string i32
  | Breakpoint thread_id location
  | Step thread_id location
  | Exception thread_id location object_id "location option"
  | MethodEntry thread_id location
  | MethodExit thread_id location
  | FieldAccess thread_id location reference_type_id field_id object_id
  | FieldModification thread_id location reference_type_id field_id object_id string
  | UnknownEvent u8

record event =
  kind :: u8
  request_id :: i32
  details :: event_kind

record event_set =
  suspend_policy :: u8
  events :: "event list"

datatype event_modifier =
    Count i32
  | ThreadOnly thread_id
  | ClassOnly reference_type_id
  | ClassMatch string
  | ClassExclude string
  | LocationOnly location
  | ExceptionOnly reference_type_id bool bool
  | FieldOnly reference_type_id field_id
  | StepModifier thread_id i32 i32
  | InstanceOnly object_id

definition read_location :: "(jdwp_error, location) parser" where
  "read_location =
     pbind read_u8 (\<lambda>t. pbind read_u64 (\<lambda>c. pbind read_u64 (\<lambda>m. pbind read_u64 (\<lambda>i.
       preturn \<lparr>type_tag = t, class_id = c, method_id = m, loc_index = i\<rparr>))))"

definition skip_and_format_value :: "float_text \<Rightarrow> u8 \<Rightarrow> (jdwp_error, string) parser" where
  "skip_and_format_value ft t =
     (if t = 66 then pmap show_signed read_i8
      else if t = 67 then pmap (\<lambda>v. quote @ char_text v @ quote) read_u16
      else if t = 68 then pmap (\<lambda>v. f64_text ft v @ ''d'') read_f64
      else if t = 70 then pmap (\<lambda>v. f32_text ft v @ ''f'') read_f32
      else if t = 73 then pmap show_signed read_i32
      else if t = 74 then pmap (\<lambda>v. show_signed v @ ''L'') read_i64
      else if t = 83 then pmap show_signed read_i16
      else if t = 90 then pmap (\<lambda>b. if b \<noteq> 0 then ''true'' else ''false'') read_u8
      else if t = 86 then preturn ''void''
      else if t \<in> set object_tags then
        pmap (\<lambda>oid. if oid = 0 then ''null'' else ''@'' @ show_hex oid) read_u64
      else preturn (''?tag='' @ show_unsigned t))"

text \<open>The extra value of METHOD_EXIT_WITH_RETURN_VALUE, skipped by the width of its tag.\<close>

definition skip_width :: "u8 \<Rightarrow> nat option" where
  "skip_width t =
     (if t = 86 then Some 0
      else if t = 66 \<or> t = 90 then Some 1
      else if t = 67 \<or> t = 83 then Some 2
      else if t = 70 \<or> t = 73 then Some 4
      else if t = 68 \<or> t = 74 then Some 8
      else if t \<in> set object_tags then Some 8
      else None)"

definition skip_return_value :: "(jdwp_error, unit) parser" where
  "skip_return_value = pbind read_u8 (\<lambda>t.
     case skip_width t of
       None \<Rightarrow> pfail (Protocol (''Unknown value tag '' @ show_unsigned t
                              @ '' in METHOD_EXIT_WITH_RETURN_VALUE''))
     | Some n \<Rightarrow> (\<lambda>buf. if 0 < n then
          (if length buf < n
           then Inl (Protocol ''Not enough data for method exit return value'')
           else Inr ((), drop n buf)) else Inr ((), buf)))"

definition thread_and :: "(thread_id \<Rightarrow> (jdwp_error, event_kind) parser) \<Rightarrow> (jdwp_error, event_kind) parser" where
  "thread_and f = pbind read_u64 f"

definition thread_location :: "(thread_id \<Rightarrow> location \<Rightarrow> (jdwp_error, event_kind) parser) \<Rightarrow> (jdwp_error, event_kind) parser" where
  "thread_location f = pbind read_u64 (\<lambda>t. pbind read_location (f t))"

definition catch_option :: "location \<Rightarrow> location option" where
  "catch_option l = (if class_id l = 0 \<and> method_id l = 0 \<and> loc_index l = 0 then None else Some l)"

definition field_event ::
    "(thread_id \<Rightarrow> location \<Rightarrow> u64 \<Rightarrow> u64 \<Rightarrow> u64 \<Rightarrow> (jdwp_error, event_kind) parser) \<Rightarrow> (jdwp_error, event_kind) parser" where
  "field_event f = thread_location (\<lambda>t l. pbind read_u8 (\<lambda>_. pbind read_u64 (\<lambda>fc.
     pbind read_u64 (\<lambda>fi. pbind read_u8 (\<lambda>_. pbind read_u64 (\<lambda>ob. f t l fc fi ob))))))"

text \<open>The arms of the \<open>match kind\<close>; \<open>None\<close> is the catch-all arm that breaks out of the loop.\<close>

definition parse_details :: "float_text \<Rightarrow> u8 \<Rightarrow> (jdwp_error, event_kind) parser option" where
  "parse_details ft k =
     (if k = EK_BREAKPOINT then Some (thread_location (\<lambda>t l. preturn (Breakpoint t l)))
      else if k = EK_SINGLE_STEP then Some (thread_location (\<lambda>t l. preturn (Step t l)))
      else if k = EK_VM_START then Some (thread_and (\<lambda>t. preturn (VMStart t)))
      else if k = EK_VM_DEATH then Some (preturn VMDeath)
      else if k = EK_THREAD_START then Some (thread_and (\<lambda>t. preturn (ThreadStart t)))
      else if k = EK_THREAD_DEATH then Some (thread_and (\<lambda>t. preturn (ThreadDeath t)))
      else if k = EK_CLASS_PREPARE then
        Some (thread_and (\<lambda>t. pbind read_u8 (\<lambda>_. pbind read_u64 (\<lambda>r. pbind read_string (\<lambda>s.
          pbind read_i32 (\<lambda>st. preturn (ClassPrepare t r s st)))))))
      else if k = EK_EXCEPTION then
        Some (thread_location (\<lambda>t l. pbind read_u8 (\<lambda>_. pbind read_u64 (\<lambda>e.
          pbind read_location (\<lambda>c. preturn (Exception t l e (catch_option c)))))))
      else if k = EK_METHOD_ENTRY then Some (thread_location (\<lambda>t l. preturn (MethodEntry t l)))
      else if k = EK_METHOD_EXIT \<or> k = EK_METHOD_EXIT_WITH_RETURN_VALUE then
        Some (thread_location (\<lambda>t l.
          if k = EK_METHOD_EXIT_WITH_RETURN_VALUE
          then pbind skip_return_value (\<lambda>_. preturn (MethodExit t l))
          else preturn (MethodExit t l)))
      else if k = EK_FIELD_ACCESS then
        Some (field_event (\<lambda>t l fc fi ob. preturn (FieldAccess t l fc fi ob)))
      else if k = EK_FIELD_MODIFICATION then
        Some (field_event (\<lambda>t l fc fi ob. pbind read_u8 (\<lambda>vt.
          pbind (skip_and_format_value ft vt) (\<lambda>nv. preturn (FieldModification t l fc fi ob nv)))))
      else None)"

fun parse_events :: "float_text \<Rightarrow> nat \<Rightarrow> (jdwp_error, event list) parser" where
  "parse_events ft 0 = preturn []"
| "parse_events ft (Suc n) = pbind read_u8 (\<lambda>k. pbind read_i32 (\<lambda>rid.
     case parse_details ft k of
       None \<Rightarrow> preturn []
     | Some p \<Rightarrow> pbind p (\<lambda>d. pbind (parse_events ft n) (\<lambda>es.
         preturn (\<lparr>kind = k, request_id = rid, details = d\<rparr> # es)))))"

definition parse_event_packet :: "float_text \<Rightarrow> bytes \<Rightarrow> event_set jdwp_result" where
  "parse_event_packet ft data = prun
     (pbind read_u8 (\<lambda>sp. pbind read_i32 (\<lambda>n. pbind (parse_events ft (loop_count n)) (\<lambda>es.
        preturn \<lparr>suspend_policy = sp, events = es\<rparr>)))) data"

section \<open>What a composite packet means\<close>

text \<open>
  The events as the JDWP specification lays them out, with the tag bytes and the values the
  parser drops. \<open>wire_bytes\<close> is the layout, \<open>wire_event\<close> the event the client should see.
\<close>

datatype wevent =
    WVMStart thread_id
  | WVMDeath
  | WThreadStart thread_id
  | WThreadDeath thread_id
  | WClassPrepare thread_id u8 reference_type_id string i32
  | WBreakpoint thread_id location
  | WStep thread_id location
  | WException thread_id location u8 object_id location
  | WMethodEntry thread_id location
  | WMethodExit thread_id location
  | WMethodExitValue thread_id location jvalue
  | WFieldAccess thread_id location u8 reference_type_id field_id u8 object_id
  | WFieldModification thread_id location u8 reference_type_id field_id u8 object_id jvalue

definition put_location :: "location \<Rightarrow> bytes" where
  "put_location l = put_u8 (type_tag l) @ put_u64 (class_id l) @ put_u64 (method_id l) @ put_u64 (loc_index l)"

definition put_field :: "thread_id \<Rightarrow> location \<Rightarrow> u8 \<Rightarrow> u64 \<Rightarrow> u64 \<Rightarrow> u8 \<Rightarrow> u64 \<Rightarrow> bytes" where
  "put_field t l ft fc fi ot ob =
     put_u64 t @ put_location l @ put_u8 ft @ put_u64 fc @ put_u64 fi @ put_u8 ot @ put_u64 ob"

fun wire_kind :: "wevent \<Rightarrow> u8" where
  "wire_kind (WVMStart _) = EK_VM_START"
| "wire_kind WVMDeath = EK_VM_DEATH"
| "wire_kind (WThreadStart _) = EK_THREAD_START"
| "wire_kind (WThreadDeath _) = EK_THREAD_DEATH"
| "wire_kind (WClassPrepare _ _ _ _ _) = EK_CLASS_PREPARE"
| "wire_kind (WBreakpoint _ _) = EK_BREAKPOINT"
| "wire_kind (WStep _ _) = EK_SINGLE_STEP"
| "wire_kind (WException _ _ _ _ _) = EK_EXCEPTION"
| "wire_kind (WMethodEntry _ _) = EK_METHOD_ENTRY"
| "wire_kind (WMethodExit _ _) = EK_METHOD_EXIT"
| "wire_kind (WMethodExitValue _ _ _) = EK_METHOD_EXIT_WITH_RETURN_VALUE"
| "wire_kind (WFieldAccess _ _ _ _ _ _ _) = EK_FIELD_ACCESS"
| "wire_kind (WFieldModification _ _ _ _ _ _ _ _) = EK_FIELD_MODIFICATION"

fun wire_body :: "wevent \<Rightarrow> bytes" where
  "wire_body (WVMStart t) = put_u64 t"
| "wire_body WVMDeath = []"
| "wire_body (WThreadStart t) = put_u64 t"
| "wire_body (WThreadDeath t) = put_u64 t"
| "wire_body (WClassPrepare t rt r s st) = put_u64 t @ put_u8 rt @ put_u64 r @ put_string s @ put_u32 st"
| "wire_body (WBreakpoint t l) = put_u64 t @ put_location l"
| "wire_body (WStep t l) = put_u64 t @ put_location l"
| "wire_body (WException t l et e c) = put_u64 t @ put_location l @ put_u8 et @ put_u64 e @ put_location c"
| "wire_body (WMethodEntry t l) = put_u64 t @ put_location l"
| "wire_body (WMethodExit t l) = put_u64 t @ put_location l"
| "wire_body (WMethodExitValue t l v) = put_u64 t @ put_location l @ put_value v"
| "wire_body (WFieldAccess t l ft fc fi ot ob) = put_field t l ft fc fi ot ob"
| "wire_body (WFieldModification t l ft fc fi ot ob v) = put_field t l ft fc fi ot ob @ put_value v"

fun wire_details :: "float_text \<Rightarrow> wevent \<Rightarrow> event_kind" where
  "wire_details tx (WVMStart t) = VMStart t"
| "wire_details tx WVMDeath = VMDeath"
| "wire_details tx (WThreadStart t) = ThreadStart t"
| "wire_details tx (WThreadDeath t) = ThreadDeath t"
| "wire_details tx (WClassPrepare t rt r s st) = ClassPrepare t r s st"
| "wire_details tx (WBreakpoint t l) = Breakpoint t l"
| "wire_details tx (WStep t l) = Step t l"
| "wire_details tx (WException t l et e c) =
     Exception t l e (if class_id c = 0 \<and> method_id c = 0 \<and> loc_index c = 0 then None else Some c)"
| "wire_details tx (WMethodEntry t l) = MethodEntry t l"
| "wire_details tx (WMethodExit t l) = MethodExit t l"
| "wire_details tx (WMethodExitValue t l v) = MethodExit t l"
| "wire_details tx (WFieldAccess t l ft fc fi ot ob) = FieldAccess t l fc fi ob"
| "wire_details tx (WFieldModification t l ft fc fi ot ob v) =
     FieldModification t l fc fi ob (format_compact tx (vdata v))"

fun wire_ok :: "wevent \<Rightarrow> bool" where
  "wire_ok (WClassPrepare _ _ _ s _) = string_ok s"
| "wire_ok (WMethodExitValue _ _ v) = value_ok v"
| "wire_ok (WFieldModification _ _ _ _ _ _ _ v) = value_ok v"
| "wire_ok _ = True"

definition wire_bytes :: "i32 \<times> wevent \<Rightarrow> bytes" where
  "wire_bytes = (\<lambda>(rid, w). put_u8 (wire_kind w) @ put_u32 rid @ wire_body w)"

definition wire_event :: "float_text \<Rightarrow> i32 \<times> wevent \<Rightarrow> event" where
  "wire_event tx = (\<lambda>(rid, w). \<lparr>kind = wire_kind w, request_id = rid, details = wire_details tx w\<rparr>)"

definition supported_kind :: "u8 \<Rightarrow> bool" where
  "supported_kind k \<longleftrightarrow> k \<in> {EK_BREAKPOINT, EK_SINGLE_STEP, EK_VM_START, EK_VM_DEATH, EK_THREAD_START,
     EK_THREAD_DEATH, EK_CLASS_PREPARE, EK_EXCEPTION, EK_METHOD_ENTRY, EK_METHOD_EXIT,
     EK_METHOD_EXIT_WITH_RETURN_VALUE, EK_FIELD_ACCESS, EK_FIELD_MODIFICATION}"

section \<open>The pieces of an event\<close>

lemma read_location_put [simp, wire_simps]: "read_location (put_location l @ r) = Inr (l, r)"
  by (simp add: read_location_def put_location_def parser_defs)

lemma read_location_put_end [simp, wire_simps]: "read_location (put_location l) = Inr (l, [])"
  using read_location_put [of l "[]"] by simp

lemma read_location_sound: "read_location buf = Inr (l, r) \<Longrightarrow> buf = put_location l @ r"
  by (auto simp: read_location_def put_location_def pbind_Inr_iff preturn_def dest!: read_word_sound)

interpretation location_codec: canonical_codec put_location read_location "\<lambda>_. True"
  by unfold_locales (auto dest: read_location_sound)

lemma skip_width_known: "skip_width t = (if known_tag t then Some (tag_width t) else None)"
  by (auto simp: skip_width_def tag_width_def tag_list_defs)

lemma skip_return_value_put:
  "value_tagged t d \<Longrightarrow> skip_return_value (put_u8 t @ write_to d [] @ r) = Inr ((), r)"
  using value_tagged_known [of t d] length_write_to [of t d]
  by (auto simp: skip_return_value_def pbind_def skip_width_known)

text \<open>The duplicate formatter of \<open>events.rs\<close> agrees with \<open>Value::format_compact\<close>.\<close>

lemma skip_and_format_known:
  "known_tag t \<Longrightarrow> skip_and_format_value ft t = pmap (format_compact ft) (read_value_by_tag t)"
  by (auto simp: tag_list_defs skip_and_format_value_def read_value_by_tag_def bool_text_def)

lemma skip_and_format_put:
  "value_tagged t v \<Longrightarrow>
     skip_and_format_value ft t (write_to v [] @ r) = Inr (format_compact ft v, r)"
  by (simp add: skip_and_format_known [OF value_tagged_known] pmap_def pbind_def preturn_def
      read_value_put)

lemma read_string_put' [simp, wire_simps]:
  "string_ok s \<Longrightarrow> read_string (put_string s @ r) = Inr (s, r)"
  by (rule read_string_put)

lemma parse_details_wire:
  assumes "wire_ok w"
  shows "\<exists>p. parse_details tx (wire_kind w) = Some p \<and> (\<forall>r. p (wire_body w @ r) = Inr (wire_details tx w, r))"
  using assms
  by (cases w)
    (simp_all add: parse_details_def thread_and_def thread_location_def field_event_def put_field_def
      pbind_def preturn_def catch_option_def skip_return_value_put value_ok_def skip_and_format_put
      put_value_def)

lemma parse_details_None: "parse_details tx k = None \<longleftrightarrow> \<not> supported_kind k"
  by (simp add: parse_details_def supported_kind_def)

lemma wire_bytes_pair: "wire_bytes (rid, w) = put_u8 (wire_kind w) @ put_u32 rid @ wire_body w"
  by (simp add: wire_bytes_def)

lemma wire_event_pair:
  "wire_event tx (rid, w) = \<lparr>kind = wire_kind w, request_id = rid, details = wire_details tx w\<rparr>"
  by (simp add: wire_event_def)

lemma parse_events_wire:
  "\<forall>w \<in> set ws. wire_ok (snd w) \<Longrightarrow>
     parse_events tx (length ws + n) (concat (map wire_bytes ws) @ r) =
       map_ok (\<lambda>(es, rest). (map (wire_event tx) ws @ es, rest)) (parse_events tx n r)"
proof (induction ws)
  case Nil
  then show ?case by (cases "parse_events tx n r") auto
next
  case (Cons w ws)
  obtain rid x where w: "w = (rid, x)" by (cases w)
  with Cons.prems parse_details_wire [of x tx] obtain p where
    p: "parse_details tx (wire_kind x) = Some p" "\<And>r. p (wire_body x @ r) = Inr (wire_details tx x, r)"
    by auto
  from Cons have IH: "parse_events tx (length ws + n) (concat (map wire_bytes ws) @ r) =
      map_ok (\<lambda>(es, rest). (map (wire_event tx) ws @ es, rest)) (parse_events tx n r)"
    by simp
  show ?case
    by (cases "parse_events tx n r")
      (auto simp: w wire_bytes_pair wire_event_pair pbind_def preturn_def p IH)
qed

text \<open>An unsupported kind ends the loop; a supported one cannot.\<close>

lemma parse_events_unsupported:
  "\<not> supported_kind k \<Longrightarrow> parse_events tx (Suc n) (put_u8 k @ put_u32 rid @ r) = Inr ([], r)"
  by (simp add: pbind_def preturn_def parse_details_None [THEN iffD2])

lemma parse_packet_eq:
  "parse_event_packet tx (put_u8 sp @ put_u32 n @ body) =
     map_ok (\<lambda>(es, _). \<lparr>suspend_policy = sp, events = es\<rparr>) (parse_events tx (loop_count n) body)"
  by (cases "parse_events tx (loop_count n) body")
    (auto simp: parse_event_packet_def prun_def pbind_def preturn_def)

lemma parse_events_length: "parse_events tx n buf = Inr (es, r) \<Longrightarrow> length es \<le> n"
  by (induction n arbitrary: buf es r)
    (fastforce simp: pbind_Inr_iff preturn_def split: option.splits)+

end
