(* ===== verification/Connection.thy ===== *)
theory Connection
  imports Events
begin

text \<open>
  \<open>jdwp-client/src/connection.rs\<close>: the handshake, the packet-id counter, and the exchange of one
  command for one reply that every operation of the client performs. What answers a command (the
  event loop and, behind it, the JVM) is a parameter of a connection: \<open>loop_send\<close> takes the
  packet and the state of that other side and returns the outcome and its next state. \<open>EventLoop\<close>
  models the loop itself.
\<close>

section \<open>Connecting\<close>

record tcp_stream =
  incoming :: bytes
  outgoing :: bytes
  write_error :: "io_error option"

datatype connect_outcome = TimedOut | ConnectFailed io_error | Connected tcp_stream

record 'w connection =
  loop_send :: "command_packet \<Rightarrow> 'w \<Rightarrow> reply_packet jdwp_result \<times> 'w"
  id_counter :: u32
  peer :: 'w

definition write_all :: "bytes \<Rightarrow> (tcp_stream, jdwp_error, unit) eff" where
  "write_all bs s = (case write_error s of
     Some e \<Rightarrow> (Inl (Io e), s)
   | None \<Rightarrow> (Inr (), s\<lparr>outgoing := outgoing s @ bs\<rparr>))"

definition read_exact :: "nat \<Rightarrow> (tcp_stream, jdwp_error, bytes) eff" where
  "read_exact n s =
     (if length (incoming s) < n then (Inl (Io UnexpectedEof), s\<lparr>incoming := []\<rparr>)
      else (Inr (take n (incoming s)), s\<lparr>incoming := drop n (incoming s)\<rparr>))"

definition handshake :: "(tcp_stream, jdwp_error, unit) eff" where
  "handshake =
     ebind (write_all JDWP_HANDSHAKE) (\<lambda>_.
     ebind (read_exact (length JDWP_HANDSHAKE)) (\<lambda>buf.
       if buf \<noteq> JDWP_HANDSHAKE then efail InvalidHandshake else ereturn ()))"

text \<open>\<open>tcp_connect\<close> is the operating system, \<open>spawn\<close> starts the event loop on the stream.\<close>

definition connect_with_timeout ::
    "(string \<Rightarrow> u16 \<Rightarrow> u64 \<Rightarrow> connect_outcome)
     \<Rightarrow> (tcp_stream \<Rightarrow> (command_packet \<Rightarrow> 'w \<Rightarrow> reply_packet jdwp_result \<times> 'w) \<times> 'w)
     \<Rightarrow> string \<Rightarrow> u16 \<Rightarrow> u64 \<Rightarrow> 'w connection jdwp_result" where
  "connect_with_timeout tcp_connect spawn host port timeout_ms =
     (case tcp_connect host port timeout_ms of
        TimedOut \<Rightarrow> Inl (Protocol (''Connection to '' @ host @ '':'' @ show_unsigned port
                          @ '' timed out after '' @ show_unsigned timeout_ms @ ''ms''))
      | ConnectFailed e \<Rightarrow> Inl (Io e)
      | Connected stream \<Rightarrow>
          (case handshake stream of
             (Inl e, _) \<Rightarrow> Inl e
           | (Inr _, s) \<Rightarrow>
               (case spawn s of (send, w) \<Rightarrow>
                  Inr \<lparr>loop_send = send, id_counter = 1, peer = w\<rparr>)))"

definition connect ::
    "(string \<Rightarrow> u16 \<Rightarrow> u64 \<Rightarrow> connect_outcome)
     \<Rightarrow> (tcp_stream \<Rightarrow> (command_packet \<Rightarrow> 'w \<Rightarrow> reply_packet jdwp_result \<times> 'w) \<times> 'w)
     \<Rightarrow> string \<Rightarrow> u16 \<Rightarrow> 'w connection jdwp_result" where
  "connect tcp_connect spawn host port = connect_with_timeout tcp_connect spawn host port 5000"

section \<open>Commands and replies\<close>

definition next_id :: "('w connection, jdwp_error, u32) eff" where
  "next_id c = (Inr (id_counter c), c\<lparr>id_counter := id_counter c + 1\<rparr>)"

definition send_command :: "command_packet \<Rightarrow> ('w connection, jdwp_error, reply_packet) eff" where
  "send_command p c = (case loop_send c p (peer c) of (r, w) \<Rightarrow> (r, c\<lparr>peer := w\<rparr>))"

text \<open>
  The common body of the client's operations: take an id, build the packet, send it, leave
  through \<open>check_error()?\<close> on an error reply, and read the result off the reply's data.
\<close>

definition transact :: "u8 \<Rightarrow> u8 \<Rightarrow> bytes \<Rightarrow> (jdwp_error, 'a) parser \<Rightarrow> ('w connection, jdwp_error, 'a) eff" where
  "transact cs cm body p =
     ebind next_id (\<lambda>i.
     ebind (send_command ((new_command i cs cm)\<lparr>cmd_data := body\<rparr>)) (\<lambda>reply.
     ebind (eresult (check_error reply)) (\<lambda>_.
       eresult (prun p (reply_data reply)))))"

text \<open>Counted sequences: \<open>let n = read_i32()?; for _ in 0..n { push(read()?) }\<close>.\<close>

definition read_counted :: "(jdwp_error, 'a) parser \<Rightarrow> (jdwp_error, 'a list) parser" where
  "read_counted p = pbind read_i32 (\<lambda>n. ptimes (loop_count n) p)"

definition put_counted :: "('a \<Rightarrow> bytes) \<Rightarrow> 'a list \<Rightarrow> bytes" where
  "put_counted put xs = put_u32 (word_of_nat (length xs)) @ concat (map put xs)"

lemma read_counted_put:
  assumes "wire_codec put get ok" and "\<forall>x \<in> set xs. ok x" and "length xs < 2 ^ 31"
  shows "read_counted get (put_counted put xs @ r) = Inr (xs, r)"
  using wire_codec.get_put_list [OF assms(1,2), of r] loop_count_of_nat [OF assms(3)]
  by (simp add: read_counted_def put_counted_def pbind_def)

lemma read_counted_negative:
  "sint n < 0 \<Longrightarrow> read_counted get (put_u32 n @ r) = Inr ([], r)"
  by (simp add: read_counted_def pbind_def preturn_def loop_count_neg)

lemma byte_reader_counted: "byte_reader p \<Longrightarrow> byte_reader (read_counted p)"
  unfolding read_counted_def
  by (intro byte_reader_bind byte_reader_times i32_codec.byte_reader_axioms)

section \<open>One exchange\<close>

definition request_packet :: "'w connection \<Rightarrow> u8 \<Rightarrow> u8 \<Rightarrow> bytes \<Rightarrow> command_packet" where
  "request_packet c cs cm body = (new_command (id_counter c) cs cm)\<lparr>cmd_data := body\<rparr>"

definition after_send :: "'w connection \<Rightarrow> 'w \<Rightarrow> 'w connection" where
  "after_send c w = c\<lparr>id_counter := id_counter c + 1, peer := w\<rparr>"

lemma transact_eq:
  assumes "loop_send c (request_packet c cs cm body) (peer c) = (r, w)"
  shows "transact cs cm body p c =
    ((case r of Inl e \<Rightarrow> Inl e
      | Inr reply \<Rightarrow> (case check_error reply of Inl e \<Rightarrow> Inl e | Inr _ \<Rightarrow> prun p (reply_data reply))),
     after_send c w)"
proof -
  have "loop_send c ((new_command (id_counter c) cs cm)\<lparr>cmd_data := body\<rparr>) (peer c) = (r, w)"
    using assms by (simp add: request_packet_def)
  then show ?thesis
    by (simp add: transact_def ebind_def next_id_def send_command_def after_send_def eresult_def
        split: sum.split)
qed

lemma transact_ok:
  assumes "loop_send c (request_packet c cs cm body) (peer c) = (Inr reply, w)"
    and "error_code reply = 0" and "prun p (reply_data reply) = Inr x"
  shows "transact cs cm body p c = (Inr x, after_send c w)"
  using assms by (simp add: transact_eq check_error_iff [THEN iffD2])

lemma transact_reads:
  assumes "loop_send c (request_packet c cs cm body) (peer c)
      = (Inr \<lparr>reply_id = i, error_code = 0, reply_data = d\<rparr>, w)"
    and "prun p d = Inr x"
  shows "transact cs cm body p c = (Inr x, after_send c w)"
  by (rule transact_ok [OF assms(1)]) (simp_all add: assms(2))

lemma transact_error_reply:
  assumes "loop_send c (request_packet c cs cm body) (peer c) = (Inr reply, w)"
    and "error_code reply \<noteq> 0"
  shows "transact cs cm body p c
    = (Inl (JdwpErrorCode (error_code reply) (error_message reply)), after_send c w)"
  using assms by (simp add: transact_eq check_error_def is_error_def)

lemma transact_advances: "\<exists>w. snd (transact cs cm body p c) = after_send c w"
proof -
  obtain r w where "loop_send c (request_packet c cs cm body) (peer c) = (r, w)"
    by (cases "loop_send c (request_packet c cs cm body) (peer c)")
  then show ?thesis
    by (auto simp: transact_eq)
qed

end
