(* ===== verification/VmOps.thy ===== *)
theory VmOps
  imports Connection
begin

text \<open>
  The VirtualMachine and ThreadReference operations of the client (\<open>jdwp-client/src/vm.rs\<close> and
  \<open>thread.rs\<close>), with the wire layout of their replies.
\<close>

section \<open>Data\<close>

record vm_version =
  description :: string
  jdwp_major :: i32
  jdwp_minor :: i32
  vm_version :: string
  vm_name :: string

record vm_id_sizes =
  field_id_size :: i32
  method_id_size :: i32
  object_id_size :: i32
  reference_type_id_size :: i32
  frame_id_size :: i32

record class_info =
  ref_type_tag :: u8
  type_id :: reference_type_id
  ci_signature :: string
  status :: i32

record frame =
  fr_id :: frame_id
  fr_location :: location

section \<open>VirtualMachine\<close>

definition read_version :: "(jdwp_error, vm_version) parser" where
  "read_version =
     pbind read_string (\<lambda>d. pbind read_i32 (\<lambda>ma. pbind read_i32 (\<lambda>mi.
     pbind read_string (\<lambda>v. pbind read_string (\<lambda>n.
       preturn \<lparr>description = d, jdwp_major = ma, jdwp_minor = mi, vm_version = v, vm_name = n\<rparr>)))))"

definition get_version :: "('w connection, jdwp_error, vm_version) eff" where
  "get_version = transact CS_VIRTUAL_MACHINE VM_VERSION [] read_version"

definition get_id_sizes :: "('w connection, jdwp_error, vm_id_sizes) eff" where
  "get_id_sizes = transact CS_VIRTUAL_MACHINE VM_ID_SIZES []
     (pbind read_i32 (\<lambda>f. pbind read_i32 (\<lambda>m. pbind read_i32 (\<lambda>ob. pbind read_i32 (\<lambda>r. pbind read_i32 (\<lambda>fr.
        preturn \<lparr>field_id_size = f, method_id_size = m, object_id_size = ob,
                 reference_type_id_size = r, frame_id_size = fr\<rparr>))))))"

definition read_class_by_signature :: "string \<Rightarrow> (jdwp_error, class_info) parser" where
  "read_class_by_signature sig =
     pbind read_u8 (\<lambda>t. pbind read_u64 (\<lambda>i. pbind read_i32 (\<lambda>st.
       preturn \<lparr>ref_type_tag = t, type_id = i, ci_signature = sig, status = st\<rparr>)))"

definition classes_by_signature :: "string \<Rightarrow> ('w connection, jdwp_error, class_info list) eff" where
  "classes_by_signature sig =
     transact CS_VIRTUAL_MACHINE VM_CLASSES_BY_SIGNATURE (write_jdwp_string [] sig)
       (read_counted (read_class_by_signature sig))"

definition read_class_info :: "(jdwp_error, class_info) parser" where
  "read_class_info =
     pbind read_u8 (\<lambda>t. pbind read_u64 (\<lambda>i. pbind read_string (\<lambda>s. pbind read_i32 (\<lambda>st.
       preturn \<lparr>ref_type_tag = t, type_id = i, ci_signature = s, status = st\<rparr>))))"

definition all_classes :: "('w connection, jdwp_error, class_info list) eff" where
  "all_classes = transact CS_VIRTUAL_MACHINE VM_ALL_CLASSES [] (read_counted read_class_info)"

definition create_string :: "string \<Rightarrow> ('w connection, jdwp_error, u64) eff" where
  "create_string value =
     transact CS_VIRTUAL_MACHINE VM_CREATE_STRING (write_jdwp_string [] value) read_u64"

section \<open>Threads\<close>

definition get_thread_name :: "thread_id \<Rightarrow> ('w connection, jdwp_error, string) eff" where
  "get_thread_name t = transact CS_THREAD_REFERENCE TH_NAME (put_u64 t) read_string"

definition read_frame :: "(jdwp_error, frame) parser" where
  "read_frame =
     pbind read_u64 (\<lambda>f. pbind read_u8 (\<lambda>t. pbind read_u64 (\<lambda>c. pbind read_u64 (\<lambda>m. pbind read_u64 (\<lambda>i.
       preturn \<lparr>fr_id = f,
                fr_location = \<lparr>type_tag = t, class_id = c, method_id = m, loc_index = i\<rparr>\<rparr>)))))"

definition get_frames :: "thread_id \<Rightarrow> i32 \<Rightarrow> i32 \<Rightarrow> ('w connection, jdwp_error, frame list) eff" where
  "get_frames t start_frame len =
     transact CS_THREAD_REFERENCE TH_FRAMES (put_u64 t @ put_u32 start_frame @ put_u32 len)
       (read_counted read_frame)"

definition get_all_threads :: "('w connection, jdwp_error, thread_id list) eff" where
  "get_all_threads = transact CS_VIRTUAL_MACHINE VM_ALL_THREADS [] (read_counted read_u64)"

definition suspend_all :: "('w connection, jdwp_error, unit) eff" where
  "suspend_all = transact CS_VIRTUAL_MACHINE VM_SUSPEND [] (preturn ())"

definition resume_all :: "('w connection, jdwp_error, unit) eff" where
  "resume_all = transact CS_VIRTUAL_MACHINE VM_RESUME [] (preturn ())"

section \<open>Layout of the replies\<close>

definition put_version :: "vm_version \<Rightarrow> bytes" where
  "put_version v = put_string (description v) @ put_u32 (jdwp_major v) @ put_u32 (jdwp_minor v)
     @ put_string (vm_version v) @ put_string (vm_name v)"

definition version_ok :: "vm_version \<Rightarrow> bool" where
  "version_ok v \<longleftrightarrow> string_ok (description v) \<and> string_ok (vm_version v) \<and> string_ok (vm_name v)"

definition put_class_info :: "class_info \<Rightarrow> bytes" where
  "put_class_info c = put_u8 (ref_type_tag c) @ put_u64 (type_id c) @ put_string (ci_signature c)
     @ put_u32 (status c)"

definition put_class_match :: "class_info \<Rightarrow> bytes" where
  "put_class_match c = put_u8 (ref_type_tag c) @ put_u64 (type_id c) @ put_u32 (status c)"

definition put_frame :: "frame \<Rightarrow> bytes" where
  "put_frame f = put_u64 (fr_id f) @ put_location (fr_location f)"

interpretation version_codec: wire_codec put_version read_version version_ok
  by unfold_locales (simp add: put_version_def read_version_def version_ok_def parser_defs)

interpretation class_info_codec: wire_codec put_class_info read_class_info "\<lambda>c. string_ok (ci_signature c)"
  by unfold_locales (simp add: put_class_info_def read_class_info_def parser_defs)

interpretation class_match_codec:
  wire_codec put_class_match "read_class_by_signature sig" "\<lambda>c. ci_signature c = sig" for sig
  by unfold_locales (auto simp add: put_class_match_def read_class_by_signature_def parser_defs)

lemma read_frame_put: "read_frame (put_frame f @ r) = Inr (f, r)"
  by (simp add: put_frame_def put_location_def read_frame_def parser_defs)

lemma read_frame_sound: "read_frame buf = Inr (f, r) \<Longrightarrow> buf = put_frame f @ r"
  by (auto simp: put_frame_def put_location_def read_frame_def pbind_Inr_iff preturn_def
      dest!: read_word_sound)

interpretation frame_codec: canonical_codec put_frame read_frame "\<lambda>_. True"
  by unfold_locales (auto simp: read_frame_put dest: read_frame_sound)

lemma read_frames_put: "length fs < 2 ^ 31 \<Longrightarrow> read_counted read_frame (put_counted put_frame fs @ r) = Inr (fs, r)"
  by (rule read_counted_put [OF frame_codec.wire_codec_axioms]) simp_all

lemma read_threads_put: "length ts < 2 ^ 31 \<Longrightarrow> read_counted read_u64 (put_counted put_u64 ts @ r) = Inr (ts, r)"
  by (rule read_counted_put [OF u64_codec.wire_codec_axioms]) simp_all

lemma read_classes_put:
  "length cs < 2 ^ 31 \<Longrightarrow> \<forall>c \<in> set cs. string_ok (ci_signature c) \<Longrightarrow>
     read_counted read_class_info (put_counted put_class_info cs @ r) = Inr (cs, r)"
  by (rule read_counted_put [OF class_info_codec.wire_codec_axioms]) simp_all

end
