(* ===== verification/RefOps.thy ===== *)
theory RefOps
  imports Connection
begin

text \<open>
  The ReferenceType and Method operations of the client (\<open>jdwp-client/src/reftype.rs\<close> and
  \<open>method.rs\<close>), with the wire layout of their replies.
\<close>

section \<open>Data\<close>

record method_info =
  mi_id :: method_id
  mi_name :: string
  mi_signature :: string
  mi_mod_bits :: i32

record field_info =
  fi_id :: field_id
  fi_name :: string
  fi_signature :: string
  fi_mod_bits :: i32

record line_table_entry =
  line_code_index :: u64
  line_number :: i32

record line_table =
  lt_start :: u64
  lt_end :: u64
  lines :: "line_table_entry list"

section \<open>ReferenceType\<close>

definition get_signature :: "reference_type_id \<Rightarrow> ('w connection, jdwp_error, string) eff" where
  "get_signature r = transact CS_REFERENCE_TYPE RT_SIGNATURE (put_u64 r) read_string"

definition read_method_info :: "(jdwp_error, method_info) parser" where
  "read_method_info =
     pbind read_u64 (\<lambda>i. pbind read_string (\<lambda>n. pbind read_string (\<lambda>s. pbind read_i32 (\<lambda>m.
       preturn \<lparr>mi_id = i, mi_name = n, mi_signature = s, mi_mod_bits = m\<rparr>))))"

definition get_methods :: "reference_type_id \<Rightarrow> ('w connection, jdwp_error, method_info list) eff" where
  "get_methods r =
     transact CS_REFERENCE_TYPE RT_METHODS (put_u64 r) (read_counted read_method_info)"

definition read_field_info :: "(jdwp_error, field_info) parser" where
  "read_field_info =
     pbind read_u64 (\<lambda>i. pbind read_string (\<lambda>n. pbind read_string (\<lambda>s. pbind read_i32 (\<lambda>m.
       preturn \<lparr>fi_id = i, fi_name = n, fi_signature = s, fi_mod_bits = m\<rparr>))))"

definition get_fields :: "reference_type_id \<Rightarrow> ('w connection, jdwp_error, field_info list) eff" where
  "get_fields r =
     transact CS_REFERENCE_TYPE RT_FIELDS (put_u64 r) (read_counted read_field_info)"

definition get_interfaces :: "reference_type_id \<Rightarrow> ('w connection, jdwp_error, reference_type_id list) eff" where
  "get_interfaces r =
     transact CS_REFERENCE_TYPE RT_INTERFACES (put_u64 r) (read_counted read_u64)"

section \<open>Method\<close>

definition read_line_entry :: "(jdwp_error, line_table_entry) parser" where
  "read_line_entry =
     pbind read_u64 (\<lambda>c. pbind read_i32 (\<lambda>n. preturn \<lparr>line_code_index = c, line_number = n\<rparr>))"

definition read_line_table :: "(jdwp_error, line_table) parser" where
  "read_line_table =
     pbind read_u64 (\<lambda>s. pbind read_u64 (\<lambda>e. pbind (read_counted read_line_entry) (\<lambda>ls.
       preturn \<lparr>lt_start = s, lt_end = e, lines = ls\<rparr>)))"

definition get_line_table :: "reference_type_id \<Rightarrow> method_id \<Rightarrow> ('w connection, jdwp_error, line_table) eff" where
  "get_line_table r m = transact CS_METHOD MC_LINE_TABLE (put_u64 r @ put_u64 m) read_line_table"

definition read_variable :: "(jdwp_error, variable) parser" where
  "read_variable =
     pbind read_u64 (\<lambda>c. pbind read_string (\<lambda>n. pbind read_string (\<lambda>s. pbind read_u32 (\<lambda>l. pbind read_u32 (\<lambda>sl.
       preturn \<lparr>code_index = c, var_name = n, var_signature = s, var_length = l, var_slot = sl\<rparr>)))))"

definition get_variable_table :: "reference_type_id \<Rightarrow> method_id \<Rightarrow> ('w connection, jdwp_error, variable list) eff" where
  "get_variable_table r m =
     transact CS_METHOD MC_VARIABLE_TABLE (put_u64 r @ put_u64 m)
       (pbind read_i32 (\<lambda>_. read_counted read_variable))"

section \<open>Layout of the replies\<close>

definition put_method_info :: "method_info \<Rightarrow> bytes" where
  "put_method_info m = put_u64 (mi_id m) @ put_string (mi_name m) @ put_string (mi_signature m)
     @ put_u32 (mi_mod_bits m)"

definition method_ok :: "method_info \<Rightarrow> bool" where
  "method_ok m \<longleftrightarrow> string_ok (mi_name m) \<and> string_ok (mi_signature m)"

definition put_field_info :: "field_info \<Rightarrow> bytes" where
  "put_field_info f = put_u64 (fi_id f) @ put_string (fi_name f) @ put_string (fi_signature f)
     @ put_u32 (fi_mod_bits f)"

definition field_ok :: "field_info \<Rightarrow> bool" where
  "field_ok f \<longleftrightarrow> string_ok (fi_name f) \<and> string_ok (fi_signature f)"

definition put_line_entry :: "line_table_entry \<Rightarrow> bytes" where
  "put_line_entry l = put_u64 (line_code_index l) @ put_u32 (line_number l)"

definition put_line_table :: "line_table \<Rightarrow> bytes" where
  "put_line_table t = put_u64 (lt_start t) @ put_u64 (lt_end t) @ put_counted put_line_entry (lines t)"

definition put_variable :: "variable \<Rightarrow> bytes" where
  "put_variable v = put_u64 (code_index v) @ put_string (var_name v) @ put_string (var_signature v)
     @ put_u32 (var_length v) @ put_u32 (var_slot v)"

definition variable_ok :: "variable \<Rightarrow> bool" where
  "variable_ok v \<longleftrightarrow> string_ok (var_name v) \<and> string_ok (var_signature v)"

interpretation method_codec: wire_codec put_method_info read_method_info method_ok
  by unfold_locales (simp add: put_method_info_def read_method_info_def method_ok_def parser_defs)

interpretation field_codec: wire_codec put_field_info read_field_info field_ok
  by unfold_locales (simp add: put_field_info_def read_field_info_def field_ok_def parser_defs)

interpretation line_codec: wire_codec put_line_entry read_line_entry "\<lambda>_. True"
  by unfold_locales (simp add: put_line_entry_def read_line_entry_def parser_defs)

interpretation variable_codec: wire_codec put_variable read_variable variable_ok
  by unfold_locales (simp add: put_variable_def read_variable_def variable_ok_def parser_defs)

lemma read_lines_put:
  "length ls < 2 ^ 31 \<Longrightarrow> read_counted read_line_entry (put_counted put_line_entry ls @ r) = Inr (ls, r)"
  by (rule read_counted_put [OF line_codec.wire_codec_axioms]) simp_all

interpretation line_table_codec: wire_codec put_line_table read_line_table "\<lambda>t. length (lines t) < 2 ^ 31"
  by unfold_locales (simp add: put_line_table_def read_line_table_def pbind_def preturn_def read_lines_put)

lemma read_methods_put:
  "length ms < 2 ^ 31 \<Longrightarrow> \<forall>m \<in> set ms. method_ok m \<Longrightarrow>
     read_counted read_method_info (put_counted put_method_info ms @ r) = Inr (ms, r)"
  by (rule read_counted_put [OF method_codec.wire_codec_axioms]) simp_all

lemma read_fields_put:
  "length fs < 2 ^ 31 \<Longrightarrow> \<forall>f \<in> set fs. field_ok f \<Longrightarrow>
     read_counted read_field_info (put_counted put_field_info fs @ r) = Inr (fs, r)"
  by (rule read_counted_put [OF field_codec.wire_codec_axioms]) simp_all

lemma read_variables_put:
  "length vs < 2 ^ 31 \<Longrightarrow> \<forall>v \<in> set vs. variable_ok v \<Longrightarrow>
     read_counted read_variable (put_counted put_variable vs @ r) = Inr (vs, r)"
  by (rule read_counted_put [OF variable_codec.wire_codec_axioms]) simp_all

end
