(* ===== verification/ObjOps.thy ===== *)
theory ObjOps
  imports Connection
begin

text \<open>
  The ObjectReference, ArrayReference, StringReference and StackFrame operations of the client
  (\<open>jdwp-client/src/object.rs\<close>, \<open>array.rs\<close>, \<open>string.rs\<close> and \<open>stackframe.rs\<close>).
\<close>

section \<open>Objects\<close>

record field_value =
  fv_field :: field_id
  fv_value :: jvalue

definition get_object_reference_type :: "object_id \<Rightarrow> ('w connection, jdwp_error, reference_type_id) eff" where
  "get_object_reference_type ob =
     transact CS_OBJECT_REFERENCE OR_REFERENCE_TYPE (put_u64 ob)
       (pbind read_u8 (\<lambda>_. read_u64))"

definition get_object_values :: "object_id \<Rightarrow> field_id list \<Rightarrow> ('w connection, jdwp_error, jvalue list) eff" where
  "get_object_values ob field_ids =
     transact CS_OBJECT_REFERENCE OR_GET_VALUES
       (put_u64 ob @ put_u32 (word_of_nat (length field_ids)) @ concat (map put_u64 field_ids))
       (read_counted read_tagged_value)"

definition invoke_body ::
    "object_id \<Rightarrow> thread_id \<Rightarrow> reference_type_id \<Rightarrow> method_id \<Rightarrow> jvalue list \<Rightarrow> bool \<Rightarrow> bytes" where
  "invoke_body ob t c m args single =
     (let body = put_u64 ob @ put_u64 t @ put_u64 c @ put_u64 m @ put_u32 (word_of_nat (length args));
          body = fold (\<lambda>arg buf. write_to (vdata arg) (buf @ put_u8 (tag arg))) args body
      in body @ put_u32 (if single then 0x01 else 0x00))"

definition read_invoke_reply :: "(jdwp_error, jvalue \<times> object_id) parser" where
  "read_invoke_reply =
     pbind read_u8 (\<lambda>t. pbind (read_value_by_tag t) (\<lambda>d.
     pbind read_u8 (\<lambda>_. pbind read_u64 (\<lambda>ex. preturn (\<lparr>tag = t, vdata = d\<rparr>, ex)))))"

definition invoke_method ::
    "object_id \<Rightarrow> thread_id \<Rightarrow> reference_type_id \<Rightarrow> method_id \<Rightarrow> jvalue list \<Rightarrow> bool
     \<Rightarrow> ('w connection, jdwp_error, jvalue \<times> object_id) eff" where
  "invoke_method ob t c m args single =
     transact CS_OBJECT_REFERENCE OR_INVOKE_METHOD (invoke_body ob t c m args single) read_invoke_reply"

section \<open>Arrays\<close>

definition get_array_length :: "object_id \<Rightarrow> ('w connection, jdwp_error, i32) eff" where
  "get_array_length a = transact CS_ARRAY_REFERENCE AR_LENGTH (put_u64 a) read_i32"

definition read_element :: "u8 \<Rightarrow> (jdwp_error, jvalue) parser" where
  "read_element t =
     (if t = 66 then pmap (\<lambda>v. \<lparr>tag = t, vdata = VByte v\<rparr>) read_i8
      else if t = 67 then pmap (\<lambda>v. \<lparr>tag = t, vdata = VChar v\<rparr>) read_u16
      else if t = 68 then pmap (\<lambda>v. \<lparr>tag = t, vdata = VDouble v\<rparr>) read_f64
      else if t = 70 then pmap (\<lambda>v. \<lparr>tag = t, vdata = VFloat v\<rparr>) read_f32
      else if t = 73 then pmap (\<lambda>v. \<lparr>tag = t, vdata = VInt v\<rparr>) read_i32
      else if t = 74 then pmap (\<lambda>v. \<lparr>tag = t, vdata = VLong v\<rparr>) read_i64
      else if t = 83 then pmap (\<lambda>v. \<lparr>tag = t, vdata = VShort v\<rparr>) read_i16
      else if t = 90 then pmap (\<lambda>b. \<lparr>tag = t, vdata = VBoolean (b \<noteq> 0)\<rparr>) read_u8
      else if t \<in> set object_tags then
        pbind read_u8 (\<lambda>et. pbind read_u64 (\<lambda>oid. preturn \<lparr>tag = et, vdata = VObject oid\<rparr>))
      else preturn \<lparr>tag = 86, vdata = VVoid\<rparr>)"

definition read_array_region :: "(jdwp_error, jvalue list) parser" where
  "read_array_region = pbind read_u8 (\<lambda>t. read_counted (read_element t))"

definition get_array_values :: "object_id \<Rightarrow> i32 \<Rightarrow> i32 \<Rightarrow> ('w connection, jdwp_error, jvalue list) eff" where
  "get_array_values a first_index len =
     transact CS_ARRAY_REFERENCE AR_GET_VALUES (put_u64 a @ put_u32 first_index @ put_u32 len)
       read_array_region"

section \<open>Strings and frames\<close>

definition get_string_value :: "object_id \<Rightarrow> ('w connection, jdwp_error, string) eff" where
  "get_string_value s = transact CS_STRING_REFERENCE SR_VALUE (put_u64 s) read_string"

record variable_slot =
  slot :: i32
  sig_byte :: u8

definition get_frame_values ::
    "thread_id \<Rightarrow> frame_id \<Rightarrow> variable_slot list \<Rightarrow> ('w connection, jdwp_error, jvalue list) eff" where
  "get_frame_values t f slots =
     transact CS_STACK_FRAME SF_GET_VALUES
       (put_u64 t @ put_u64 f @ put_u32 (word_of_nat (length slots))
        @ concat (map (\<lambda>s. put_u32 (slot s) @ put_u8 (sig_byte s)) slots))
       (read_counted read_tagged_value)"

definition set_frame_body :: "thread_id \<Rightarrow> frame_id \<Rightarrow> (i32 \<times> jvalue) list \<Rightarrow> bytes" where
  "set_frame_body t f slots =
     fold (\<lambda>(s, v) buf. write_to (vdata v) (buf @ put_u32 s @ put_u8 (tag v))) slots
       (put_u64 t @ put_u64 f @ put_u32 (word_of_nat (length slots)))"

definition set_frame_values ::
    "thread_id \<Rightarrow> frame_id \<Rightarrow> (i32 \<times> jvalue) list \<Rightarrow> ('w connection, jdwp_error, unit) eff" where
  "set_frame_values t f slots =
     transact CS_STACK_FRAME SF_SET_VALUES (set_frame_body t f slots) (preturn ())"

section \<open>The requests as the JVM reads them\<close>

text \<open>The JVM's side of the layouts, from the JDWP specification's argument lists.\<close>

definition jvm_invoke_args ::
    "(jdwp_error, object_id \<times> thread_id \<times> reference_type_id \<times> method_id \<times> jvalue list \<times> i32) parser" where
  "jvm_invoke_args =
     pbind read_u64 (\<lambda>ob. pbind read_u64 (\<lambda>t. pbind read_u64 (\<lambda>c. pbind read_u64 (\<lambda>m.
     pbind (read_counted read_tagged_value) (\<lambda>args. pbind read_i32 (\<lambda>opt.
       preturn (ob, t, c, m, args, opt)))))))"

definition read_slot_value :: "(jdwp_error, i32 \<times> jvalue) parser" where
  "read_slot_value = pbind read_i32 (\<lambda>s. pbind read_tagged_value (\<lambda>v. preturn (s, v)))"

definition jvm_set_values_args ::
    "(jdwp_error, thread_id \<times> frame_id \<times> (i32 \<times> jvalue) list) parser" where
  "jvm_set_values_args =
     pbind read_u64 (\<lambda>t. pbind read_u64 (\<lambda>f. pbind (read_counted read_slot_value) (\<lambda>vs.
       preturn (t, f, vs))))"

definition put_slot_value :: "i32 \<times> jvalue \<Rightarrow> bytes" where
  "put_slot_value = (\<lambda>(s, v). put_u32 s @ put_value v)"

interpretation slot_codec: wire_codec put_slot_value read_slot_value "\<lambda>p. value_ok (snd p)"
  by unfold_locales
    (auto simp: put_slot_value_def read_slot_value_def pbind_def preturn_def value_codec.get_put)

lemma fold_write_values:
  "fold (\<lambda>arg buf. write_to (vdata arg) (buf @ put_u8 (tag arg))) args buf
     = buf @ concat (map put_value args)"
  by (induction args arbitrary: buf) (simp_all add: write_to_append [of _ "_ @ _"] put_value_def)

lemma fold_write_slots:
  "fold (\<lambda>(s, v) buf. write_to (vdata v) (buf @ put_u32 s @ put_u8 (tag v))) vs buf
     = buf @ concat (map put_slot_value vs)"
  by (induction vs arbitrary: buf)
    (auto simp: write_to_append [of _ "_ @ _"] put_value_def put_slot_value_def)

lemma invoke_body_eq:
  "invoke_body ob t c m args single = put_u64 ob @ put_u64 t @ put_u64 c @ put_u64 m
     @ put_counted put_value args @ put_u32 (if single then 1 else 0)"
  by (simp add: invoke_body_def fold_write_values put_counted_def)

lemma set_frame_body_eq:
  "set_frame_body t f vs = put_u64 t @ put_u64 f @ put_counted put_slot_value vs"
  by (simp add: set_frame_body_def fold_write_slots put_counted_def)

lemma read_values_put:
  "length vs < 2 ^ 31 \<Longrightarrow> \<forall>v \<in> set vs. value_ok v \<Longrightarrow>
     read_counted read_tagged_value (put_counted put_value vs @ r) = Inr (vs, r)"
  by (rule read_counted_put [OF value_codec.wire_codec_axioms]) simp_all

section \<open>Array regions\<close>

text \<open>
  Elements of a primitive array are untagged values of the array's tag; elements of an object
  array carry their own tag.
\<close>

definition element_ok :: "u8 \<Rightarrow> jvalue \<Rightarrow> bool" where
  "element_ok t v \<longleftrightarrow>
     (if t \<in> set object_tags then (\<exists>i. vdata v = VObject i)
      else t \<noteq> 86 \<and> tag v = t \<and> value_tagged t (vdata v))"

definition put_element :: "u8 \<Rightarrow> jvalue \<Rightarrow> bytes" where
  "put_element t v = (if t \<in> set object_tags then put_u8 (tag v) else []) @ write_to (vdata v) []"

lemma read_element_put:
  assumes "element_ok t v"
  shows "read_element t (put_element t v @ r) = Inr (v, r)"
proof (cases "t \<in> set object_tags")
  case True
  then have "t \<notin> set primitive_tags" by (rule object_tag_cases)
  with True assms show ?thesis
    by (auto simp: element_ok_def put_element_def read_element_def primitive_tags_def pbind_def
        preturn_def)
next
  case False
  with assms have "tag v = t" "value_tagged t (vdata v)" "t \<noteq> 86"
    by (auto simp: element_ok_def)
  with False show ?thesis
    by (cases v; cases "vdata v") (auto simp: put_element_def read_element_def pmap_def pbind_def preturn_def)
qed

interpretation element_codec: wire_codec "put_element t" "read_element t" "element_ok t" for t
  by unfold_locales (rule read_element_put)

lemma read_array_region_put:
  assumes "length vs < 2 ^ 31" and "\<forall>v \<in> set vs. element_ok t v"
  shows "read_array_region (put_u8 t @ put_counted (put_element t) vs @ r) = Inr (vs, r)"
  using read_counted_put [OF element_codec.wire_codec_axioms assms(2,1), of r]
  by (simp add: read_array_region_def pbind_def)

end
