(* ===== verification/EventRequests.thy ===== *)
theory EventRequests
  imports Connection
begin

text \<open>
  \<open>jdwp-client/src/eventrequest.rs\<close>: setting and clearing event requests. Every request carries
  its event kind, its suspend policy and exactly one modifier.
\<close>

datatype suspend_policy_mode = SuspendNone | SuspendEventThread | SuspendAll

fun suspend_code :: "suspend_policy_mode \<Rightarrow> u8" where
  "suspend_code SuspendNone = 0"
| "suspend_code SuspendEventThread = 1"
| "suspend_code SuspendAll = 2"

datatype step_size = StepMin | StepLine

fun step_size_code :: "step_size \<Rightarrow> i32" where
  "step_size_code StepMin = SS_MIN"
| "step_size_code StepLine = SS_LINE"

datatype step_depth = StepInto | StepOver | StepOut

fun step_depth_code :: "step_depth \<Rightarrow> i32" where
  "step_depth_code StepInto = SD_INTO"
| "step_depth_code StepOver = SD_OVER"
| "step_depth_code StepOut = SD_OUT"

definition bool_byte :: "bool \<Rightarrow> u8" where
  "bool_byte b = (if b then 1 else 0)"

definition set_breakpoint_body :: "reference_type_id \<Rightarrow> method_id \<Rightarrow> u64 \<Rightarrow> suspend_policy_mode \<Rightarrow> bytes" where
  "set_breakpoint_body c m ix sp = put_u8 EK_BREAKPOINT @ put_u8 (suspend_code sp) @ put_u32 1
     @ put_u8 7 @ put_u8 1 @ put_u64 c @ put_u64 m @ put_u64 ix"

definition set_breakpoint ::
    "reference_type_id \<Rightarrow> method_id \<Rightarrow> u64 \<Rightarrow> suspend_policy_mode \<Rightarrow> ('w connection, jdwp_error, i32) eff" where
  "set_breakpoint c m ix sp =
     transact CS_EVENT_REQUEST EV_SET (set_breakpoint_body c m ix sp) read_i32"

definition set_step_body :: "thread_id \<Rightarrow> step_size \<Rightarrow> step_depth \<Rightarrow> suspend_policy_mode \<Rightarrow> bytes" where
  "set_step_body t sz d sp = put_u8 EK_SINGLE_STEP @ put_u8 (suspend_code sp) @ put_u32 1
     @ put_u8 10 @ put_u64 t @ put_u32 (step_size_code sz) @ put_u32 (step_depth_code d)"

definition set_step ::
    "thread_id \<Rightarrow> step_size \<Rightarrow> step_depth \<Rightarrow> suspend_policy_mode \<Rightarrow> ('w connection, jdwp_error, i32) eff" where
  "set_step t sz d sp = transact CS_EVENT_REQUEST EV_SET (set_step_body t sz d sp) read_i32"

definition clear_event_request :: "u8 \<Rightarrow> i32 \<Rightarrow> ('w connection, jdwp_error, unit) eff" where
  "clear_event_request k rid =
     transact CS_EVENT_REQUEST EV_CLEAR (put_u8 k @ put_u32 rid) (preturn ())"

definition clear_breakpoint :: "i32 \<Rightarrow> ('w connection, jdwp_error, unit) eff" where
  "clear_breakpoint rid = clear_event_request EK_BREAKPOINT rid"

definition clear_step :: "i32 \<Rightarrow> ('w connection, jdwp_error, unit) eff" where
  "clear_step rid = clear_event_request EK_SINGLE_STEP rid"

definition set_exception_body :: "reference_type_id \<Rightarrow> bool \<Rightarrow> bool \<Rightarrow> suspend_policy_mode \<Rightarrow> bytes" where
  "set_exception_body c caught uncaught sp = put_u8 EK_EXCEPTION @ put_u8 (suspend_code sp)
     @ put_u32 1 @ put_u8 8 @ put_u64 c @ put_u8 (bool_byte caught) @ put_u8 (bool_byte uncaught)"

definition set_exception_breakpoint ::
    "reference_type_id \<Rightarrow> bool \<Rightarrow> bool \<Rightarrow> suspend_policy_mode \<Rightarrow> ('w connection, jdwp_error, i32) eff" where
  "set_exception_breakpoint c caught uncaught sp =
     transact CS_EVENT_REQUEST EV_SET (set_exception_body c caught uncaught sp) read_i32"

definition clear_exception_breakpoint :: "i32 \<Rightarrow> ('w connection, jdwp_error, unit) eff" where
  "clear_exception_breakpoint rid = clear_event_request EK_EXCEPTION rid"

definition set_field_watch_body :: "reference_type_id \<Rightarrow> field_id \<Rightarrow> suspend_policy_mode \<Rightarrow> bytes" where
  "set_field_watch_body c f sp = put_u8 EK_FIELD_MODIFICATION @ put_u8 (suspend_code sp)
     @ put_u32 1 @ put_u8 9 @ put_u64 c @ put_u64 f"

definition set_field_watch ::
    "reference_type_id \<Rightarrow> field_id \<Rightarrow> suspend_policy_mode \<Rightarrow> ('w connection, jdwp_error, i32) eff" where
  "set_field_watch c f sp = transact CS_EVENT_REQUEST EV_SET (set_field_watch_body c f sp) read_i32"

definition clear_field_watch :: "i32 \<Rightarrow> ('w connection, jdwp_error, unit) eff" where
  "clear_field_watch rid = clear_event_request EK_FIELD_MODIFICATION rid"

definition class_match_body :: "u8 \<Rightarrow> string \<Rightarrow> suspend_policy_mode \<Rightarrow> bytes" where
  "class_match_body k pat sp =
     write_jdwp_string (put_u8 k @ put_u8 (suspend_code sp) @ put_u32 1 @ put_u8 5) pat"

definition set_method_entry_trace :: "string \<Rightarrow> suspend_policy_mode \<Rightarrow> ('w connection, jdwp_error, i32) eff" where
  "set_method_entry_trace pat sp =
     transact CS_EVENT_REQUEST EV_SET (class_match_body EK_METHOD_ENTRY pat sp) read_i32"

definition set_method_exit_trace :: "string \<Rightarrow> suspend_policy_mode \<Rightarrow> ('w connection, jdwp_error, i32) eff" where
  "set_method_exit_trace pat sp =
     transact CS_EVENT_REQUEST EV_SET (class_match_body EK_METHOD_EXIT pat sp) read_i32"

definition clear_method_entry_trace :: "i32 \<Rightarrow> ('w connection, jdwp_error, unit) eff" where
  "clear_method_entry_trace rid = clear_event_request EK_METHOD_ENTRY rid"

definition clear_method_exit_trace :: "i32 \<Rightarrow> ('w connection, jdwp_error, unit) eff" where
  "clear_method_exit_trace rid = clear_event_request EK_METHOD_EXIT rid"

definition set_class_prepare :: "string \<Rightarrow> suspend_policy_mode \<Rightarrow> ('w connection, jdwp_error, i32) eff" where
  "set_class_prepare pat sp =
     transact CS_EVENT_REQUEST EV_SET (class_match_body EK_CLASS_PREPARE pat sp) read_i32"

definition clear_class_prepare :: "i32 \<Rightarrow> ('w connection, jdwp_error, unit) eff" where
  "clear_class_prepare rid = clear_event_request EK_CLASS_PREPARE rid"

section \<open>The requests as the JVM reads them\<close>

text \<open>
  The JVM's reader of \<open>EventRequest.Set\<close>, over the modifiers of \<open>events.rs\<close>: kind, suspend
  policy, and a counted list of modifiers with their JDWP kind numbers.
\<close>

definition read_modifier :: "(jdwp_error, event_modifier) parser" where
  "read_modifier = pbind read_u8 (\<lambda>k.
     if k = 1 then pmap Count read_i32
     else if k = 3 then pmap ThreadOnly read_u64
     else if k = 4 then pmap ClassOnly read_u64
     else if k = 5 then pmap ClassMatch read_string
     else if k = 6 then pmap ClassExclude read_string
     else if k = 7 then pmap LocationOnly read_location
     else if k = 8 then pbind read_u64 (\<lambda>r. pbind read_u8 (\<lambda>c. pbind read_u8 (\<lambda>u.
       preturn (ExceptionOnly r (c \<noteq> 0) (u \<noteq> 0)))))
     else if k = 9 then pbind read_u64 (\<lambda>r. pmap (FieldOnly r) read_u64)
     else if k = 10 then pbind read_u64 (\<lambda>t. pbind read_i32 (\<lambda>s. pmap (StepModifier t s) read_i32))
     else if k = 11 then pmap InstanceOnly read_u64
     else pfail (Protocol ''unknown modifier''))"

definition jvm_set_request :: "(jdwp_error, u8 \<times> u8 \<times> event_modifier list) parser" where
  "jvm_set_request = pbind read_u8 (\<lambda>k. pbind read_u8 (\<lambda>sp. pbind (read_counted read_modifier) (\<lambda>ms.
     preturn (k, sp, ms))))"

lemma loop_count_1: "loop_count 1 = 1"
  by (simp add: loop_count_def)

lemma jvm_set_request_one:
  assumes "\<forall>r. read_modifier (m @ r) = Inr (x, r)"
  shows "prun jvm_set_request (put_u8 k @ put_u8 sp @ put_u32 1 @ m) = Inr (k, sp, [x])"
  using assms [rule_format, of "[]"]
  by (simp add: jvm_set_request_def prun_def pbind_def preturn_def read_counted_def loop_count_1)

lemma suspend_code_inj: "suspend_code a = suspend_code b \<longleftrightarrow> a = b"
  by (cases a; cases b) simp_all

end
