(* ===== verification/ServerText.thy ===== *)
theory ServerText
  imports Utf8 "HOL-Library.List_Lexorder" "HOL-Library.Char_ord" "HOL-Library.Product_Lexorder"
begin

text \<open>
  The parts of Rust's string library that the MCP server builds on: trimming, hexadecimal parsing
  (\<open>u64::from_str_radix(_, 16)\<close>), stable sorting by key and removal of adjacent duplicates.
\<close>

section \<open>Trimming\<close>

text \<open>The characters with the Unicode property \<open>White_Space\<close>.\<close>

definition is_whitespace :: "u32 \<Rightarrow> bool" where
  "is_whitespace c \<longleftrightarrow>
     (9 \<le> c \<and> c \<le> 13) \<or> c \<in> {0x20, 0x85, 0xA0, 0x1680, 0x2028, 0x2029, 0x202F, 0x205F, 0x3000}
     \<or> (0x2000 \<le> c \<and> c \<le> 0x200A)"

definition str_of_chars :: "u32 list \<Rightarrow> string" where
  "str_of_chars cs = str_of_bytes (utf8_chars cs)"

definition trim_list :: "('a \<Rightarrow> bool) \<Rightarrow> 'a list \<Rightarrow> 'a list" where
  "trim_list P xs = rev (dropWhile P (rev (dropWhile P xs)))"

definition trim :: "string \<Rightarrow> string" where
  "trim s = str_of_chars (trim_list is_whitespace (chars s))"

text \<open>\<open>trim_matches('"')\<close> and \<open>trim_start_matches("0x")\<close>; the latter removes every repetition.\<close>

definition trim_quotes :: "string \<Rightarrow> string" where
  "trim_quotes s = trim_list (\<lambda>c. c = CHR 0x22) s"

function trim_0x :: "string \<Rightarrow> string" where
  "trim_0x s = (if starts_with s ''0x'' then trim_0x (drop 2 s) else s)"
  by pat_completeness auto

termination trim_0x
  by (relation "measure length") (auto simp: starts_with_iff)

declare trim_0x.simps [simp del]

lemma trim_list_infix: "\<exists>a b. xs = a @ trim_list P xs @ b"
proof -
  have "dropWhile P xs = trim_list P xs @ rev (takeWhile P (rev (dropWhile P xs)))"
    unfolding trim_list_def by (metis rev_append rev_rev_ident takeWhile_dropWhile_id)
  then have "xs = takeWhile P xs @ trim_list P xs @ rev (takeWhile P (rev (dropWhile P xs)))"
    by (metis takeWhile_dropWhile_id)
  then show ?thesis by blast
qed

lemma trim_list_fixed:
  assumes "xs = [] \<or> \<not> P (hd xs) \<and> \<not> P (last xs)"
  shows "trim_list P xs = xs"
proof (cases xs)
  case Nil
  then show ?thesis by (simp add: trim_list_def)
next
  case (Cons x ys)
  with assms have "\<not> P x" "\<not> P (hd (rev xs))"
    by (simp, metis hd_rev list.distinct(1))
  with Cons show ?thesis
    unfolding trim_list_def by (metis dropWhile.simps(2) hd_Cons_tl rev.simps(2) rev_rev_ident snoc_eq_iff_butlast)
qed

lemma trim_list_ends:
  "trim_list P xs \<noteq> [] \<Longrightarrow> \<not> P (hd (trim_list P xs)) \<and> \<not> P (last (trim_list P xs))"
proof -
  assume ne: "trim_list P xs \<noteq> []"
  let ?r = "dropWhile P (rev (dropWhile P xs))"
  have r: "?r \<noteq> []" using ne by (simp add: trim_list_def)
  have "\<not> P (hd ?r)"
    using r by (rule hd_dropWhile)
  then have "\<not> P (last (trim_list P xs))"
    by (metis r last_rev trim_list_def)
  moreover have "hd (trim_list P xs) = hd (dropWhile P xs)"
  proof -
    obtain b where "dropWhile P xs = trim_list P xs @ b"
      unfolding trim_list_def by (metis rev_append rev_rev_ident takeWhile_dropWhile_id)
    with ne show ?thesis by (metis hd_append2)
  qed
  moreover have "dropWhile P xs \<noteq> []"
    using r by (metis dropWhile.simps(1) rev.simps(1))
  ultimately show ?thesis
    using hd_dropWhile by metis
qed

lemma trim_list_idem [simp]: "trim_list P (trim_list P xs) = trim_list P xs"
  using trim_list_ends by (intro trim_list_fixed) blast

section \<open>Hexadecimal numbers\<close>

definition hex_digit :: "char \<Rightarrow> nat option" where
  "hex_digit c = (let n = of_char c in
     if 48 \<le> n \<and> n \<le> 57 then Some (n - 48)
     else if 97 \<le> n \<and> n \<le> 102 then Some (n - 87)
     else if 65 \<le> n \<and> n \<le> 70 then Some (n - 55)
     else None)"

fun hex_digits :: "nat \<Rightarrow> string \<Rightarrow> nat option" where
  "hex_digits acc [] = Some acc"
| "hex_digits acc (c # s) = (case hex_digit c of
     None \<Rightarrow> None
   | Some d \<Rightarrow> (if acc * 16 + d < 2 ^ 64 then hex_digits (acc * 16 + d) s else None))"

definition parse_hex_u64 :: "string \<Rightarrow> u64 option" where
  "parse_hex_u64 s =
     (let ds = (if starts_with s ''+'' then drop 1 s else s)
      in if ds = [] then None else map_option word_of_nat (hex_digits 0 ds))"

lemma hex_digits_append: "hex_digits acc (s @ t) = Option.bind (hex_digits acc s) (\<lambda>a. hex_digits a t)"
  by (induction s arbitrary: acc) (auto split: option.split)

lemma hex_digit_char: "d < 16 \<Longrightarrow> hex_digit (digit_char d) = Some d"
  by (auto simp: hex_digit_def digit_char_def Let_def)

lemma digit_char_inj: "d < 16 \<Longrightarrow> e < 16 \<Longrightarrow> digit_char d = digit_char e \<Longrightarrow> d = e"
  by (metis hex_digit_char option.inject)

lemma hex_digits_show: "n < 2 ^ 64 \<Longrightarrow> hex_digits 0 (show_hex_nat n) = Some n"
proof (induction n rule: show_hex_nat.induct)
  case (1 n)
  show ?case
  proof (cases "n < 16")
    case True
    then show ?thesis
      by (simp add: show_hex_nat.simps [of n] hex_digit_char)
  next
    case False
    then have "n div 16 < 2 ^ 64" using 1(2) by simp
    with False 1 have "hex_digits 0 (show_hex_nat (n div 16)) = Some (n div 16)" by simp
    with False 1(2) show ?thesis
      by (simp add: show_hex_nat.simps [of n] hex_digits_append hex_digit_char)
  qed
qed

lemma show_hex_nat_digits: "c \<in> set (show_hex_nat n) \<Longrightarrow> hex_digit c \<noteq> None"
proof (induction n rule: show_hex_nat.induct)
  case (1 n)
  then show ?case
    by (subst (asm) (2) show_hex_nat.simps) (auto simp: hex_digit_char split: if_splits)
qed

lemma show_hex_nat_no_sign: "\<not> starts_with (show_hex_nat n) ''+''"
proof
  assume "starts_with (show_hex_nat n) ''+''"
  then have "CHR ''+'' \<in> set (show_hex_nat n)"
    by (auto simp: starts_with_iff)
  from show_hex_nat_digits [OF this] show False
    by (simp add: hex_digit_def)
qed

lemma show_hex_nat_no_0x: "\<not> starts_with (show_hex_nat n) ''0x''"
proof
  assume "starts_with (show_hex_nat n) ''0x''"
  then have "CHR ''x'' \<in> set (show_hex_nat n)"
    by (auto simp: starts_with_iff)
  from show_hex_nat_digits [OF this] show False
    by (simp add: hex_digit_def)
qed

lemma parse_hex_show: "parse_hex_u64 (show_hex w) = Some w"
proof -
  have "unat w < 2 ^ 64"
    using unsigned_less [of w, where ?'a = nat] by simp
  then show ?thesis
    using show_hex_nat_no_sign [of "unat w"]
    by (simp add: parse_hex_u64_def show_hex_def Let_def hex_digits_show)
qed

lemma trim_0x_show: "trim_0x (''0x'' @ show_hex w) = show_hex w"
  using show_hex_nat_no_0x [of "unat w"]
  by (subst trim_0x.simps, subst trim_0x.simps) (simp add: starts_with_def show_hex_def)

lemma hex_digits_inj:
  assumes "show_hex_nat m = show_hex_nat n" and "m < 2 ^ 64" and "n < 2 ^ 64"
  shows "m = n"
  using assms hex_digits_show by (metis option.inject)

section \<open>Sorting and removing duplicates\<close>

text \<open>\<open>sort_by_key\<close> is stable, as \<open>sort_key\<close> is; \<open>dedup_by_key\<close> keeps the first of a run.\<close>

fun dedup_by :: "('a \<Rightarrow> 'k) \<Rightarrow> 'a list \<Rightarrow> 'a list" where
  "dedup_by f [] = []"
| "dedup_by f [x] = [x]"
| "dedup_by f (x # y # xs) = (if f x = f y then dedup_by f (x # xs) else x # dedup_by f (y # xs))"

lemma dedup_by_hd: "xs \<noteq> [] \<Longrightarrow> \<exists>ys. dedup_by f xs = hd xs # ys"
  by (induction f xs rule: dedup_by.induct) auto

lemma set_dedup_by: "set (dedup_by f xs) \<subseteq> set xs"
  by (induction f xs rule: dedup_by.induct) auto

lemma dedup_by_keys: "f ` set (dedup_by f xs) = f ` set xs"
  by (induction f xs rule: dedup_by.induct) auto

lemma dedup_by_sorted:
  fixes f :: "'a \<Rightarrow> 'k::linorder"
  shows "sorted (map f xs) \<Longrightarrow> sorted (map f (dedup_by f xs)) \<and> distinct (map f (dedup_by f xs))"
proof (induction f xs rule: dedup_by.induct)
  case (3 f x y xs)
  show ?case
  proof (cases "f x = f y")
    case True
    with 3 show ?thesis by simp
  next
    case False
    with 3 have IH: "sorted (map f (dedup_by f (y # xs)))" "distinct (map f (dedup_by f (y # xs)))"
      by simp_all
    have "f z > f x" if "z \<in> set (dedup_by f (y # xs))" for z
      using that set_dedup_by [of f "y # xs"] 3(3) False by fastforce
    then have "f x \<notin> f ` set (dedup_by f (y # xs))" "\<forall>z \<in> set (dedup_by f (y # xs)). f x \<le> f z"
      by (metis imageE less_irrefl, blast intro: less_imp_le)
    with IH False show ?thesis
      by simp
  qed
qed simp_all

end
