(* ===== verification/Session.thy ===== *)
theory Session
  imports VmOps RefOps ObjOps EventRequests ServerText "HOL-Library.AList"
begin

text \<open>
  \<open>mcp-server/src/session.rs\<close>: what the server keeps about a debug session, and the manager that
  creates, finds and removes sessions. A \<open>HashMap\<close> is an association list with distinct keys, an
  \<open>Arc<Mutex<DebugSession>>\<close> an address into the store of all sessions ever created, so that a
  task still holding the session sees it after its removal from the manager. \<open>Instant\<close>s are
  nanoseconds.
\<close>

section \<open>Sessions\<close>

record breakpoint_info =
  bp_id :: string
  bp_request_id :: i32
  class_pattern :: string
  bp_line :: u32
  bp_method :: "string option"
  enabled :: bool
  hit_count :: u32
  condition :: "string option"

record thread_info =
  ti_id :: string
  ti_name :: string
  ti_status :: string
  ti_suspended :: bool

record step_request_info =
  st_request_id :: i32
  st_thread_id :: u64
  st_depth :: string

record agg_method_stats =
  am_class_id :: u64
  am_method_id :: u64
  call_count :: u64
  total_ms :: u64

datatype trace_outcome = Entry | MethodReturned "string option" | ThrewException string

record trace_call =
  tc_thread :: u64
  tc_class :: u64
  tc_method :: u64
  tc_depth :: u32
  tc_result :: trace_outcome

record trace_state =
  active :: bool
  entry_request_id :: i32
  exit_request_id :: i32
  include_args :: bool
  aggregate :: bool
  calls :: "trace_call list"
  agg_stats :: "((u64 \<times> u64) \<times> agg_method_stats) list"
  entry_times :: "((u64 \<times> u64 \<times> u64 \<times> u32) \<times> nat) list"
  depth_per_thread :: "(u64 \<times> u32) list"
  start_time :: nat
  max_calls :: nat

record 'w debug_session =
  conn :: "'w connection"
  breakpoints :: "(string \<times> breakpoint_info) list"
  threads :: "(string \<times> thread_info) list"
  class_signatures :: "(u64 \<times> string) list"
  active_step :: "step_request_info option"
  selected_thread_id :: "u64 option"
  last_event :: "event_set option"
  last_event_seq :: u64
  event_listener_task :: "nat option"
  trace_state :: "trace_state option"
  vm_dead :: bool
  disconnect_reason :: "string option"

definition new_session :: "'w connection \<Rightarrow> 'w debug_session" where
  "new_session c = \<lparr>conn = c, breakpoints = [], threads = [], class_signatures = [],
     active_step = None, selected_thread_id = None, last_event = None, last_event_seq = 0,
     event_listener_task = None, trace_state = None, vm_dead = False, disconnect_reason = None\<rparr>"

text \<open>\<open>Display\<close> of the client's errors; \<open>read_exact\<close> reports the end of the stream as ``early eof''.\<close>

fun io_text :: "io_error \<Rightarrow> string" where
  "io_text UnexpectedEof = ''early eof''"
| "io_text (OtherIo s) = s"

fun error_text :: "jdwp_error \<Rightarrow> string" where
  "error_text (Io e) = ''IO error: '' @ io_text e"
| "error_text (Protocol s) = ''Protocol error: '' @ s"
| "error_text InvalidHandshake = ''Invalid handshake''"
| "error_text (JdwpErrorCode c s) = ''JDWP error code '' @ show_unsigned c @ '': '' @ s"
| "error_text ConnectionClosed = ''Connection closed''"

text \<open>
  A client operation on the session's connection: as \<open>on_conn\<close> with the client's error, as
  \<open>on_conn_err what\<close> with \<open>map_err(|e| format!("what: {}", e))\<close>.
\<close>

definition on_conn :: "('w connection, jdwp_error, 'a) eff \<Rightarrow> ('w debug_session, jdwp_error, 'a) eff" where
  "on_conn m s = (case m (conn s) of (r, c) \<Rightarrow> (r, s\<lparr>conn := c\<rparr>))"

definition on_conn_err ::
    "string \<Rightarrow> ('w connection, jdwp_error, 'a) eff \<Rightarrow> ('w debug_session, string, 'a) eff" where
  "on_conn_err what m s =
     (case m (conn s) of (r, c) \<Rightarrow> (map_err (\<lambda>e. what @ '': '' @ error_text e) r, s\<lparr>conn := c\<rparr>))"

text \<open>
  A client operation whose error makes the handler return \<open>r\<close> (\<open>Err(_) => return ..\<close>), and one
  whose error is passed over (\<open>if let Ok(x) = ..\<close>).
\<close>

definition on_conn_or :: "'r \<Rightarrow> ('w connection, jdwp_error, 'a) eff \<Rightarrow> ('w debug_session, 'r, 'a) eff" where
  "on_conn_or r m s = (case m (conn s) of (x, c) \<Rightarrow> (map_err (\<lambda>_. r) x, s\<lparr>conn := c\<rparr>))"

definition ok :: "'e + 'a \<Rightarrow> 'a option" where
  "ok r = (case r of Inl _ \<Rightarrow> None | Inr x \<Rightarrow> Some x)"

definition attempt :: "('w connection, jdwp_error, 'a) eff \<Rightarrow> ('w debug_session, 'r, 'a option) eff" where
  "attempt m s = (case m (conn s) of (x, c) \<Rightarrow> (Inr (ok x), s\<lparr>conn := c\<rparr>))"

lemma on_conn_err_Inr:
  "on_conn_err what m s = (Inr x, s') \<longleftrightarrow> (\<exists>c. m (conn s) = (Inr x, c) \<and> s' = s\<lparr>conn := c\<rparr>)"
  by (auto simp: on_conn_err_def split: prod.splits)

section \<open>The session manager\<close>

record 'w session_manager =
  sessions :: "(string \<times> nat) list"
  current :: "string option"
  store :: "'w debug_session list"
  uuid_counter :: u64
  aborted :: "nat list"

definition new_manager :: "'w session_manager" where
  "new_manager = \<lparr>sessions = [], current = None, store = [], uuid_counter = 1, aborted = []\<rparr>"

text \<open>\<open>uuid::v4\<close>: the milliseconds since the epoch and a counter, in hexadecimal.\<close>

definition uuid_v4 :: "nat \<Rightarrow> u64 \<Rightarrow> string" where
  "uuid_v4 timestamp counter = show_hex_nat timestamp @ show_hex counter"

definition create_session :: "nat \<Rightarrow> 'w connection \<Rightarrow> 'w session_manager \<Rightarrow> string \<times> 'w session_manager" where
  "create_session timestamp c m =
     (let session_id = ''session_'' @ uuid_v4 timestamp (uuid_counter m)
      in (session_id,
          m\<lparr>sessions := AList.update session_id (length (store m)) (sessions m),
            current := Some session_id,
            store := store m @ [new_session c],
            uuid_counter := uuid_counter m + 1\<rparr>))"

definition get_current_session :: "'w session_manager \<Rightarrow> nat option" where
  "get_current_session m = Option.bind (current m) (map_of (sessions m))"

definition get_current_session_id :: "'w session_manager \<Rightarrow> string option" where
  "get_current_session_id m = current m"

definition abort_listener :: "nat \<Rightarrow> 'w session_manager \<Rightarrow> 'w session_manager" where
  "abort_listener a m = (case event_listener_task (store m ! a) of
      None \<Rightarrow> m
    | Some task \<Rightarrow> m\<lparr>store := (store m)[a := (store m ! a)\<lparr>event_listener_task := None\<rparr>],
                     aborted := aborted m @ [task]\<rparr>)"

definition remove_session :: "string \<Rightarrow> 'w session_manager \<Rightarrow> 'w session_manager" where
  "remove_session sid m =
     (let arc = map_of (sessions m) sid;
          m = m\<lparr>sessions := AList.delete sid (sessions m)\<rparr>;
          m = (if current m = Some sid then m\<lparr>current := None\<rparr> else m)
      in case arc of None \<Rightarrow> m | Some a \<Rightarrow> abort_listener a m)"

text \<open>
  Locking the current session and running a handler's body on it; the error text without a session
  differs between handlers.
\<close>

definition with_session_or ::
    "string \<Rightarrow> ('w debug_session, string, 'a) eff \<Rightarrow> ('w session_manager, string, 'a) eff" where
  "with_session_or none body m = (case get_current_session m of
      None \<Rightarrow> (Inl none, m)
    | Some a \<Rightarrow> (case body (store m ! a) of (r, s) \<Rightarrow> (r, m\<lparr>store := (store m)[a := s]\<rparr>)))"

definition with_session ::
    "('w debug_session, string, 'a) eff \<Rightarrow> ('w session_manager, string, 'a) eff" where
  "with_session = with_session_or ''No active debug session''"

lemmas with_session_defs = with_session_def with_session_or_def

section \<open>What the manager keeps\<close>

definition manager_inv :: "'w session_manager \<Rightarrow> bool" where
  "manager_inv m \<longleftrightarrow> distinct (map fst (sessions m))
     \<and> (\<forall>(i, a) \<in> set (sessions m). a < length (store m))
     \<and> (case current m of None \<Rightarrow> True | Some i \<Rightarrow> map_of (sessions m) i \<noteq> None)"

lemma manager_inv_new: "manager_inv new_manager"
  by (simp add: manager_inv_def new_manager_def)

lemma set_alist_update: "set (AList.update k v al) \<subseteq> insert (k, v) (set al)"
  by (induction al) auto

lemma manager_inv_create: "manager_inv m \<Longrightarrow> manager_inv (snd (create_session ts c m))"
  using set_alist_update
  by (fastforce simp: manager_inv_def create_session_def Let_def AList.distinct_update
      AList.update_conv' split: option.splits)

lemma abort_listener_fields [simp]:
  "sessions (abort_listener a m) = sessions m" "current (abort_listener a m) = current m"
  "length (store (abort_listener a m)) = length (store m)"
  by (simp_all add: abort_listener_def split: option.split)

lemma remove_session_fields:
  "sessions (remove_session sid m) = AList.delete sid (sessions m)"
  "current (remove_session sid m) = (if current m = Some sid then None else current m)"
  "length (store (remove_session sid m)) = length (store m)"
  by (simp_all add: remove_session_def Let_def split: option.split)

lemma manager_inv_remove: "manager_inv m \<Longrightarrow> manager_inv (remove_session sid m)"
  by (auto simp: manager_inv_def remove_session_fields AList.delete_eq distinct_map_filter
      map_of_eq_None_iff split: option.splits)

lemma manager_inv_with: "manager_inv m \<Longrightarrow> manager_inv (snd (with_session body m))"
  by (auto simp: manager_inv_def with_session_defs split: option.splits prod.splits)

lemma current_after_create:
  "get_current_session (snd (create_session ts c m)) = Some (length (store m))
   \<and> get_current_session_id (snd (create_session ts c m)) = Some (fst (create_session ts c m))"
  by (simp add: get_current_session_def get_current_session_id_def create_session_def Let_def
      AList.update_conv')

section \<open>Ids of sessions\<close>

lemma uuid_inj:
  assumes "length (show_hex_nat t) = length (show_hex_nat t')" and "uuid_v4 t c = uuid_v4 t' c'"
  shows "c = c'"
proof -
  have "show_hex_nat t = show_hex_nat t' \<and> show_hex c = show_hex c'"
    using assms by (simp add: uuid_v4_def)
  then show ?thesis
    by (metis option.inject parse_hex_show)
qed

end
