(* ===== verification/ClassNames.thy ===== *)
theory ClassNames
  imports Session
begin

text \<open>
  Class names and signatures in \<open>mcp-server/src/handlers.rs\<close>: conversions between the JVM's
  signatures and the names users write, the score by which a loaded class matches a pattern, and
  the resolution of a pattern to loaded classes.
\<close>

section \<open>Signatures and names\<close>

definition is_class_signature :: "string \<Rightarrow> bool" where
  "is_class_signature s \<longleftrightarrow> starts_with s ''L'' \<and> ends_with s '';''"

definition signature_to_binary_name :: "string \<Rightarrow> string option" where
  "signature_to_binary_name sig =
     (if is_class_signature sig
      then Some (replace_char (CHR ''/'') (CHR ''.'') (take (length sig - 2) (drop 1 sig)))
      else None)"

definition signature_to_display_name :: "string \<Rightarrow> string option" where
  "signature_to_display_name sig =
     map_option (replace_char (CHR ''$'') (CHR ''.'')) (signature_to_binary_name sig)"

definition normalize_class_pattern :: "string \<Rightarrow> string" where
  "normalize_class_pattern pattern =
     (if is_class_signature pattern
      then (case signature_to_binary_name pattern of Some n \<Rightarrow> n | None \<Rightarrow> pattern)
      else replace_char (CHR ''/'') (CHR ''.'') pattern)"

definition as_signature :: "string \<Rightarrow> string" where
  "as_signature s = ''L'' @ s @ '';''"

definition candidate_signatures :: "string \<Rightarrow> string list" where
  "candidate_signatures pattern =
     remdups_adj (sort
       (if is_class_signature pattern then [pattern]
        else as_signature (replace_char (CHR ''.'') (CHR ''/'') pattern)
             # (if CHR ''/'' \<in> set pattern then [as_signature pattern] else [])))"

text \<open>The last segment of a dotted name: \<open>rsplit('.').next()\<close>.\<close>

definition simple_name :: "string \<Rightarrow> string" where
  "simple_name s = rsplit_last (CHR ''.'') s"

definition class_match_score :: "string \<Rightarrow> string \<Rightarrow> nat option" where
  "class_match_score sig pattern =
     (let requested = normalize_class_pattern pattern
      in case signature_to_binary_name sig of
           None \<Rightarrow> None
         | Some binary \<Rightarrow>
             (case signature_to_display_name sig of
                None \<Rightarrow> None
              | Some display \<Rightarrow>
                  (let requested_simple = simple_name requested;
                       binary_simple = simple_name binary;
                       display_simple = simple_name display
                   in if requested = binary \<or> requested = display then Some 0
                      else if binary = replace_char (CHR ''.'') (CHR ''$'') requested then Some 1
                      else if starts_with binary (requested @ ''$'') \<or> starts_with display (requested @ ''.'')
                      then Some 2
                      else if requested_simple = binary_simple \<or> requested_simple = display_simple
                      then Some 3
                      else if starts_with binary_simple (requested_simple @ ''$'')
                           \<or> starts_with display_simple (requested_simple @ ''.'')
                      then Some 4
                      else None)))"

section \<open>Resolution\<close>

definition get_class_signature :: "u64 \<Rightarrow> 'w debug_session \<Rightarrow> string option \<times> 'w debug_session" where
  "get_class_signature cid s = (case map_of (class_signatures s) cid of
      Some sig \<Rightarrow> (Some sig, s)
    | None \<Rightarrow> (case on_conn (get_signature cid) s of
        (Inl _, s) \<Rightarrow> (None, s)
      | (Inr sig, s) \<Rightarrow>
          (Some sig, s\<lparr>class_signatures := AList.update cid sig (class_signatures s)\<rparr>)))"

text \<open>The first loop: every candidate signature is asked for, all answers are appended.\<close>

fun exact_matches :: "string list \<Rightarrow> ('w debug_session, string, class_info list) eff" where
  "exact_matches [] = ereturn []"
| "exact_matches (sig # sigs) =
     ebind (on_conn_err ''Failed to find class'' (classes_by_signature sig)) (\<lambda>exact.
     ebind (exact_matches sigs) (\<lambda>rest. ereturn (exact @ rest)))"

text \<open>The fallback's last loop keeps the first class of each id.\<close>

fun keep_first :: "class_info list \<Rightarrow> class_info list \<Rightarrow> class_info list" where
  "keep_first resolved [] = resolved"
| "keep_first resolved (c # cs) =
     (if type_id c \<notin> type_id ` set resolved then keep_first (resolved @ [c]) cs
      else keep_first resolved cs)"

definition rank_classes :: "string \<Rightarrow> class_info list \<Rightarrow> class_info list" where
  "rank_classes pattern classes =
     keep_first []
       (map snd (sort_key (\<lambda>(score, c). (score, type_id c))
         (List.map_filter (\<lambda>c. map_option (\<lambda>score. (score, c))
            (class_match_score (ci_signature c) pattern)) classes)))"

definition resolve_classes :: "string \<Rightarrow> ('w debug_session, string, class_info list) eff" where
  "resolve_classes pattern =
     ebind (exact_matches (candidate_signatures pattern)) (\<lambda>matches.
       if matches \<noteq> [] then ereturn (dedup_by type_id (sort_key type_id matches))
       else ebind (on_conn_err ''Failed to list loaded classes'' all_classes) (\<lambda>classes.
              ereturn (rank_classes pattern classes)))"

section \<open>Names and signatures\<close>

lemma is_class_signature_iff: "is_class_signature s \<longleftrightarrow> (\<exists>n. s = as_signature n)"
proof
  assume s: "is_class_signature s"
  then obtain t where t: "s = ''L'' @ t"
    by (auto simp: is_class_signature_def starts_with_iff)
  from s obtain u where u: "s = u @ '';''"
    by (auto simp: is_class_signature_def ends_with_iff)
  from t u have "t \<noteq> []"
    by auto
  then obtain n c where n: "t = n @ [c]"
    by (metis rev_exhaust)
  with t u have "c = CHR '';''"
    by (metis append.assoc last_snoc)
  with t n show "\<exists>n. s = as_signature n"
    by (auto simp: as_signature_def)
next
  assume "\<exists>n. s = as_signature n"
  then show "is_class_signature s"
    by (auto simp: is_class_signature_def as_signature_def starts_with_iff ends_with_iff)
qed

lemma is_class_signature_sig [simp]: "is_class_signature (as_signature n)"
  by (auto simp: is_class_signature_iff)

lemma binary_name_sig [simp]:
  "signature_to_binary_name (as_signature n) = Some (replace_char (CHR ''/'') (CHR ''.'') n)"
proof -
  have "take (length (as_signature n) - 2) (drop 1 (as_signature n)) = n"
    by (simp add: as_signature_def)
  then show ?thesis
    by (simp add: signature_to_binary_name_def del: One_nat_def)
qed

lemma display_name_sig [simp]:
  "signature_to_display_name (as_signature n)
     = Some (replace_char (CHR ''$'') (CHR ''.'') (replace_char (CHR ''/'') (CHR ''.'') n))"
  by (simp add: signature_to_display_name_def)

lemma binary_name_None: "\<not> is_class_signature s \<Longrightarrow> signature_to_binary_name s = None"
  by (simp add: signature_to_binary_name_def)

lemma replace_char_absent: "a \<notin> set s \<Longrightarrow> replace_char a b s = s"
  by (induction s) (auto simp: replace_char_def)

lemma replace_char_back:
  "b \<notin> set s \<Longrightarrow> replace_char b a (replace_char a b s) = s"
  by (induction s) (auto simp: replace_char_def)

lemma set_replace_char: "a \<noteq> b \<Longrightarrow> a \<notin> set (replace_char a b s)"
  by (induction s) (auto simp: replace_char_def)

lemma set_replace_other: "c \<notin> set s \<Longrightarrow> c \<noteq> b \<Longrightarrow> c \<notin> set (replace_char a b s)"
  by (induction s) (auto simp: replace_char_def)

text \<open>A name without a semicolon is no signature.\<close>

lemma not_signature: "CHR '';'' \<notin> set n \<Longrightarrow> \<not> is_class_signature n"
  by (auto simp: is_class_signature_iff as_signature_def)

lemma normalize_plain: "CHR '';'' \<notin> set n \<Longrightarrow> CHR ''/'' \<notin> set n \<Longrightarrow> normalize_class_pattern n = n"
  by (simp add: normalize_class_pattern_def not_signature replace_char_absent)

section \<open>What resolution returns\<close>

lemma keep_first_distinct:
  "distinct (map type_id rs) \<Longrightarrow> distinct (map type_id (keep_first rs cs))"
  by (induction rs cs rule: keep_first.induct) auto

lemma keep_first_ids: "type_id ` set (keep_first rs cs) = type_id ` set rs \<union> type_id ` set cs"
  by (induction rs cs rule: keep_first.induct) auto

lemma keep_first_set: "set (keep_first rs cs) \<subseteq> set rs \<union> set cs"
  by (induction rs cs rule: keep_first.induct) auto

lemma rank_classes_distinct: "distinct (map type_id (rank_classes p cs))"
  by (simp add: rank_classes_def keep_first_distinct)

lemma set_ranked: "set (List.map_filter f xs) = {y. \<exists>x \<in> set xs. f x = Some y}"
  by (force simp: map_filter_def)

lemma rank_classes_match:
  "c \<in> set (rank_classes p cs) \<Longrightarrow> c \<in> set cs \<and> class_match_score (ci_signature c) p \<noteq> None"
  using keep_first_set by (fastforce simp: rank_classes_def set_ranked)

lemma rank_classes_complete:
  "c \<in> set cs \<Longrightarrow> class_match_score (ci_signature c) p \<noteq> None \<Longrightarrow>
     type_id c \<in> type_id ` set (rank_classes p cs)"
  by (force simp: rank_classes_def keep_first_ids set_ranked image_iff)

lemma exact_dedup:
  "distinct (map type_id (dedup_by type_id (sort_key type_id cs)))"
  "type_id ` set (dedup_by type_id (sort_key type_id cs)) = type_id ` set cs"
  using dedup_by_sorted [of type_id "sort_key type_id cs"]
  by (simp_all add: dedup_by_keys)

lemma keep_first_sorted:
  fixes g :: "class_info \<Rightarrow> 'k::linorder"
  shows "sorted (map g (rs @ cs)) \<Longrightarrow> sorted (map g (keep_first rs cs))"
proof (induction rs cs rule: keep_first.induct)
  case (2 rs c cs)
  then show ?case
    by (auto simp: sorted_append)
qed simp

end
