(* ===== verification/Lookup.thy ===== *)
theory Lookup
  imports ClassNames
begin

text \<open>
  The small decisions the tool handlers of \<open>mcp-server/src/handlers.rs\<close> share: thread ids in
  requests, the thread of an event, the thread a tool acts on, source lines of bytecode indices,
  local variables in scope, parameters counted in a method signature, and the rendering of a value.
  Tool arguments are \<open>serde_json\<close> values, read through the accessors of \<open>json_api\<close>.
\<close>

section \<open>Arguments\<close>

record 'j json_api =
  j_get :: "'j \<Rightarrow> string \<Rightarrow> 'j option"
  j_str :: "'j \<Rightarrow> string option"
  j_u64 :: "'j \<Rightarrow> u64 option"
  j_i64 :: "'j \<Rightarrow> i64 option"
  j_f64 :: "'j \<Rightarrow> u64 option"
  j_bool :: "'j \<Rightarrow> bool option"
  j_array :: "'j \<Rightarrow> 'j list option"
  j_is_null :: "'j \<Rightarrow> bool"
  j_text :: "'j \<Rightarrow> string"

definition arg_str :: "'j json_api \<Rightarrow> 'j \<Rightarrow> string \<Rightarrow> string option" where
  "arg_str api args name = Option.bind (j_get api args name) (j_str api)"

definition arg_u64 :: "'j json_api \<Rightarrow> 'j \<Rightarrow> string \<Rightarrow> u64 option" where
  "arg_u64 api args name = Option.bind (j_get api args name) (j_u64 api)"

definition arg_bool :: "'j json_api \<Rightarrow> 'j \<Rightarrow> string \<Rightarrow> bool option" where
  "arg_bool api args name = Option.bind (j_get api args name) (j_bool api)"

definition arg_i64 :: "'j json_api \<Rightarrow> 'j \<Rightarrow> string \<Rightarrow> i64 option" where
  "arg_i64 api args name = Option.bind (j_get api args name) (j_i64 api)"

definition or_default :: "'a \<Rightarrow> 'a option \<Rightarrow> 'a" where
  "or_default d v = (case v of None \<Rightarrow> d | Some x \<Rightarrow> x)"

definition nl :: string where
  "nl = [CHR 0x0A]"

text \<open>The error text for a parameter that is absent or of another type.\<close>

definition missing :: "string \<Rightarrow> string" where
  "missing name = ''Missing '' @ quote @ name @ quote"

definition missing_parameter :: "string \<Rightarrow> string" where
  "missing_parameter name = missing name @ '' parameter''"

definition parse_thread_id :: "'j json_api \<Rightarrow> 'j \<Rightarrow> u64 option" where
  "parse_thread_id api args =
     Option.bind (arg_str api args ''thread_id'') (\<lambda>s. parse_hex_u64 (trim_0x s))"

section \<open>Threads\<close>

fun kind_thread :: "event_kind \<Rightarrow> u64 option" where
  "kind_thread (Breakpoint t _) = Some t"
| "kind_thread (Step t _) = Some t"
| "kind_thread (VMStart t) = Some t"
| "kind_thread (ThreadStart t) = Some t"
| "kind_thread (ThreadDeath t) = Some t"
| "kind_thread (ClassPrepare t _ _ _) = Some t"
| "kind_thread (Exception t _ _ _) = Some t"
| "kind_thread (MethodEntry t _) = Some t"
| "kind_thread (MethodExit t _) = Some t"
| "kind_thread (FieldAccess t _ _ _ _) = Some t"
| "kind_thread (FieldModification t _ _ _ _ _) = Some t"
| "kind_thread VMDeath = None"
| "kind_thread (UnknownEvent _) = None"

definition event_thread_id :: "event_set \<Rightarrow> u64 option" where
  "event_thread_id es = (case events es of [] \<Rightarrow> None | e # _ \<Rightarrow> kind_thread (details e))"

definition resolve_target_thread :: "u64 option \<Rightarrow> ('w debug_session, string, u64) eff" where
  "resolve_target_thread thread s =
     (case thread of Some tid \<Rightarrow> (Inr tid, s)
      | None \<Rightarrow>
     (case selected_thread_id s of Some tid \<Rightarrow> (Inr tid, s)
      | None \<Rightarrow>
     (case Option.bind (last_event s) event_thread_id of Some tid \<Rightarrow> (Inr tid, s)
      | None \<Rightarrow>
          ebind (on_conn_err ''Failed to get threads'' get_all_threads) (\<lambda>ts.
            case ts of t # _ \<Rightarrow> ereturn t | [] \<Rightarrow> efail ''No threads found'') s)))"

section \<open>Source lines\<close>

text \<open>\<open>iter().rev().find(..)\<close>: the last entry of the table at or before the index.\<close>

definition resolve_source_line :: "line_table \<Rightarrow> u64 \<Rightarrow> i32 option" where
  "resolve_source_line lt idx =
     map_option line_number (find (\<lambda>e. line_code_index e \<le> idx) (rev (lines lt)))"

section \<open>Variables in scope\<close>

text \<open>\<open>code_index + length as u64\<close> is 64-bit addition.\<close>

definition in_scope :: "u64 \<Rightarrow> variable \<Rightarrow> bool" where
  "in_scope ci v \<longleftrightarrow> code_index v \<le> ci \<and> ci < code_index v + ucast (var_length v)"

definition find_variable :: "u64 \<Rightarrow> string \<Rightarrow> variable list \<Rightarrow> variable option" where
  "find_variable ci name vt = find (\<lambda>v. var_name v = name) (filter (in_scope ci) vt)"

definition slot_of :: "variable \<Rightarrow> variable_slot" where
  "slot_of v = \<lparr>slot = var_slot v,
     sig_byte = (case bytes_of_str (var_signature v) of [] \<Rightarrow> 0x4C | b # _ \<Rightarrow> b)\<rparr>"

section \<open>Parameters of a method signature\<close>

text \<open>The loop over \<open>params.chars()\<close>, on code points: \<open>;\<close> is 59, \<open>L\<close> 76, \<open>[\<close> 91.\<close>

fun count_params :: "bool \<Rightarrow> u32 list \<Rightarrow> nat" where
  "count_params in_class [] = 0"
| "count_params True (c # cs) = (if c = 59 then 1 + count_params False cs else count_params True cs)"
| "count_params False (c # cs) =
     (if c = 76 then count_params True cs
      else if c = 91 then count_params False cs
      else 1 + count_params False cs)"

text \<open>\<open>str::is_char_boundary\<close>: not beyond the end, and not within a character.\<close>

definition is_char_boundary :: "string \<Rightarrow> nat \<Rightarrow> bool" where
  "is_char_boundary s k \<longleftrightarrow> k \<le> length s \<and> (case bytes_of_str (drop k s) of [] \<Rightarrow> True | b # _ \<Rightarrow> \<not> is_cont b)"

text \<open>
  \<open>None\<close>: the slice \<open>&sig[1..end]\<close> panics, on a signature that starts with \<open>)\<close> and on one that is empty
  or starts with a character of more than one byte.
\<close>

definition signature_params :: "string \<Rightarrow> string option" where
  "signature_params sig =
     (let end = (case str_find sig '')'' of Some p \<Rightarrow> p | None \<Rightarrow> 1)
      in if end < 1 \<or> \<not> is_char_boundary sig 1 then None else Some (take (end - 1) (drop 1 sig)))"

definition match_sig :: "nat \<Rightarrow> string \<Rightarrow> bool option" where
  "match_sig n sig =
     (if n = 0 then Some (starts_with sig ''()'')
      else map_option (\<lambda>params. params \<noteq> [] \<and> count_params False (chars params) = n)
             (signature_params sig))"

section \<open>Rendering a value\<close>

definition MAX_STR :: nat where
  "MAX_STR = 80"

definition str_of_code_points :: "u32 list \<Rightarrow> string" where
  "str_of_code_points cs = str_of_bytes (utf8_chars cs)"

definition dquote :: string where
  "dquote = [CHR 0x22]"

definition format_value_leaf :: "float_text \<Rightarrow> jvalue \<Rightarrow> 'w debug_session \<Rightarrow> string \<times> 'w debug_session" where
  "format_value_leaf ft v s =
     (if tag v = tag_code TagString
      then (case vdata v of
              VObject oid \<Rightarrow>
                (if oid \<noteq> 0
                 then (case on_conn (get_string_value oid) s of
                         (Inr str, s) \<Rightarrow>
                           (if MAX_STR < length str
                            then (dquote @ str_of_code_points (take MAX_STR (chars str)) @ ''...'' @ dquote, s)
                            else (dquote @ str @ dquote, s))
                       | (Inl _, s) \<Rightarrow> (''str@'' @ show_hex oid, s))
                 else (''null'', s))
            | d \<Rightarrow> (format_compact ft d, s))
      else (format_compact ft (vdata v), s))"

section \<open>Facts\<close>

lemma parse_thread_id_printed:
  assumes "arg_str api args ''thread_id'' = Some (''0x'' @ show_hex w)"
  shows "parse_thread_id api args = Some w"
  using assms trim_0x_show [of w] by (simp add: parse_thread_id_def parse_hex_show)

lemma find_rev_last:
  assumes "find P (rev xs) = Some x"
  shows "\<exists>a b. xs = a @ x # b \<and> P x \<and> (\<forall>y \<in> set b. \<not> P y)"
  using assms
proof (induction xs rule: rev_induct)
  case Nil
  then show ?case by simp
next
  case (snoc y xs)
  show ?case
  proof (cases "P y")
    case True
    with snoc.prems have "x = y" by simp
    with True show ?thesis
      by (intro exI [of _ xs] exI [of _ "[]"]) simp
  next
    case False
    with snoc obtain a b where "xs = a @ x # b" "P x" "\<forall>z \<in> set b. \<not> P z"
      by auto
    with False show ?thesis
      by (intro exI [of _ a] exI [of _ "b @ [y]"]) simp
  qed
qed

text \<open>On a table sorted by code index the line found is that of the greatest index not past the bytecode.\<close>

lemma resolve_source_line_sorted:
  assumes "sorted (map line_code_index (lines lt))" and "resolve_source_line lt idx = Some n"
  shows "\<exists>e \<in> set (lines lt). line_number e = n \<and> line_code_index e \<le> idx
    \<and> (\<forall>e' \<in> set (lines lt). line_code_index e' \<le> idx \<longrightarrow> line_code_index e' \<le> line_code_index e)"
proof -
  from assms(2) obtain e where e: "find (\<lambda>e. line_code_index e \<le> idx) (rev (lines lt)) = Some e"
    and n: "line_number e = n"
    by (auto simp: resolve_source_line_def)
  from find_rev_last [OF e] obtain a b where ab: "lines lt = a @ e # b" "line_code_index e \<le> idx"
    "\<forall>y \<in> set b. \<not> line_code_index y \<le> idx" by blast
  have "line_code_index e' \<le> line_code_index e" if "e' \<in> set (lines lt)" "line_code_index e' \<le> idx" for e'
    using that ab assms(1) by (auto simp: sorted_append)
  with ab n show ?thesis
    by (intro bexI [of _ e]) auto
qed

lemma resolve_source_line_None:
  "resolve_source_line lt idx = None \<longleftrightarrow> (\<forall>e \<in> set (lines lt). idx < line_code_index e)"
  by (auto simp: resolve_source_line_def find_None_iff not_le)

text \<open>Descriptors: what \<open>count_params\<close> counts.\<close>

datatype descriptor = Prim u32 | Cls "u32 list" | Arr descriptor

fun descriptor_ok :: "descriptor \<Rightarrow> bool" where
  "descriptor_ok (Prim c) = (c \<notin> {59, 76, 91})"
| "descriptor_ok (Cls n) = (59 \<notin> set n)"
| "descriptor_ok (Arr d) = descriptor_ok d"

fun descriptor_text :: "descriptor \<Rightarrow> u32 list" where
  "descriptor_text (Prim c) = [c]"
| "descriptor_text (Cls n) = 76 # n @ [59]"
| "descriptor_text (Arr d) = 91 # descriptor_text d"

lemma count_class: "59 \<notin> set n \<Longrightarrow> count_params True (n @ 59 # r) = Suc (count_params False r)"
  by (induction n) auto

lemma count_descriptor:
  "descriptor_ok d \<Longrightarrow> count_params False (descriptor_text d @ r) = Suc (count_params False r)"
  by (induction d) (auto simp: count_class)

lemma count_descriptors:
  "\<forall>d \<in> set ds. descriptor_ok d \<Longrightarrow> count_params False (concat (map descriptor_text ds)) = length ds"
  by (induction ds) (auto simp: count_descriptor)

end
