(* ===== verification/Trace.thy ===== *)
theory Trace
  imports Lookup
begin

text \<open>
  Method tracing in \<open>mcp-server/src/handlers.rs\<close>: the collection of entry and exit events into the
  session's trace (\<open>collect_trace_events\<close>), in detail mode as a list of calls with their depth, in
  aggregate mode as counters per method, and the tool that arms a trace (\<open>handle_trace\<close>).
  \<open>now\<close> is the clock read once per event set; a \<open>u32\<close> depth wraps.
\<close>

section \<open>Collecting events\<close>

type_synonym raw_event = "u64 \<times> u64 \<times> u64 \<times> bool"

definition is_trace_event :: "trace_state \<Rightarrow> event \<Rightarrow> bool" where
  "is_trace_event tr e \<longleftrightarrow> request_id e = entry_request_id tr \<or> request_id e = exit_request_id tr"

fun raw_event :: "event_kind \<Rightarrow> raw_event option" where
  "raw_event (MethodEntry t l) = Some (t, class_id l, method_id l, True)"
| "raw_event (MethodExit t l) = Some (t, class_id l, method_id l, False)"
| "raw_event _ = None"

text \<open>Phase 1: the trace's events of the set, as ids.\<close>

definition raw_events :: "trace_state \<Rightarrow> event_set \<Rightarrow> raw_event list" where
  "raw_events tr es =
     List.map_filter (\<lambda>e. raw_event (details e)) (filter (is_trace_event tr) (events es))"

text \<open>\<open>depth_per_thread.entry(thread).or_insert(0)\<close>.\<close>

definition depth_in :: "(u64 \<times> u32) list \<Rightarrow> u64 \<Rightarrow> u32" where
  "depth_in m t = (case map_of m t of Some d \<Rightarrow> d | None \<Rightarrow> 0)"

definition depth_of :: "trace_state \<Rightarrow> u64 \<Rightarrow> u32" where
  "depth_of tr t = depth_in (depth_per_thread tr) t"

definition set_depth :: "u64 \<Rightarrow> u32 \<Rightarrow> trace_state \<Rightarrow> trace_state" where
  "set_depth t d tr = tr\<lparr>depth_per_thread := AList.update t d (depth_per_thread tr)\<rparr>"

definition count_call :: "nat \<Rightarrow> u64 \<Rightarrow> u64 \<Rightarrow> u64 \<Rightarrow> u32 \<Rightarrow> trace_state \<Rightarrow> trace_state" where
  "count_call now t c m d tr =
     (let stats = (case map_of (agg_stats tr) (c, m) of
            Some s \<Rightarrow> s
          | None \<Rightarrow> \<lparr>am_class_id = c, am_method_id = m, call_count = 0, total_ms = 0\<rparr>)
      in tr\<lparr>entry_times := AList.update (t, c, m, d) now (entry_times tr),
           agg_stats := AList.update (c, m) (stats\<lparr>call_count := call_count stats + 1\<rparr>) (agg_stats tr)\<rparr>)"

text \<open>An entry; \<open>False\<close> when the limit of calls breaks the loop.\<close>

definition trace_entry :: "nat \<Rightarrow> u64 \<Rightarrow> u64 \<Rightarrow> u64 \<Rightarrow> trace_state \<Rightarrow> trace_state \<times> bool" where
  "trace_entry now t c m tr =
     (let d = depth_of tr t
      in if aggregate tr
         then (set_depth t (d + 1) (count_call now t c m d tr), True)
         else if max_calls tr \<le> length (calls tr)
         then (set_depth t d (tr\<lparr>active := False\<rparr>), False)
         else (set_depth t (d + 1) (tr\<lparr>calls := calls tr @ [\<lparr>tc_thread = t, tc_class = c, tc_method = m,
                 tc_depth = d, tc_result = Entry\<rparr>]\<rparr>), True))"

text \<open>\<open>iter_mut().rev().find(..)\<close> and the assignment through it.\<close>

fun update_first :: "('a \<Rightarrow> bool) \<Rightarrow> ('a \<Rightarrow> 'a) \<Rightarrow> 'a list \<Rightarrow> 'a list" where
  "update_first P f [] = []"
| "update_first P f (x # xs) = (if P x then f x # xs else x # update_first P f xs)"

definition update_last :: "('a \<Rightarrow> bool) \<Rightarrow> ('a \<Rightarrow> 'a) \<Rightarrow> 'a list \<Rightarrow> 'a list" where
  "update_last P f xs = rev (update_first P f (rev xs))"

definition open_call :: "u64 \<Rightarrow> u32 \<Rightarrow> trace_call \<Rightarrow> bool" where
  "open_call t d c \<longleftrightarrow> tc_thread c = t \<and> tc_depth c = d \<and> tc_result c = Entry"

definition add_elapsed :: "nat \<Rightarrow> u64 \<Rightarrow> u64 \<Rightarrow> u64 \<Rightarrow> u32 \<Rightarrow> trace_state \<Rightarrow> trace_state" where
  "add_elapsed now t c m d tr =
     (case map_of (entry_times tr) (t, c, m, d) of
        None \<Rightarrow> tr
      | Some start \<Rightarrow>
          (let tr = tr\<lparr>entry_times := AList.delete (t, c, m, d) (entry_times tr)\<rparr>;
               elapsed = word_of_nat ((now - start) div 10 ^ 6)
           in case map_of (agg_stats tr) (c, m) of
                None \<Rightarrow> tr
              | Some s \<Rightarrow> tr\<lparr>agg_stats :=
                  AList.update (c, m) (s\<lparr>total_ms := total_ms s + elapsed\<rparr>) (agg_stats tr)\<rparr>))"

definition trace_exit :: "nat \<Rightarrow> u64 \<Rightarrow> u64 \<Rightarrow> u64 \<Rightarrow> trace_state \<Rightarrow> trace_state" where
  "trace_exit now t c m tr =
     (let d = (if 0 < depth_of tr t then depth_of tr t - 1 else depth_of tr t);
          tr = set_depth t d tr
      in if aggregate tr then add_elapsed now t c m d tr
         else tr\<lparr>calls := update_last (open_call t d)
                  (\<lambda>call. call\<lparr>tc_result := MethodReturned None\<rparr>) (calls tr)\<rparr>)"

text \<open>Phase 2.\<close>

fun trace_loop :: "nat \<Rightarrow> raw_event list \<Rightarrow> trace_state \<Rightarrow> trace_state" where
  "trace_loop now [] tr = tr"
| "trace_loop now ((t, c, m, is_entry) # rs) tr =
     (if is_entry
      then (case trace_entry now t c m tr of (tr, go) \<Rightarrow> if go then trace_loop now rs tr else tr)
      else trace_loop now rs (trace_exit now t c m tr))"

text \<open>\<open>later\<close> is the clock at \<open>start_time.elapsed()\<close>.\<close>

definition collect_trace ::
    "nat \<Rightarrow> nat \<Rightarrow> event_set \<Rightarrow> 'w debug_session \<Rightarrow> bool \<times> 'w debug_session" where
  "collect_trace now later es s =
     (case trace_state s of
        None \<Rightarrow> (False, s)
      | Some tr \<Rightarrow>
          if \<not> active tr \<or> \<not> list_ex (is_trace_event tr) (events es) then (False, s)
          else (let tr = trace_loop now (raw_events tr es) tr;
                    tr = (if 60 < (later - start_time tr) div 10 ^ 9 then tr\<lparr>active := False\<rparr> else tr)
                in (True, s\<lparr>trace_state := Some tr\<rparr>)))"

definition collect_trace_events ::
    "nat \<Rightarrow> nat \<Rightarrow> event_set \<Rightarrow> 'w session_manager \<Rightarrow> bool \<times> 'w session_manager" where
  "collect_trace_events now later es m =
     (case get_current_session m of
        None \<Rightarrow> (False, m)
      | Some a \<Rightarrow> (case collect_trace now later es (store m ! a) of
          (b, s) \<Rightarrow> (b, m\<lparr>store := (store m)[a := s]\<rparr>)))"

section \<open>Arming a trace\<close>

definition TRACE_MAX_CALLS :: nat where
  "TRACE_MAX_CALLS = 500"

text \<open>Errors of the clearing commands are ignored.\<close>

definition clear_old_trace :: "('w debug_session, string, unit) eff" where
  "clear_old_trace s = (case trace_state s of
      None \<Rightarrow> (Inr (), s)
    | Some old \<Rightarrow>
        (let s = s\<lparr>trace_state := None\<rparr>
         in if active old
            then (let s = snd (on_conn (clear_method_entry_trace (entry_request_id old)) s)
                  in (Inr (), snd (on_conn (clear_method_exit_trace (exit_request_id old)) s)))
            else (Inr (), s)))"

definition trace_pattern :: "string \<Rightarrow> string" where
  "trace_pattern p = (if CHR ''*'' \<in> set p then p else p @ ''*'')"

definition new_trace :: "i32 \<Rightarrow> i32 \<Rightarrow> bool \<Rightarrow> bool \<Rightarrow> nat \<Rightarrow> trace_state" where
  "new_trace en ex args agg now =
     \<lparr>active = True, entry_request_id = en, exit_request_id = ex, include_args = args,
      aggregate = agg, calls = [], agg_stats = [], entry_times = [], depth_per_thread = [],
      start_time = now, max_calls = TRACE_MAX_CALLS\<rparr>"

definition set_trace :: "trace_state \<Rightarrow> ('w debug_session, string, unit) eff" where
  "set_trace tr s = (Inr (), s\<lparr>trace_state := Some tr\<rparr>)"

definition arm_trace :: "nat \<Rightarrow> string \<Rightarrow> bool \<Rightarrow> bool \<Rightarrow> ('w debug_session, string, string) eff" where
  "arm_trace now class_pat args agg =
     (let pattern = trace_pattern class_pat;
          suspend = (if args then SuspendEventThread else SuspendNone)
      in ebind clear_old_trace (\<lambda>_.
         ebind (on_conn_err ''Failed to set method entry trace'' (set_method_entry_trace pattern suspend)) (\<lambda>en.
         ebind (on_conn_err ''Failed to set method exit trace'' (set_method_exit_trace pattern suspend)) (\<lambda>ex.
         ebind (set_trace (new_trace en ex args agg now)) (\<lambda>_.
           ereturn (''tracing '' @ pattern @ '' armed (entry='' @ show_signed en
                     @ '', exit='' @ show_signed ex @ '')''))))))"

definition handle_trace ::
    "'j json_api \<Rightarrow> nat \<Rightarrow> 'j \<Rightarrow> ('w session_manager, string, string) eff" where
  "handle_trace api now args m =
     (case arg_str api args ''class_pattern'' of
        None \<Rightarrow> (Inl (''Missing '' @ quote @ ''class_pattern'' @ quote), m)
      | Some p \<Rightarrow>
          with_session
            (arm_trace now p (case arg_bool api args ''include_args'' of Some b \<Rightarrow> b | None \<Rightarrow> False)
               (case arg_bool api args ''aggregate'' of Some b \<Rightarrow> b | None \<Rightarrow> False)) m)"

section \<open>Detail mode records call trees\<close>

text \<open>
  The calls of one thread as trees; the events the JVM sends for them, and the calls the trace
  should list, in the order they were entered, each with its depth.
\<close>

datatype call_tree = CallTree u64 u64 "call_tree list"

fun tree_events :: "u64 \<Rightarrow> call_tree \<Rightarrow> raw_event list" where
  "tree_events t (CallTree c m ts) = (t, c, m, True) # concat (map (tree_events t) ts) @ [(t, c, m, False)]"

fun tree_calls :: "u64 \<Rightarrow> u32 \<Rightarrow> call_tree \<Rightarrow> trace_call list" where
  "tree_calls t d (CallTree c m ts) =
     \<lparr>tc_thread = t, tc_class = c, tc_method = m, tc_depth = d, tc_result = MethodReturned None\<rparr>
       # concat (map (tree_calls t (d + 1)) ts)"

fun tree_size :: "call_tree \<Rightarrow> nat" where
  "tree_size (CallTree c m ts) = Suc (sum_list (map tree_size ts))"

lemma tree_calls_closed: "c \<in> set (tree_calls t d tree) \<Longrightarrow> tc_result c \<noteq> Entry"
  by (induction tree arbitrary: d) auto

lemma length_tree_calls: "length (tree_calls t d tree) = tree_size tree"
proof (induction tree arbitrary: d)
  case (CallTree c m ts)
  then have "map (\<lambda>x. length (tree_calls t (d + 1) x)) ts = map tree_size ts"
    by simp
  then have "(\<Sum>x\<leftarrow>ts. length (tree_calls t (d + 1) x)) = sum_list (map tree_size ts)"
    by (rule arg_cong)
  then show ?case
    by (simp add: length_concat comp_def)
qed

lemma update_first_skip: "\<forall>x \<in> set xs. \<not> P x \<Longrightarrow> update_first P f (xs @ ys) = xs @ update_first P f ys"
  by (induction xs) auto

lemma update_last_skip: "\<forall>x \<in> set ys. \<not> P x \<Longrightarrow> P x \<Longrightarrow> update_last P f (xs @ x # ys) = xs @ f x # ys"
  by (simp add: update_last_def update_first_skip)

lemma depth_in_update [simp]: "depth_in (AList.update t d m) u = (if u = t then d else depth_in m u)"
  by (auto simp: depth_in_def AList.update_conv')

definition same_depths :: "(u64 \<times> u32) list \<Rightarrow> (u64 \<times> u32) list \<Rightarrow> bool" where
  "same_depths a b \<longleftrightarrow> depth_in a = depth_in b"

lemma length_update_first [simp]: "length (update_first P f xs) = length xs"
  by (induction xs) auto

lemma length_update_last [simp]: "length (update_last P f xs) = length xs"
  by (simp add: update_last_def)

text \<open>
  The trace after a list of calls was recorded on a thread: the calls appended, the depths as
  before (the map may gain an entry for the thread).
\<close>

definition recorded :: "trace_call list \<Rightarrow> trace_state \<Rightarrow> trace_state \<Rightarrow> bool" where
  "recorded cs tr tr' \<longleftrightarrow>
     (\<exists>D. same_depths D (depth_per_thread tr) \<and> tr' = tr\<lparr>calls := calls tr @ cs, depth_per_thread := D\<rparr>)"

lemma recorded_nil: "recorded [] tr tr"
  unfolding recorded_def by (rule exI [of _ "depth_per_thread tr"]) (simp add: same_depths_def)

lemma recorded_trans: "recorded a tr tr' \<Longrightarrow> recorded b tr' tr'' \<Longrightarrow> recorded (a @ b) tr tr''"
  by (auto simp: recorded_def same_depths_def)

lemma recorded_depth: "recorded cs tr tr' \<Longrightarrow> depth_of tr' = depth_of tr"
  by (auto simp: recorded_def same_depths_def depth_of_def)

lemma recorded_fields:
  "recorded cs tr tr' \<Longrightarrow> aggregate tr' = aggregate tr \<and> max_calls tr' = max_calls tr
     \<and> calls tr' = calls tr @ cs"
  by (auto simp: recorded_def)

lemma trace_entry_room:
  "\<not> aggregate tr \<Longrightarrow> length (calls tr) < max_calls tr \<Longrightarrow>
     trace_entry now t c m tr = (set_depth t (depth_of tr t + 1) (tr\<lparr>calls := calls tr
       @ [\<lparr>tc_thread = t, tc_class = c, tc_method = m, tc_depth = depth_of tr t, tc_result = Entry\<rparr>]\<rparr>), True)"
  by (simp add: trace_entry_def Let_def)

lemma depth_step:
  assumes "unat (d :: u32) + 1 < 2 ^ 32"
  shows "0 < d + 1" and "unat (d + 1) = unat d + 1"
proof -
  show u: "unat (d + 1) = unat d + 1"
    using assms by (simp add: unat_word_ariths)
  show "0 < d + 1"
    using u by (simp add: word_less_nat_alt)
qed

lemma tree_recorded:
  assumes "\<not> aggregate tr" and "length (calls tr) + tree_size tree \<le> max_calls tr"
    and "unat (depth_of tr t) + tree_size tree < 2 ^ 32"
  shows "\<exists>tr'. recorded (tree_calls t (depth_of tr t) tree) tr tr'
    \<and> (\<forall>rest. trace_loop now (tree_events t tree @ rest) tr = trace_loop now rest tr')"
  using assms
proof (induction tree arbitrary: tr)
  case (CallTree c m ts)
  let ?d = "depth_of tr t"
  let ?call = "\<lparr>tc_thread = t, tc_class = c, tc_method = m, tc_depth = ?d, tc_result = Entry\<rparr>"
  have size: "tree_size (CallTree c m ts) = Suc (sum_list (map tree_size ts))" by simp
  have d1: "0 < ?d + 1" "unat (?d + 1) = unat ?d + 1"
    using CallTree.prems(3) depth_step [of ?d] by auto
  define tr1 where "tr1 = set_depth t (?d + 1) (tr\<lparr>calls := calls tr @ [?call]\<rparr>)"
  have e: "trace_entry now t c m tr = (tr1, True)"
    using CallTree.prems by (simp add: trace_entry_room tr1_def)
  have tr1: "\<not> aggregate tr1" "depth_of tr1 t = ?d + 1" "max_calls tr1 = max_calls tr"
    "length (calls tr1) = Suc (length (calls tr))"
    using CallTree.prems by (simp_all add: tr1_def set_depth_def depth_of_def)
  have forest: "\<exists>tr'. recorded (concat (map (tree_calls t (depth_of tr0 t)) us)) tr0 tr'
      \<and> (\<forall>rest. trace_loop now (concat (map (tree_events t) us) @ rest) tr0 = trace_loop now rest tr')"
    if "set us \<subseteq> set ts" "\<not> aggregate tr0"
      "length (calls tr0) + sum_list (map tree_size us) \<le> max_calls tr0"
      "unat (depth_of tr0 t) + sum_list (map tree_size us) < 2 ^ 32" for us tr0
    using that
  proof (induction us arbitrary: tr0)
    case Nil
    then show ?case using recorded_nil by auto
  next
    case (Cons u us)
    then obtain tr2 where r2: "recorded (tree_calls t (depth_of tr0 t) u) tr0 tr2"
      and l2: "\<forall>rest. trace_loop now (tree_events t u @ rest) tr0 = trace_loop now rest tr2"
      using CallTree.IH [of u tr0] by auto
    note f = recorded_fields [OF r2] recorded_depth [OF r2]
    have "\<exists>tr'. recorded (concat (map (tree_calls t (depth_of tr2 t)) us)) tr2 tr'
      \<and> (\<forall>rest. trace_loop now (concat (map (tree_events t) us) @ rest) tr2 = trace_loop now rest tr')"
      using Cons.prems f by (intro Cons.IH) (auto simp: length_tree_calls)
    then obtain tr3 where r3: "recorded (concat (map (tree_calls t (depth_of tr0 t)) us)) tr2 tr3"
      and l3: "\<forall>rest. trace_loop now (concat (map (tree_events t) us) @ rest) tr2 = trace_loop now rest tr3"
      using f by auto
    from recorded_trans [OF r2 r3] l2 l3 show ?case by auto
  qed
  have "length (calls tr1) + sum_list (map tree_size ts) \<le> max_calls tr1"
    "unat (depth_of tr1 t) + sum_list (map tree_size ts) < 2 ^ 32"
    using CallTree.prems(2,3) tr1 d1 by simp_all
  from forest [OF subset_refl tr1(1) this] obtain tr2 where
    r2: "recorded (concat (map (tree_calls t (?d + 1)) ts)) tr1 tr2"
    and l2: "\<forall>rest. trace_loop now (concat (map (tree_events t) ts) @ rest) tr1 = trace_loop now rest tr2"
    by (auto simp: tr1(2))
  let ?kids = "concat (map (tree_calls t (?d + 1)) ts)"
  obtain D where D: "same_depths D (depth_per_thread tr1)"
    and tr2: "tr2 = tr1\<lparr>calls := calls tr1 @ ?kids, depth_per_thread := D\<rparr>"
    using r2 by (auto simp: recorded_def)
  have dD: "depth_in D u = (if u = t then ?d + 1 else depth_in (depth_per_thread tr) u)" for u
    using D by (simp add: same_depths_def tr1_def set_depth_def depth_of_def)
  have kids: "\<forall>k \<in> set ?kids. \<not> open_call t ?d k"
    using tree_calls_closed by (auto simp: open_call_def)
  have closed: "update_last (open_call t ?d) (\<lambda>call. call\<lparr>tc_result := MethodReturned None\<rparr>)
      (calls tr @ ?call # ?kids) = calls tr @ ?call\<lparr>tc_result := MethodReturned None\<rparr> # ?kids"
    using kids by (intro update_last_skip) (simp_all add: open_call_def)
  define tr3 where "tr3 = trace_exit now t c m tr2"
  have "recorded (tree_calls t ?d (CallTree c m ts)) tr tr3"
    unfolding recorded_def
  proof (intro exI conjI)
    show "same_depths (AList.update t ?d D) (depth_per_thread tr)"
      by (auto simp: same_depths_def dD depth_of_def)
    show "tr3 = tr\<lparr>calls := calls tr @ tree_calls t ?d (CallTree c m ts),
        depth_per_thread := AList.update t ?d D\<rparr>"
      using d1(1) tr1(1) closed dD [of t]
      by (simp add: tr3_def trace_exit_def tr2 tr1_def set_depth_def depth_of_def Let_def)
  qed
  moreover have "trace_loop now (tree_events t (CallTree c m ts) @ rest) tr = trace_loop now rest tr3" for rest
    using l2 by (simp add: e tr3_def)
  ultimately show ?case by blast
qed

section \<open>Bounds and counters\<close>

lemma trace_entry_bound:
  "length (calls (fst (trace_entry now t c m tr))) \<le> max (length (calls tr)) (max_calls tr)"
  by (auto simp: trace_entry_def set_depth_def count_call_def Let_def)

lemma add_elapsed_fields [simp]:
  "calls (add_elapsed now t c m d tr) = calls tr" "max_calls (add_elapsed now t c m d tr) = max_calls tr"
  "aggregate (add_elapsed now t c m d tr) = aggregate tr"
  by (simp_all add: add_elapsed_def Let_def split: option.split)

lemma trace_entry_max [simp]: "max_calls (fst (trace_entry now t c m tr)) = max_calls tr"
  "aggregate (fst (trace_entry now t c m tr)) = aggregate tr"
  by (auto simp: trace_entry_def set_depth_def count_call_def Let_def)

lemma trace_exit_fields [simp]:
  "length (calls (trace_exit now t c m tr)) = length (calls tr)"
  "max_calls (trace_exit now t c m tr) = max_calls tr"
  "aggregate (trace_exit now t c m tr) = aggregate tr"
  by (simp_all add: trace_exit_def set_depth_def Let_def)

lemma trace_loop_bound:
  "length (calls (trace_loop now rs tr)) \<le> max (length (calls tr)) (max_calls tr)
   \<and> max_calls (trace_loop now rs tr) = max_calls tr"
proof (induction now rs tr rule: trace_loop.induct)
  case (2 now t c m e rs tr)
  obtain tr' go where tr': "trace_entry now t c m tr = (tr', go)" by fastforce
  have b: "length (calls tr') \<le> max (length (calls tr)) (max_calls tr)" "max_calls tr' = max_calls tr"
    using trace_entry_bound [of now t c m tr] trace_entry_max(1) [of now t c m tr] by (simp_all add: tr')
  show ?case
  proof (cases e)
    case True
    with 2(1) [OF True tr' [symmetric]] b show ?thesis by (auto simp: tr')
  next
    case False
    with 2(2) show ?thesis by auto
  qed
qed simp

definition calls_of :: "trace_state \<Rightarrow> u64 \<times> u64 \<Rightarrow> u64" where
  "calls_of tr cm = (case map_of (agg_stats tr) cm of Some s \<Rightarrow> call_count s | None \<Rightarrow> 0)"

definition entries_of :: "raw_event list \<Rightarrow> u64 \<times> u64 \<Rightarrow> nat" where
  "entries_of rs cm = length (filter (\<lambda>(t, c, m, e). e \<and> (c, m) = cm) rs)"

lemma calls_of_count: "calls_of (count_call now t c m d tr) cm = calls_of tr cm + (if (c, m) = cm then 1 else 0)"
  by (auto simp: calls_of_def count_call_def Let_def AList.update_conv' split: option.split)

lemma calls_of_elapsed [simp]: "calls_of (add_elapsed now t c m d tr) cm = calls_of tr cm"
  by (auto simp: calls_of_def add_elapsed_def Let_def AList.update_conv' split: option.split)

lemma calls_of_depth [simp]: "calls_of (set_depth t d tr) cm = calls_of tr cm"
  by (simp add: calls_of_def set_depth_def)

lemma aggregate_counts:
  "aggregate tr \<Longrightarrow> calls_of (trace_loop now rs tr) cm = calls_of tr cm + of_nat (entries_of rs cm)"
proof (induction now rs tr rule: trace_loop.induct)
  case (1 now tr)
  then show ?case by (simp add: entries_of_def)
next
  case (2 now t c m e rs tr)
  show ?case
  proof (cases e)
    case True
    define tr' where "tr' = set_depth t (depth_of tr t + 1) (count_call now t c m (depth_of tr t) tr)"
    have te: "trace_entry now t c m tr = (tr', True)"
      using 2(3) by (simp add: trace_entry_def Let_def tr'_def)
    moreover have "aggregate tr'"
      using 2(3) by (simp add: tr'_def set_depth_def count_call_def Let_def)
    ultimately have "calls_of (trace_loop now rs tr') cm = calls_of tr' cm + of_nat (entries_of rs cm)"
      using 2(1) True by simp
    with True te show ?thesis
      by (auto simp: tr'_def calls_of_count entries_of_def)
  next
    case False
    have "aggregate (trace_exit now t c m tr)" using 2(3) by simp
    with 2(2) False have "calls_of (trace_loop now rs (trace_exit now t c m tr)) cm
        = calls_of (trace_exit now t c m tr) cm + of_nat (entries_of rs cm)" by simp
    moreover have "calls_of (trace_exit now t c m tr) cm = calls_of tr cm"
      using 2(3) by (simp add: trace_exit_def Let_def set_depth_def [of t _ tr] calls_of_def [of "tr\<lparr>depth_per_thread := _\<rparr>"]
          calls_of_def [of tr])
    ultimately show ?thesis
      using False by (simp add: entries_of_def)
  qed
qed

end
