(* ===== verification/Jvm.thy ===== *)
theory Jvm
  imports Lookup
begin

text \<open>
  What the handlers may rely on in the other side of a connection, and what a tool that only looks
  may change. \<open>jvm_contract\<close> states the documented behaviour of EventRequest commands: which
  requests are armed in the JVM before and after an exchange. \<open>asks\<close> relates two states of a
  connection between which only commands that ask were sent; \<open>reads\<close> two states of a session that
  differ only in the cache of class signatures and in a connection so related.
\<close>

section \<open>Event requests in the JVM\<close>

text \<open>
  A request is its event kind with its id. A successful Set arms a new request, a successful Clear
  disarms the one named, a failed exchange at most did what it asked for, and no other command
  touches the requests.
\<close>

definition set_reply :: "reply_packet jdwp_result \<Rightarrow> i32 option" where
  "set_reply r = (case r of
      Inl _ \<Rightarrow> None
    | Inr reply \<Rightarrow> if error_code reply = 0 then ok (prun read_i32 (reply_data reply)) else None)"

definition cleared_request :: "command_packet \<Rightarrow> (u8 \<times> i32) set" where
  "cleared_request p = (case prun (pbind read_u8 (\<lambda>k. pmap (Pair k) read_i32)) (cmd_data p) of
      Inl _ \<Rightarrow> {} | Inr x \<Rightarrow> {x})"

definition event_request_effect ::
    "command_packet \<Rightarrow> reply_packet jdwp_result \<Rightarrow> (u8 \<times> i32) set \<Rightarrow> (u8 \<times> i32) set \<Rightarrow> bool" where
  "event_request_effect p r before after \<longleftrightarrow>
     (if command_set p \<noteq> CS_EVENT_REQUEST then after = before
      else if command p = EV_SET
      then before \<subseteq> after \<and>
        (case set_reply r of
           Some rid \<Rightarrow> after = insert (hd (cmd_data p), rid) before \<and> (\<forall>k. (k, rid) \<notin> before)
         | None \<Rightarrow> (case r of Inr reply \<Rightarrow> error_code reply \<noteq> 0 \<longrightarrow> after = before | Inl _ \<Rightarrow> True))
      else before - cleared_request p \<subseteq> after \<and> after \<subseteq> before \<and>
        (case r of
           Inr reply \<Rightarrow> after = (if error_code reply = 0 then before - cleared_request p else before)
         | Inl _ \<Rightarrow> True))"

definition jvm_contract ::
    "(command_packet \<Rightarrow> 'w \<Rightarrow> reply_packet jdwp_result \<times> 'w) \<Rightarrow> ('w \<Rightarrow> (u8 \<times> i32) set) \<Rightarrow> bool" where
  "jvm_contract send armed \<longleftrightarrow>
     (\<forall>p w. event_request_effect p (fst (send p w)) (armed w) (armed (snd (send p w))))"

definition quiet :: "('w \<Rightarrow> (u8 \<times> i32) set) \<Rightarrow> 'w connection \<Rightarrow> 'w connection \<Rightarrow> bool" where
  "quiet armed c c' \<longleftrightarrow> loop_send c' = loop_send c
     \<and> (jvm_contract (loop_send c) armed \<longrightarrow> armed (peer c') = armed (peer c))"

lemma quiet_refl [simp]: "quiet armed c c"
  by (simp add: quiet_def)

lemma quiet_trans: "quiet armed a b \<Longrightarrow> quiet armed b c \<Longrightarrow> quiet armed a c"
  by (auto simp: quiet_def)

text \<open>
  The world as commands of one kind only can change it, and the commands that ask the JVM for
  information: they suspend, resume, invoke, create and set nothing.
\<close>

inductive sends_only ::
    "(command_packet \<Rightarrow> bool) \<Rightarrow> (command_packet \<Rightarrow> 'w \<Rightarrow> reply_packet jdwp_result \<times> 'w) \<Rightarrow> 'w \<Rightarrow> 'w \<Rightarrow> bool"
  for P send w where
  sent_none: "sends_only P send w w"
| sent_one: "sends_only P send w w' \<Longrightarrow> P p \<Longrightarrow> sends_only P send w (snd (send p w'))"

lemma sends_only_trans: "sends_only P send v w \<Longrightarrow> sends_only P send u v \<Longrightarrow> sends_only P send u w"
  by (induction rule: sends_only.induct) (auto intro: sent_one)

lemma sends_only_keeps:
  "sends_only P send w w' \<Longrightarrow> (\<And>p w. P p \<Longrightarrow> f (snd (send p w)) = f w) \<Longrightarrow> f w' = f w"
  by (induction rule: sends_only.induct) auto

definition asking_commands :: "(u8 \<times> u8) list" where
  "asking_commands =
    [(CS_VIRTUAL_MACHINE, VM_VERSION), (CS_VIRTUAL_MACHINE, VM_CLASSES_BY_SIGNATURE),
     (CS_VIRTUAL_MACHINE, VM_ALL_CLASSES), (CS_VIRTUAL_MACHINE, VM_ALL_THREADS),
     (CS_REFERENCE_TYPE, RT_SIGNATURE), (CS_REFERENCE_TYPE, RT_FIELDS), (CS_REFERENCE_TYPE, RT_METHODS),
     (CS_REFERENCE_TYPE, RT_INTERFACES), (CS_METHOD, MC_LINE_TABLE), (CS_METHOD, MC_VARIABLE_TABLE),
     (CS_OBJECT_REFERENCE, OR_REFERENCE_TYPE), (CS_OBJECT_REFERENCE, OR_GET_VALUES),
     (CS_STRING_REFERENCE, SR_VALUE), (CS_THREAD_REFERENCE, TH_NAME), (CS_THREAD_REFERENCE, TH_FRAMES),
     (CS_ARRAY_REFERENCE, AR_LENGTH), (CS_ARRAY_REFERENCE, AR_GET_VALUES), (CS_STACK_FRAME, SF_GET_VALUES)]"

definition asking :: "command_packet \<Rightarrow> bool" where
  "asking p \<longleftrightarrow> (command_set p, command p) \<in> set asking_commands"

definition asks :: "'w connection \<Rightarrow> 'w connection \<Rightarrow> bool" where
  "asks c c' \<longleftrightarrow> loop_send c' = loop_send c \<and> sends_only asking (loop_send c) (peer c) (peer c')"

lemma asks_refl [simp]: "asks c c"
  by (simp add: asks_def sent_none)

lemma asks_trans: "asks a b \<Longrightarrow> asks b c \<Longrightarrow> asks a c"
  by (auto simp: asks_def intro: sends_only_trans)

text \<open>The state after an exchange, with the packet that was sent.\<close>

lemma transact_sends:
  "snd (transact cs cm body p c)
     = after_send c (snd (loop_send c (request_packet c cs cm body) (peer c)))"
  using transact_eq [of c cs cm body "fst (loop_send c (request_packet c cs cm body) (peer c))"
      "snd (loop_send c (request_packet c cs cm body) (peer c))" p]
  by simp

lemma request_packet_fields [simp]:
  "command_set (request_packet c cs cm body) = cs" "command (request_packet c cs cm body) = cm"
  "cmd_data (request_packet c cs cm body) = body"
  by (simp_all add: request_packet_def new_command_def)

lemma transact_asks: "(cs, cm) \<in> set asking_commands \<Longrightarrow> keeps asks (transact cs cm body p)"
  unfolding keeps_def asks_def
  using sent_one [OF sent_none, of asking "request_packet c cs cm body" "loop_send c" "peer c" for c]
  by (auto simp: transact_sends after_send_def asking_def)

lemma asking_not_requests: "asking p \<Longrightarrow> command_set p \<noteq> CS_EVENT_REQUEST"
  by (auto simp: asking_def asking_commands_def)

lemma asks_quiet: "asks c c' \<Longrightarrow> quiet armed c c'"
  using sends_only_keeps [of asking "loop_send c" "peer c" "peer c'" armed] asking_not_requests
  by (auto simp: asks_def quiet_def jvm_contract_def event_request_effect_def)

lemma transact_quiet: "cs \<noteq> CS_EVENT_REQUEST \<Longrightarrow> keeps (quiet armed) (transact cs cm body p)"
  by (auto simp: keeps_def quiet_def transact_sends after_send_def jvm_contract_def
      event_request_effect_def request_packet_def new_command_def)

text \<open>Setting and clearing, as the contract describes them.\<close>

definition armed_after ::
    "('w \<Rightarrow> (u8 \<times> i32) set) \<Rightarrow> u8 \<Rightarrow> 'w connection \<Rightarrow> jdwp_error + i32 \<Rightarrow> 'w connection \<Rightarrow> bool" where
  "armed_after armed k c r c' \<longleftrightarrow> armed (peer c) \<subseteq> armed (peer c') \<and> loop_send c' = loop_send c
     \<and> (\<forall>rid. r = Inr rid \<longrightarrow>
          armed (peer c') = insert (k, rid) (armed (peer c)) \<and> (\<forall>k'. (k', rid) \<notin> armed (peer c)))"

lemma set_arms:
  assumes "jvm_contract (loop_send c) armed"
    and "transact CS_EVENT_REQUEST EV_SET (k # body) read_i32 c = (r, c')"
  shows "armed_after armed k c r c'"
proof -
  let ?p = "request_packet c CS_EVENT_REQUEST EV_SET (k # body)"
  obtain q w where send: "loop_send c ?p (peer c) = (q, w)" by force
  then have eff: "event_request_effect ?p q (armed (peer c)) (armed w)"
    using assms(1) unfolding jvm_contract_def by (metis fst_conv snd_conv)
  from transact_eq [OF send, of read_i32] assms(2)
  have c': "c' = after_send c w"
    and r: "r = (case q of Inl e \<Rightarrow> Inl e
      | Inr reply \<Rightarrow> (case check_error reply of Inl e \<Rightarrow> Inl e | Inr _ \<Rightarrow> prun read_i32 (reply_data reply)))"
    by simp_all
  have "set_reply q = Some rid" if "r = Inr rid" for rid
    using that r by (auto simp: set_reply_def ok_def check_error_def is_error_def split: sum.splits if_splits)
  with eff c' show ?thesis
    by (auto simp: armed_after_def event_request_effect_def after_send_def)
qed

lemma cleared_request_body:
  "cleared_request (request_packet c cs cm (put_u8 k @ put_u32 rid)) = {(k, rid)}"
  by (simp add: cleared_request_def parser_defs pmap_def)

lemma clear_disarms:
  assumes "jvm_contract (loop_send c) armed" and "clear_event_request k rid c = (r, c')"
  shows "loop_send c' = loop_send c \<and> armed (peer c') \<subseteq> armed (peer c)
    \<and> armed (peer c) - {(k, rid)} \<subseteq> armed (peer c')
    \<and> (r = Inr () \<longrightarrow> armed (peer c') = armed (peer c) - {(k, rid)})"
proof -
  let ?p = "request_packet c CS_EVENT_REQUEST EV_CLEAR (put_u8 k @ put_u32 rid)"
  obtain q w where send: "loop_send c ?p (peer c) = (q, w)" by force
  then have eff: "event_request_effect ?p q (armed (peer c)) (armed w)"
    using assms(1) unfolding jvm_contract_def by (metis fst_conv snd_conv)
  from transact_eq [OF send, of "preturn ()"] assms(2)
  have c': "c' = after_send c w"
    and r: "r = (case q of Inl e \<Rightarrow> Inl e
      | Inr reply \<Rightarrow> (case check_error reply of Inl e \<Rightarrow> Inl e | Inr _ \<Rightarrow> prun (preturn ()) (reply_data reply)))"
    by (simp_all add: clear_event_request_def)
  have "\<exists>reply. q = Inr reply \<and> error_code reply = 0" if "r = Inr ()"
    using that r by (auto simp: check_error_def is_error_def split: sum.splits if_splits)
  with eff c' show ?thesis
    by (auto simp: event_request_effect_def cleared_request_body after_send_def)
qed

lemmas command_sets = CS_EVENT_REQUEST_def CS_VIRTUAL_MACHINE_def CS_REFERENCE_TYPE_def CS_METHOD_def
  CS_OBJECT_REFERENCE_def CS_ARRAY_REFERENCE_def CS_STRING_REFERENCE_def CS_STACK_FRAME_def
  CS_THREAD_REFERENCE_def

named_theorems asks_ops \<open>operations of the client that only ask the JVM\<close>

lemma asking_operations [asks_ops]:
  "keeps asks get_version" "keeps asks (classes_by_signature sig)" "keeps asks all_classes"
  "keeps asks (get_thread_name t)" "keeps asks (get_frames t i n)" "keeps asks get_all_threads"
  "keeps asks (get_signature r)" "keeps asks (get_methods r)" "keeps asks (get_fields r)"
  "keeps asks (get_interfaces r)" "keeps asks (get_line_table r mid)" "keeps asks (get_variable_table r mid)"
  "keeps asks (get_object_reference_type ob)" "keeps asks (get_object_values ob fs)"
  "keeps asks (get_array_length ob)" "keeps asks (get_array_values ob i n)"
  "keeps asks (get_string_value ob)" "keeps asks (get_frame_values t f slots)"
  unfolding get_version_def classes_by_signature_def all_classes_def get_thread_name_def get_frames_def
    get_all_threads_def get_signature_def get_methods_def get_fields_def get_interfaces_def
    get_line_table_def get_variable_table_def get_object_reference_type_def get_object_values_def
    get_array_length_def get_array_values_def get_string_value_def get_frame_values_def
  by (rule transact_asks, simp only: asking_commands_def list.set insert_iff simp_thms)+

text \<open>Resuming, suspending, invoking and writing leave the armed requests alone.\<close>

lemma quiet_operations:
  "keeps (quiet armed) resume_all" "keeps (quiet armed) suspend_all" "keeps (quiet armed) (create_string str)"
  "keeps (quiet armed) (invoke_method ob t r mid args b)" "keeps (quiet armed) (set_frame_values t f vals)"
  by (simp_all add: resume_all_def suspend_all_def create_string_def invoke_method_def
      set_frame_values_def transact_quiet command_sets)

section \<open>Tools that only look\<close>

definition reads :: "'w debug_session \<Rightarrow> 'w debug_session \<Rightarrow> bool" where
  "reads s s' \<longleftrightarrow>
     (\<exists>c sigs. s' = s\<lparr>conn := c, class_signatures := sigs\<rparr> \<and> asks (conn s) c)"

lemma reads_refl [simp]: "reads s s"
  unfolding reads_def by (intro exI [of _ "conn s"] exI [of _ "class_signatures s"]) simp

lemma reads_trans: "reads a b \<Longrightarrow> reads b c \<Longrightarrow> reads a c"
  unfolding reads_def by (elim exE conjE, simp) (blast intro: asks_trans)

lemma reads_conn: "asks (conn s) c \<Longrightarrow> reads s (s\<lparr>conn := c\<rparr>)"
  unfolding reads_def by (intro exI [of _ c] exI [of _ "class_signatures s"]) simp

lemma reads_conn_sigs:
  "asks (conn s) c \<Longrightarrow> reads s (s\<lparr>conn := c, class_signatures := sigs\<rparr>)"
  unfolding reads_def by blast

lemma reads_fields:
  "reads s s' \<Longrightarrow> breakpoints s' = breakpoints s \<and> active_step s' = active_step s
    \<and> selected_thread_id s' = selected_thread_id s \<and> last_event s' = last_event s
    \<and> last_event_seq s' = last_event_seq s \<and> trace_state s' = trace_state s
    \<and> vm_dead s' = vm_dead s \<and> event_listener_task s' = event_listener_task s
    \<and> disconnect_reason s' = disconnect_reason s \<and> threads s' = threads s"
  by (auto simp: reads_def)

lemma reads_bind [keeps_intros]:
  "keeps reads m \<Longrightarrow> (\<And>x. keeps reads (f x)) \<Longrightarrow> keeps reads (ebind m f)"
  by (rule keeps_bind) (blast intro: reads_trans)

lemma reads_pure [keeps_intros]:
  "keeps reads (ereturn x)" "keeps reads (efail e)" "keeps reads (eget g)"
  "keeps reads (eoption e v)"
  by (simp_all add: keeps_def ereturn_def efail_def eget_def eoption_def)

lemma reads_calls [keeps_intros]:
  assumes "keeps asks m"
  shows "keeps reads (on_conn m)" "keeps reads (on_conn_err what m)"
    "keeps reads (on_conn_or r m)" "keeps reads (attempt m)"
proof -
  have q: "m c = (r, c') \<Longrightarrow> asks c c'" for c r c'
    using assms unfolding keeps_def by (metis snd_conv)
  show "keeps reads (on_conn m)" "keeps reads (on_conn_err what m)"
    "keeps reads (on_conn_or r m)" "keeps reads (attempt m)"
    by (auto simp: keeps_def on_conn_def on_conn_err_def on_conn_or_def attempt_def
        dest: q intro: reads_conn split: prod.splits)
qed

lemma reads_map [keeps_intros]:
  "(\<And>x. keeps reads (f x)) \<Longrightarrow> keeps reads (emap f xs)"
  by (induction xs) (auto intro: keeps_intros)

lemma reads_lift [keeps_intros]: "(\<And>s. reads s (snd (f s))) \<Longrightarrow> keeps reads (epure f)"
  by (simp add: keeps_def epure_def split: prod.splits) (metis snd_conv)

lemma reads_merge: "keeps reads m \<Longrightarrow> reads s (snd (emerge m s))"
  unfolding keeps_def emerge_def by (auto split: prod.splits sum.splits) (metis snd_conv)+

lemma ebind_reads:
  assumes "ebind m f s = (r, s')" and "keeps reads m" and "reads s0 s"
  obtains e where "r = Inl e" and "reads s0 s'"
    | x t where "f x t = (r, s')" and "reads s0 t"
  using assms(1)
proof (cases rule: ebind_cases)
  case (1 e)
  with that(1) assms show thesis
    using keeps_run [OF assms(2)] reads_trans by blast
next
  case (2 x t)
  with that(2) assms show thesis
    using keeps_run [OF assms(2)] reads_trans by blast
qed

section \<open>Shared steps of the tools\<close>

lemma reads_class_signature: "reads s (snd (get_class_signature cid s))"
proof -
  have "asks (conn s) c" if "get_signature cid (conn s) = (r, c)" for r c
    using asking_operations(7) [of cid] that unfolding keeps_def by (metis snd_conv)
  then show ?thesis
    by (auto simp: get_class_signature_def on_conn_def intro: reads_conn reads_conn_sigs
        split: option.splits prod.splits sum.splits)
qed

lemma reads_exact_matches [keeps_intros]: "keeps reads (exact_matches sigs)"
  by (induction sigs) (auto intro!: keeps_intros asks_ops)

lemma reads_resolve_classes [keeps_intros]: "keeps reads (resolve_classes pat)"
  unfolding resolve_classes_def by (auto intro!: keeps_intros asks_ops)

lemma reads_target_thread [keeps_intros]: "keeps reads (resolve_target_thread t)"
proof -
  have "keeps reads (ebind (on_conn_err ''Failed to get threads'' get_all_threads) (\<lambda>ts.
            case ts of t # _ \<Rightarrow> ereturn t | [] \<Rightarrow> efail ''No threads found''))"
    by (auto intro!: keeps_intros asks_ops split: list.split)
  then show ?thesis
    by (auto simp: keeps_def resolve_target_thread_def split: option.split)
qed

lemma reads_value_leaf: "reads s (snd (format_value_leaf ft v s))"
proof -
  have "asks (conn s) c" if "get_string_value ob (conn s) = (r, c)" for r c ob
    using asking_operations(17) [of ob] that unfolding keeps_def by (metis snd_conv)
  then show ?thesis
    by (auto simp: format_value_leaf_def on_conn_def intro: reads_conn
        split: value_data.splits prod.splits sum.splits)
qed

lemma reads_catch [keeps_intros]: "keeps reads m \<Longrightarrow> keeps reads (ecatch m)"
  by (auto simp: keeps_def ecatch_def split: prod.splits) (metis snd_conv)

section \<open>The contract of a tool that only looks\<close>

text \<open>
  Run under the lock of the current session such a tool changes no other session, no entry of the
  manager, and of its own session only the connection and the cache of signatures.
\<close>

locale looking_tool =
  fixes tool :: "('w debug_session, string, 'a) eff"
  assumes tool_reads: "keeps reads tool"
begin

lemma manager_kept:
  "with_session tool m = (r, m') \<Longrightarrow> sessions m' = sessions m \<and> current m' = current m
     \<and> aborted m' = aborted m \<and> uuid_counter m' = uuid_counter m \<and> length (store m') = length (store m)"
  by (auto simp: with_session_defs split: option.splits prod.splits)

lemma session_kept:
  assumes "with_session tool m = (r, m')"
  shows "reads (store m ! b) (store m' ! b)"
proof (cases "get_current_session m")
  case None
  with assms show ?thesis by (simp add: with_session_defs)
next
  case (Some a)
  obtain q s where t: "tool (store m ! a) = (q, s)" by force
  with Some assms have m': "m' = m\<lparr>store := (store m)[a := s]\<rparr>"
    by (simp add: with_session_defs)
  have "reads (store m ! a) s"
    using keeps_run [OF tool_reads t] .
  with m' show ?thesis
    by (cases "a < length (store m)"; cases "b = a") (auto simp: list_update_beyond)
qed

lemma no_session: "get_current_session m = None \<Longrightarrow> with_session tool m = (Inl ''No active debug session'', m)"
  by (simp add: with_session_defs)

end

end
