(* ===== verification/Floats.thy ===== *)
theory Floats
  imports ServerText
begin

text \<open>
  \<open>str::parse::<f64>\<close> and the order of \<open>f64\<close>, as \<open>eval_condition\<close> in
  \<open>mcp-server/src/handlers.rs\<close> uses them. A float is its IEEE 754 bit pattern; a decimal literal
  is rounded to the nearest double, ties to even, with infinity on overflow. Integers below
  \<open>2 ^ 53\<close> are represented exactly and compare as integers.
\<close>

section \<open>Rounding a ratio to a double\<close>

fun bit_length :: "nat \<Rightarrow> nat" where
  "bit_length n = (if n = 0 then 0 else Suc (bit_length (n div 2)))"

declare bit_length.simps [simp del]

text \<open>The exponent \<open>e\<close> with \<open>2 ^ e \<le> p / q < 2 ^ (e + 1)\<close>, for positive \<open>p\<close> and \<open>q\<close>.\<close>

definition ratio_exponent :: "nat \<Rightarrow> nat \<Rightarrow> int" where
  "ratio_exponent p q =
     (let e = int (bit_length p) - int (bit_length q)
      in if q * 2 ^ nat e \<le> p * 2 ^ nat (- e) then e else e - 1)"

definition div_round_even :: "nat \<Rightarrow> nat \<Rightarrow> nat" where
  "div_round_even a b =
     (let d = a div b; r = a mod b
      in if 2 * r < b \<or> 2 * r = b \<and> even d then d else d + 1)"

definition f64_infinity :: nat where
  "f64_infinity = 0x7FF * 2 ^ 52"

definition f64_of_ratio :: "nat \<Rightarrow> nat \<Rightarrow> nat" where
  "f64_of_ratio p q =
     (if p = 0 then 0
      else (let e = max (ratio_exponent p q) (- 1022);
                m = div_round_even (p * 2 ^ nat (52 - e)) (q * 2 ^ nat (e - 52))
            in min f64_infinity (nat (e + 1022) * 2 ^ 52 + m)))"

section \<open>Parsing\<close>

definition digit_val :: "char \<Rightarrow> nat option" where
  "digit_val c = (let n = of_char c in if 48 \<le> n \<and> n \<le> 57 then Some (n - 48) else None)"

definition is_digit :: "char \<Rightarrow> bool" where
  "is_digit c \<longleftrightarrow> digit_val c \<noteq> None"

fun digits_val :: "nat \<Rightarrow> string \<Rightarrow> nat" where
  "digits_val acc [] = acc"
| "digits_val acc (c # s) = digits_val (acc * 10 + (case digit_val c of Some d \<Rightarrow> d | None \<Rightarrow> 0)) s"

definition ascii_lower :: "char \<Rightarrow> char" where
  "ascii_lower c = (let n = of_char c in if 65 \<le> n \<and> n \<le> (90 :: nat) then char_of (n + 32) else c)"

text \<open>An optional sign; \<open>True\<close> for a minus.\<close>

fun split_sign :: "string \<Rightarrow> bool \<times> string" where
  "split_sign [] = (False, [])"
| "split_sign (c # s) =
     (if c = CHR ''-'' then (True, s) else if c = CHR ''+'' then (False, s) else (False, c # s))"

text \<open>The exponent part: nothing, or \<open>e\<close> with an optional sign and at least one digit.\<close>

fun parse_exponent :: "string \<Rightarrow> int option" where
  "parse_exponent [] = Some 0"
| "parse_exponent (c # s) =
     (if ascii_lower c = CHR ''e''
      then (case split_sign s of (neg, ds) \<Rightarrow>
              if ds \<noteq> [] \<and> list_all is_digit ds
              then Some (if neg then - int (digits_val 0 ds) else int (digits_val 0 ds))
              else None)
      else None)"

definition parse_number :: "string \<Rightarrow> nat option" where
  "parse_number s =
     (let ints = takeWhile is_digit s;
          r = dropWhile is_digit s;
          dot = (r \<noteq> [] \<and> hd r = CHR ''.'');
          fracs = (if dot then takeWhile is_digit (tl r) else []);
          r' = (if dot then dropWhile is_digit (tl r) else r)
      in if ints = [] \<and> fracs = [] then None
         else map_option (\<lambda>ex.
                let m = digits_val 0 (ints @ fracs); e = ex - int (length fracs)
                in f64_of_ratio (m * 10 ^ nat e) (10 ^ nat (- e)))
              (parse_exponent r'))"

definition parse_f64 :: "string \<Rightarrow> u64 option" where
  "parse_f64 s =
     (case split_sign s of (neg, r) \<Rightarrow>
        let low = map ascii_lower r
        in map_option (\<lambda>b. word_of_nat ((if neg then 2 ^ 63 else 0) + b))
             (if low = ''inf'' \<or> low = ''infinity'' then Some f64_infinity
              else if low = ''nan'' then Some (f64_infinity + 2 ^ 51)
              else parse_number r))"

section \<open>Comparison\<close>

text \<open>\<open>NaN\<close> compares false with everything; other floats in the order of sign and magnitude.\<close>

definition f64_magnitude :: "u64 \<Rightarrow> nat" where
  "f64_magnitude b = unat b mod 2 ^ 63"

definition f64_is_nan :: "u64 \<Rightarrow> bool" where
  "f64_is_nan b \<longleftrightarrow> f64_infinity < f64_magnitude b"

definition f64_key :: "u64 \<Rightarrow> int" where
  "f64_key b = (if unat b < 2 ^ 63 then int (f64_magnitude b) else - int (f64_magnitude b))"

definition f64_lt :: "u64 \<Rightarrow> u64 \<Rightarrow> bool" where
  "f64_lt a b \<longleftrightarrow> \<not> f64_is_nan a \<and> \<not> f64_is_nan b \<and> f64_key a < f64_key b"

definition f64_le :: "u64 \<Rightarrow> u64 \<Rightarrow> bool" where
  "f64_le a b \<longleftrightarrow> \<not> f64_is_nan a \<and> \<not> f64_is_nan b \<and> f64_key a \<le> f64_key b"

section \<open>Integers below 2 ^ 53\<close>

lemma bit_length_0 [simp]: "bit_length 0 = 0"
  by (simp add: bit_length.simps)

lemma bit_length_1 [simp]: "bit_length (Suc 0) = Suc 0"
  by (subst bit_length.simps) simp

lemma bit_length_bounds: "0 < n \<Longrightarrow> 2 ^ (bit_length n - 1) \<le> n \<and> n < 2 ^ bit_length n \<and> 0 < bit_length n"
proof (induction n rule: bit_length.induct)
  case (1 n)
  show ?case
  proof (cases "n = 1")
    case True
    then show ?thesis by simp
  next
    case False
    with 1(2) have n: "0 < n div 2" by (cases n) auto
    with 1 have IH: "2 ^ (bit_length (n div 2) - 1) \<le> n div 2" "n div 2 < 2 ^ bit_length (n div 2)"
      "0 < bit_length (n div 2)"
      by auto
    then have "2 ^ bit_length (n div 2) \<le> n"
      by (cases "bit_length (n div 2)") auto
    moreover have "n < 2 * 2 ^ bit_length (n div 2)"
      using IH(2) by linarith
    ultimately show ?thesis
      using 1(2) by (simp add: bit_length.simps [of n])
  qed
qed

lemma div_round_even_one: "div_round_even a 1 = a"
  by (simp add: div_round_even_def Let_def)

text \<open>The bits of an integer: exponent and significand, the leading one carrying into the exponent.\<close>

definition int_bits :: "nat \<Rightarrow> nat" where
  "int_bits n = (if n = 0 then 0
     else (bit_length n + 1021) * 2 ^ 52 + n * 2 ^ (53 - bit_length n))"

lemma f64_of_int:
  assumes "n < 2 ^ 53"
  shows "f64_of_ratio n 1 = int_bits n"
proof (cases "n = 0")
  case True
  then show ?thesis by (simp add: f64_of_ratio_def int_bits_def)
next
  case False
  define k where "k = bit_length n - 1"
  have k: "bit_length n = Suc k" "2 ^ k \<le> n" "n < 2 ^ Suc k"
    using bit_length_bounds [of n] False by (auto simp: k_def)
  have "k < 53"
    using k(2) assms by (metis linorder_not_less order.strict_trans1 one_less_numeral_iff
        power_increasing_iff semiring_norm(76) not_less)
  have e: "ratio_exponent n 1 = int k"
    using k by (simp add: ratio_exponent_def Let_def)
  have m: "n * 2 ^ (52 - k) < 2 ^ 53"
  proof -
    have "n * 2 ^ (52 - k) < 2 ^ Suc k * 2 ^ (52 - k)"
      using k(3) by simp
    also have "\<dots> = 2 ^ 53"
      using \<open>k < 53\<close> by (simp only: power_add [symmetric]) simp
    finally show ?thesis .
  qed
  have "(k + 1022) * 2 ^ 52 + n * 2 ^ (52 - k) \<le> f64_infinity"
    using m \<open>k < 53\<close> unfolding f64_infinity_def by simp
  moreover have "nat (52 - int k) = 52 - k" "nat (int k + 1022) = k + 1022" "nat (int k - 52) = 0"
    using \<open>k < 53\<close> by auto
  ultimately show ?thesis
    using False \<open>k < 53\<close> k(1)
    by (simp add: f64_of_ratio_def e [simplified] Let_def div_round_even_one [simplified] int_bits_def max_def del: power_Suc)
qed

lemma bit_length_mono: "m < n \<Longrightarrow> bit_length m \<le> bit_length n"
proof (cases "m = 0")
  case False
  assume "m < n"
  with False have "2 ^ (bit_length m - 1) \<le> m" "n < 2 ^ bit_length n" "0 < bit_length m"
    using bit_length_bounds [of m] bit_length_bounds [of n] by auto
  with \<open>m < n\<close> have "(2 :: nat) ^ (bit_length m - 1) < 2 ^ bit_length n" by linarith
  then have "bit_length m - 1 < bit_length n"
    by (simp add: power_strict_increasing_iff)
  then show ?thesis by simp
qed simp

lemma bit_length_le: "n < 2 ^ k \<Longrightarrow> bit_length n \<le> k"
proof (cases "n = 0")
  case False
  assume "n < 2 ^ k"
  with False have "(2 :: nat) ^ (bit_length n - 1) < 2 ^ k"
    using bit_length_bounds [of n] by (meson le_less_trans neq0_conv)
  then show ?thesis
    using bit_length_bounds [of n] False by (simp add: power_strict_increasing_iff)
qed simp

lemma significand:
  assumes "0 < n" and "n < 2 ^ 53"
  shows "2 ^ 52 \<le> n * 2 ^ (53 - bit_length n)" and "n * 2 ^ (53 - bit_length n) < 2 ^ 53"
proof -
  let ?k = "bit_length n"
  have k: "2 ^ (?k - 1) \<le> n" "n < 2 ^ ?k" "0 < ?k" "?k \<le> 53"
    using bit_length_bounds [OF assms(1)] bit_length_le [OF assms(2)] by auto
  have "(2 :: nat) ^ 52 = 2 ^ (?k - 1) * 2 ^ (53 - ?k)"
    using k by (simp only: power_add [symmetric]) simp
  also have "\<dots> \<le> n * 2 ^ (53 - ?k)"
    using k(1) by (rule mult_le_mono1)
  finally show "2 ^ 52 \<le> n * 2 ^ (53 - ?k)" .
  have "n * 2 ^ (53 - ?k) < 2 ^ ?k * 2 ^ (53 - ?k)"
    using k(2) by simp
  also have "\<dots> = 2 ^ 53"
    using k by (simp only: power_add [symmetric]) simp
  finally show "n * 2 ^ (53 - ?k) < 2 ^ 53" .
qed

lemma int_bits_mono:
  assumes "m < n" and "n < 2 ^ 53"
  shows "int_bits m < int_bits n"
proof (cases "m = 0")
  case True
  with assms significand [of n] show ?thesis by (simp add: int_bits_def)
next
  case False
  note m = significand [of m] and n = significand [of n]
  show ?thesis
  proof (cases "bit_length m = bit_length n")
    case True
    with False assms show ?thesis by (simp add: int_bits_def)
  next
    case neq: False
    with bit_length_mono [OF assms(1)] have "bit_length m + 1 \<le> bit_length n" by simp
    then have "(bit_length m + 1 + 1021) * 2 ^ 52 \<le> (bit_length n + 1021) * 2 ^ 52"
      by (intro mult_le_mono1) simp
    with m n False assms show ?thesis
      by (simp add: int_bits_def)
  qed
qed

lemma int_bits_bound: "n < 2 ^ 53 \<Longrightarrow> int_bits n < f64_infinity"
proof (cases "n = 0")
  case False
  assume n: "n < 2 ^ 53"
  then have "(bit_length n + 1021) * 2 ^ 52 \<le> (1074 :: nat) * 2 ^ 52"
    using bit_length_le [of n 53] by (intro mult_le_mono1) simp
  with significand [of n] n False show ?thesis
    by (simp add: int_bits_def f64_infinity_def)
qed (simp add: int_bits_def f64_infinity_def)

definition int_f64 :: "int \<Rightarrow> u64" where
  "int_f64 i = word_of_nat ((if i < 0 then 2 ^ 63 else 0) + int_bits (nat \<bar>i\<bar>))"

lemma int_f64_parts:
  assumes "\<bar>i\<bar> < 2 ^ 53"
  shows "\<not> f64_is_nan (int_f64 i)"
    and "f64_key (int_f64 i) = (if i < 0 then - int (int_bits (nat \<bar>i\<bar>)) else int (int_bits (nat \<bar>i\<bar>)))"
proof -
  let ?b = "int_bits (nat \<bar>i\<bar>)" and ?s = "if i < 0 then 2 ^ 63 else 0 :: nat"
  have b: "?b < f64_infinity"
    using assms by (intro int_bits_bound) simp
  then have "?s + ?b < 2 ^ 64" by (cases "i < 0") (simp_all add: f64_infinity_def)
  then have u: "unat (int_f64 i) = ?s + ?b"
    by (simp add: int_f64_def unsigned_of_nat take_bit_nat_eq_self del: of_nat_add)
  have m: "f64_magnitude (int_f64 i) = ?b"
    using b by (cases "i < 0") (simp_all add: f64_magnitude_def u f64_infinity_def)
  show "\<not> f64_is_nan (int_f64 i)"
    using b by (simp add: f64_is_nan_def m)
  show "f64_key (int_f64 i) = (if i < 0 then - int ?b else int ?b)"
    using b by (cases "i < 0") (simp_all add: f64_key_def m u f64_infinity_def)
qed

lemma f64_key_less:
  assumes "\<bar>a\<bar> < 2 ^ 53" and "\<bar>b\<bar> < 2 ^ 53"
  shows "f64_key (int_f64 a) < f64_key (int_f64 b) \<longleftrightarrow> a < b"
proof -
  have up: "f64_key (int_f64 a) < f64_key (int_f64 b)"
    if "a < b" "\<bar>a\<bar> < 2 ^ 53" "\<bar>b\<bar> < 2 ^ 53" for a b
  proof (cases "a < 0")
    case a: True
    show ?thesis
    proof (cases "b < 0")
      case True
      with that int_bits_mono [of "nat \<bar>b\<bar>" "nat \<bar>a\<bar>"] a show ?thesis
        by (simp add: int_f64_parts)
    next
      case False
      have "0 < int_bits (nat \<bar>a\<bar>)"
        using int_bits_mono [of 0 "nat \<bar>a\<bar>"] a that by (simp add: int_bits_def [of 0])
      with a False that show ?thesis
        by (simp add: int_f64_parts)
    qed
  next
    case False
    with that int_bits_mono [of "nat \<bar>a\<bar>" "nat \<bar>b\<bar>"] show ?thesis
      by (simp add: int_f64_parts)
  qed
  show ?thesis
    using up [of a b] up [of b a] assms by (cases a b rule: linorder_cases) auto
qed

lemma f64_int_order:
  assumes "\<bar>a\<bar> < 2 ^ 53" and "\<bar>b\<bar> < 2 ^ 53"
  shows "f64_lt (int_f64 a) (int_f64 b) \<longleftrightarrow> a < b" and "f64_le (int_f64 a) (int_f64 b) \<longleftrightarrow> a \<le> b"
  using f64_key_less [OF assms] f64_key_less [OF assms(2,1)] int_f64_parts(1) [OF assms(1)]
    int_f64_parts(1) [OF assms(2)]
  by (auto simp: f64_lt_def f64_le_def)

section \<open>Decimal integers parse exactly\<close>

lemma digit_val_char: "d < 10 \<Longrightarrow> digit_val (digit_char d) = Some d"
  by (auto simp: digit_val_def digit_char_def Let_def)

lemma is_digit_char: "d < 10 \<Longrightarrow> is_digit (digit_char d)"
  by (simp add: is_digit_def digit_val_char)

lemma digits_val_append: "digits_val acc (s @ t) = digits_val (digits_val acc s) t"
  by (induction s arbitrary: acc) auto

lemma show_nat_digits: "list_all is_digit (show_nat n)"
proof (induction n rule: show_nat.induct)
  case (1 n)
  then show ?case
    by (subst show_nat.simps) (simp add: is_digit_char)
qed

lemma digits_val_show: "digits_val 0 (show_nat n) = n"
proof (induction n rule: show_nat.induct)
  case (1 n)
  then show ?case
    by (subst show_nat.simps) (simp add: digits_val_append digit_val_char)
qed

lemma show_nat_span: "takeWhile is_digit (show_nat n) = show_nat n" "dropWhile is_digit (show_nat n) = []"
  using show_nat_digits [of n] by (auto simp: takeWhile_eq_all_conv dropWhile_eq_Nil_conv list_all_iff)

lemma parse_number_show: "n < 2 ^ 53 \<Longrightarrow> parse_number (show_nat n) = Some (int_bits n)"
  by (simp add: parse_number_def Let_def show_nat_span digits_val_show f64_of_int [simplified])

lemma hd_show_nat: "is_digit (hd (show_nat n))"
  using show_nat_digits [of n] by (metis hd_in_set list_all_iff show_nat_nonempty)

lemma split_sign_show: "split_sign (show_nat n) = (False, show_nat n)"
proof -
  obtain c r where s: "show_nat n = c # r"
    using show_nat_nonempty by (meson neq_Nil_conv)
  with hd_show_nat [of n] have "is_digit c" by simp
  then have "c \<noteq> CHR ''-''" "c \<noteq> CHR ''+''"
    by (auto simp: is_digit_def digit_val_def)
  then show ?thesis by (simp add: s)
qed

lemma show_nat_not_word: "map ascii_lower (show_nat n) \<noteq> w" if "w \<noteq> []" "\<not> is_digit (hd w)"
proof
  assume w: "map ascii_lower (show_nat n) = w"
  have "is_digit c \<Longrightarrow> ascii_lower c = c" for c
    by (auto simp: is_digit_def digit_val_def ascii_lower_def Let_def split: if_splits)
  with hd_show_nat [of n] have "hd w = hd (show_nat n)"
    by (simp add: w [symmetric] hd_map)
  with that hd_show_nat [of n] show False by simp
qed

lemma parse_f64_int:
  assumes "\<bar>i\<bar> < 2 ^ 53"
  shows "parse_f64 (show_int i) = Some (int_f64 i)"
proof -
  have w: "map ascii_lower (show_nat n) \<noteq> ''inf''" "map ascii_lower (show_nat n) \<noteq> ''infinity''"
    "map ascii_lower (show_nat n) \<noteq> ''nan''" for n
    by (rule show_nat_not_word; simp add: is_digit_def digit_val_def)+
  have "nat \<bar>i\<bar> < 2 ^ 53" using assms by simp
  then have p: "parse_number (show_nat (nat \<bar>i\<bar>)) = Some (int_bits (nat \<bar>i\<bar>))"
    by (rule parse_number_show)
  show ?thesis
  proof (cases "i < 0")
    case True
    with p w show ?thesis
      by (simp add: parse_f64_def show_int_def Let_def int_f64_def)
  next
    case False
    with p w show ?thesis
      by (simp add: parse_f64_def show_int_def Let_def int_f64_def split_sign_show)
  qed
qed

end
