(* ===== verification/Conditions.thy ===== *)
theory Conditions
  imports Lookup Floats
begin

text \<open>
  Conditional breakpoints in \<open>mcp-server/src/handlers.rs\<close>: the parser of \<open>variable op value\<close>
  (\<open>parse_condition\<close>) and the evaluation that decides whether a stop is skipped
  (\<open>eval_condition\<close>), with the comparison it ends in.
\<close>

section \<open>Parsing\<close>

definition condition_ops :: "string list" where
  "condition_ops = [''=='', ''!='', ''>='', ''<='', ''>'', ''<'']"

fun try_ops :: "string list \<Rightarrow> string \<Rightarrow> (string \<times> string \<times> string) option" where
  "try_ops [] c = None"
| "try_ops (op # ops) c = (case str_find c op of
      None \<Rightarrow> try_ops ops c
    | Some pos \<Rightarrow>
        (let var = trim (take pos c); val = trim (drop (pos + length op) c)
         in if var \<noteq> [] \<and> val \<noteq> [] then Some (var, op, val) else try_ops ops c))"

definition parse_condition :: "string \<Rightarrow> (string \<times> string \<times> string) option" where
  "parse_condition c = try_ops condition_ops c"

section \<open>Evaluation\<close>

text \<open>The end of \<open>eval_condition\<close>: the rendered value against the expected text.\<close>

definition condition_met :: "string \<Rightarrow> string \<Rightarrow> string \<Rightarrow> bool" where
  "condition_met op actual expected =
     (let a = trim_quotes actual; e = trim_quotes expected;
          num = (\<lambda>cmp. case (parse_f64 a, parse_f64 e) of (Some x, Some y) \<Rightarrow> cmp x y | _ \<Rightarrow> False)
      in if op = ''=='' then a = e
         else if op = ''!='' then a \<noteq> e
         else if op = ''>'' then num (\<lambda>x y. f64_lt y x)
         else if op = ''<'' then num f64_lt
         else if op = ''>='' then num (\<lambda>x y. f64_le y x)
         else if op = ''<='' then num f64_le
         else a = e)"

text \<open>
  The value the condition is about: the variable of that name in scope in the top frame of the
  thread. \<open>None\<close> on any failed exchange, missing frame, variable or value.
\<close>

definition condition_value ::
    "thread_id \<Rightarrow> string \<Rightarrow> 'w connection \<Rightarrow> jvalue option \<times> 'w connection" where
  "condition_value t name c =
     (case get_frames t 0 1 c of
        (Inr (f # _), c) \<Rightarrow>
          (case get_variable_table (class_id (fr_location f)) (method_id (fr_location f)) c of
             (Inr vt, c) \<Rightarrow>
               (case find_variable (loc_index (fr_location f)) name vt of
                  None \<Rightarrow> (None, c)
                | Some v \<Rightarrow>
                    (case get_frame_values t (fr_id f) [slot_of v] c of
                       (Inr (x # _), c) \<Rightarrow> (Some x, c)
                     | (_, c) \<Rightarrow> (None, c)))
           | (_, c) \<Rightarrow> (None, c))
      | (_, c) \<Rightarrow> (None, c))"

text \<open>\<open>True\<close>: the condition is not met and the stop is skipped.\<close>

definition eval_condition ::
    "float_text \<Rightarrow> thread_id \<Rightarrow> string \<Rightarrow> string \<Rightarrow> string \<Rightarrow> 'w connection \<Rightarrow> bool \<times> 'w connection" where
  "eval_condition ft t name op expected c =
     (case condition_value t name c of
        (None, c) \<Rightarrow> (False, c)
      | (Some v, c) \<Rightarrow> (\<not> condition_met op (format_compact ft (vdata v)) expected, c))"

section \<open>What the parser accepts\<close>

definition op_char :: "char \<Rightarrow> bool" where
  "op_char c \<longleftrightarrow> c \<in> set ''=!<>''"

lemma str_find_absent: "p \<noteq> [] \<Longrightarrow> c \<in> set p \<Longrightarrow> c \<notin> set s \<Longrightarrow> str_find s p = None"
  by (auto simp: str_find_None)

text \<open>The first place an operator can match is where the operator characters are.\<close>

lemma str_find_skip:
  assumes "p \<noteq> []" and "\<forall>c \<in> set a. c \<noteq> hd p"
  shows "str_find (a @ s) p = map_option ((+) (length a)) (str_find s p)"
  using assms(2)
proof (induction a)
  case Nil
  then show ?case by (simp add: option.map_ident)
next
  case (Cons c a)
  then have "\<not> starts_with (c # a @ s) p"
    using assms(1) by (cases p) (auto simp: starts_with_def)
  with Cons show ?case
    by (simp add: option.map_comp comp_def)
qed

lemma str_find_prefix: "str_find (p @ s) p = Some 0"
proof (cases "p @ s")
  case Nil
  then show ?thesis by simp
next
  case (Cons c t)
  then have "starts_with (c # t) p"
    unfolding starts_with_iff by metis
  with Cons show ?thesis by simp
qed

lemma op_chars: "op \<in> set condition_ops \<Longrightarrow> op \<noteq> [] \<and> (\<forall>c \<in> set op. op_char c)"
  by (auto simp: condition_ops_def op_char_def)

lemma str_find_op:
  assumes "op \<in> set condition_ops" and "\<forall>c \<in> set a. \<not> op_char c"
  shows "str_find (a @ op @ b) op = Some (length a)"
proof -
  have "\<forall>c \<in> set a. c \<noteq> hd op"
    using assms op_chars by (metis hd_in_set)
  with assms op_chars show ?thesis
    by (simp add: str_find_skip str_find_prefix)
qed

text \<open>Earlier operators in the list do not occur in a text whose only operator is a later one.\<close>

lemma str_find_plain: "\<forall>c \<in> set b. \<not> op_char c \<Longrightarrow> p \<noteq> [] \<Longrightarrow> \<forall>c \<in> set p. op_char c \<Longrightarrow> str_find b p = None"
  by (force simp: str_find_None dest: hd_in_set)

lemma str_find_other:
  assumes "q \<in> set condition_ops" and "p \<in> set condition_ops"
    and "\<forall>c \<in> set a. \<not> op_char c" and "\<forall>c \<in> set b. \<not> op_char c"
    and "str_find q p = None"
  shows "str_find (a @ q @ b) p = None"
proof -
  have p: "p \<noteq> []" "\<forall>c \<in> set p. op_char c"
    using op_chars [OF assms(2)] by auto
  have "\<forall>c \<in> set a. c \<noteq> hd p"
    using p assms(3) by (metis hd_in_set)
  moreover have "str_find (q @ b) p = None"
  proof (rule ccontr)
    assume "str_find (q @ b) p \<noteq> None"
    then obtain x y where "q @ b = (x @ p) @ y"
      by (auto simp: str_find_None)
    then consider z where "q = (x @ p) @ z" | z where "q @ z = x @ p" "b = z @ y" "z \<noteq> []"
      by (metis append_eq_append_conv2 append_Nil2)
    then show False
    proof cases
      case 1
      with assms(5) show False
        by (auto simp: str_find_None)
    next
      case 2
      then have "last z = last p"
        using p(1) by (metis last_appendR)
      with 2 have "last p \<in> set b"
        by (metis Un_iff last_in_set set_append)
      with assms(4) p show False
        by (metis last_in_set)
    qed
  qed
  ultimately show ?thesis
    using p(1) by (simp add: str_find_skip)
qed

text \<open>A condition with one operator splits there, both sides trimmed.\<close>

lemma parse_condition_op:
  assumes "op \<in> set condition_ops"
    and "\<forall>c \<in> set a. \<not> op_char c" and "\<forall>c \<in> set b. \<not> op_char c"
    and "trim a \<noteq> []" and "trim b \<noteq> []"
  shows "parse_condition (a @ op @ b) = Some (trim a, op, trim b)"
proof -
  have here: "str_find (a @ op @ b) op = Some (length a)"
    using assms by (simp add: str_find_op)
  have other: "str_find op p = None \<Longrightarrow> p \<in> set condition_ops \<Longrightarrow> str_find (a @ op @ b) p = None" for p
    using assms str_find_other by blast
  consider "op = ''==''" | "op = ''!=''" | "op = ''>=''" | "op = ''<=''" | "op = ''>''" | "op = ''<''"
    using assms(1) by (auto simp: condition_ops_def)
  then show ?thesis
    using here other assms(4,5)
    by cases (simp_all add: parse_condition_def condition_ops_def starts_with_def Let_def)
qed

lemma parse_condition_none:
  assumes "\<forall>c \<in> set s. \<not> op_char c"
  shows "parse_condition s = None"
proof -
  have "str_find s p = None" if "p \<in> set condition_ops" for p
    using str_find_plain [OF assms] op_chars [OF that] by blast
  then show ?thesis
    by (simp add: parse_condition_def condition_ops_def)
qed

section \<open>What the comparison decides\<close>

lemma show_int_ends:
  "show_int i \<noteq> [] \<and> hd (show_int i) \<noteq> CHR 0x22 \<and> last (show_int i) \<noteq> CHR 0x22"
proof -
  have d: "is_digit (last (show_nat n))" for n
    using show_nat_digits [of n] by (metis last_in_set list_all_iff show_nat_nonempty)
  have "\<not> is_digit (CHR 0x22)"
    by (simp add: is_digit_def digit_val_def)
  with d hd_show_nat have "hd (show_nat n) \<noteq> CHR 0x22" "last (show_nat n) \<noteq> CHR 0x22" for n
    by metis+
  then show ?thesis
    by (simp add: show_int_def)
qed

lemma trim_quotes_int [simp]: "trim_quotes (show_int i) = show_int i"
  unfolding trim_quotes_def using show_int_ends by (intro trim_list_fixed) auto

text \<open>For integers whose size is below \<open>2 ^ 53\<close> the order comparisons are those of the integers.\<close>

lemma condition_met_int:
  assumes "\<bar>i\<bar> < 2 ^ 53" and "\<bar>j\<bar> < 2 ^ 53"
  shows "condition_met ''>'' (show_int i) (show_int j) \<longleftrightarrow> j < i"
    and "condition_met ''<'' (show_int i) (show_int j) \<longleftrightarrow> i < j"
    and "condition_met ''>='' (show_int i) (show_int j) \<longleftrightarrow> j \<le> i"
    and "condition_met ''<='' (show_int i) (show_int j) \<longleftrightarrow> i \<le> j"
  using assms by (simp_all add: condition_met_def Let_def parse_f64_int f64_int_order)

lemma show_int_inj:
  assumes "\<bar>i\<bar> < 2 ^ 53" and "\<bar>j\<bar> < 2 ^ 53" and "show_int i = show_int j"
  shows "i = j"
proof -
  have "int_f64 i = int_f64 j"
    using parse_f64_int [OF assms(1)] parse_f64_int [OF assms(2)] assms(3) by simp
  then show ?thesis
    using f64_key_less [OF assms(1,2)] f64_key_less [OF assms(2,1)] by auto
qed

lemma condition_met_int_eq:
  assumes "\<bar>i\<bar> < 2 ^ 53" and "\<bar>j\<bar> < 2 ^ 53"
  shows "condition_met ''=='' (show_int i) (show_int j) \<longleftrightarrow> i = j"
    and "condition_met ''!='' (show_int i) (show_int j) \<longleftrightarrow> i \<noteq> j"
  using show_int_inj [OF assms] by (auto simp: condition_met_def Let_def)

text \<open>The comparisons as the integers have them.\<close>

definition int_cmp :: "string \<Rightarrow> int \<Rightarrow> int \<Rightarrow> bool" where
  "int_cmp op i j = (if op = ''=='' then i = j else if op = ''!='' then i \<noteq> j
     else if op = ''>'' then j < i else if op = ''<'' then i < j
     else if op = ''>='' then j \<le> i else if op = ''<='' then i \<le> j else i = j)"

lemma condition_met_int_cmp:
  assumes "op \<in> set condition_ops" and "\<bar>i\<bar> < 2 ^ 53" and "\<bar>j\<bar> < 2 ^ 53"
  shows "condition_met op (show_int i) (show_int j) = int_cmp op i j"
  using assms condition_met_int [OF assms(2,3)] condition_met_int_eq [OF assms(2,3)]
  by (auto simp: condition_ops_def int_cmp_def)

text \<open>A \<open>long\<close> is rendered with a trailing \<open>L\<close>: it equals no decimal literal and has no number.\<close>

lemma long_last: "last (show_signed v @ ''L'') = CHR ''L''"
  by simp

lemma trim_quotes_long [simp]: "trim_quotes (show_signed v @ ''L'') = show_signed v @ ''L''"
  unfolding trim_quotes_def
proof (rule trim_list_fixed, rule disjI2, rule conjI)
  show "\<not> hd (show_signed v @ ''L'') = CHR 0x22"
    using show_int_ends [of "sint v"] by (simp add: show_signed_def)
qed simp

lemma int_last: "is_digit (last (show_int i))"
proof -
  have "is_digit (last (show_nat n))" for n
    using show_nat_digits [of n] by (metis last_in_set list_all_iff show_nat_nonempty)
  then show ?thesis by (simp add: show_int_def)
qed

lemma long_not_int: "show_signed v @ ''L'' \<noteq> show_int j"
proof
  assume "show_signed v @ ''L'' = show_int j"
  then have "is_digit (CHR ''L'')"
    using int_last [of j] long_last by metis
  then show False
    by (simp add: is_digit_def digit_val_def)
qed

lemma parse_number_long: "parse_number (show_nat n @ ''L'') = None"
proof -
  have d: "takeWhile is_digit (show_nat n @ ''L'') = show_nat n"
    "dropWhile is_digit (show_nat n @ ''L'') = ''L''"
    using show_nat_digits [of n]
    by (simp_all add: takeWhile_append2 dropWhile_append2 list_all_iff is_digit_def digit_val_def)
  show ?thesis
    by (simp add: parse_number_def Let_def d ascii_lower_def)
qed

lemma lower_L: "ascii_lower (CHR ''L'') = CHR ''l''"
  by code_simp

lemma parse_f64_long: "parse_f64 (show_signed v @ ''L'') = None"
proof -
  have w: "map ascii_lower (show_nat n @ ''L'') \<notin> {''inf'', ''infinity'', ''nan''}" for n
  proof -
    have "last (map ascii_lower (show_nat n @ ''L'')) = CHR ''l''"
      by (simp add: lower_L)
    then show ?thesis by auto
  qed
  have s: "split_sign (show_nat n @ ''L'') = (False, show_nat n @ ''L'')" for n
  proof -
    obtain c r where c: "show_nat n = c # r"
      using show_nat_nonempty by (meson neq_Nil_conv)
    with split_sign_show [of n] show ?thesis
      by (auto split: if_splits)
  qed
  show ?thesis
  proof (cases "sint v < 0")
    case True
    with w [of "nat (- sint v)"] show ?thesis
      by (simp add: show_signed_def show_int_def parse_f64_def Let_def parse_number_long)
  next
    case False
    with w [of "nat (sint v)"] show ?thesis
      by (simp add: show_signed_def show_int_def parse_f64_def Let_def parse_number_long s)
  qed
qed

lemma condition_met_long:
  "op \<in> set condition_ops \<Longrightarrow> condition_met op (show_signed v @ ''L'') (show_int j) \<longleftrightarrow> op = ''!=''"
  using long_not_int [of v j] by (auto simp: condition_ops_def condition_met_def Let_def parse_f64_long)

end
