(* ===== verification/Breakpoints.thy ===== *)
theory Breakpoints
  imports Jvm Conditions
begin

text \<open>
  The tools of \<open>mcp-server/src/handlers.rs\<close> that arm and disarm event requests at program points:
  line breakpoints with their table in the session, exception breakpoints and field watches.
  The order in which \<open>values()\<close> of a \<open>HashMap\<close> is listed is that of the association list.
\<close>

section \<open>Choosing the location\<close>

text \<open>The inner loop: the first method, of the hinted name if any, with an entry for the line.\<close>

fun line_in_methods ::
    "reference_type_id \<Rightarrow> string option \<Rightarrow> i32 \<Rightarrow> method_info list
     \<Rightarrow> ('w debug_session, string, (method_info \<times> u64) option) eff" where
  "line_in_methods c hint line [] = ereturn None"
| "line_in_methods c hint line (m # ms) =
     (if hint \<noteq> None \<and> hint \<noteq> Some (mi_name m) then line_in_methods c hint line ms
      else ebind (attempt (get_line_table c (mi_id m))) (\<lambda>lt.
        case Option.bind lt (\<lambda>lt. find (\<lambda>e. line_number e = line) (lines lt)) of
          Some e \<Rightarrow> ereturn (Some (m, line_code_index e))
        | None \<Rightarrow> line_in_methods c hint line ms))"

fun choose_location ::
    "string option \<Rightarrow> i32 \<Rightarrow> class_info list
     \<Rightarrow> ('w debug_session, string, (class_info \<times> method_info \<times> u64) option) eff" where
  "choose_location hint line [] = ereturn None"
| "choose_location hint line (c # cs) =
     ebind (on_conn_err ''Failed to get methods'' (get_methods (type_id c))) (\<lambda>methods.
     ebind (line_in_methods (type_id c) hint line methods) (\<lambda>found.
       case found of Some (m, ix) \<Rightarrow> ereturn (Some (c, m, ix)) | None \<Rightarrow> choose_location hint line cs))"

section \<open>The message when no method contains the line\<close>

definition hidden_method :: "method_info \<Rightarrow> bool" where
  "hidden_method m \<longleftrightarrow> CHR ''$'' \<in> set (mi_name m) \<or> mi_mod_bits m AND 0x1040 \<noteq> 0"

definition line_range :: "line_table option \<Rightarrow> (i32 \<times> i32) option" where
  "line_range lt = (case lt of
      None \<Rightarrow> None
    | Some lt \<Rightarrow> if lines lt = [] then None
        else Some (line_number (hd (lines lt)), line_number (last (lines lt))))"

definition method_hint :: "reference_type_id \<Rightarrow> method_info \<Rightarrow> ('w debug_session, string, string) eff" where
  "method_hint c m =
     (if hidden_method m then ereturn []
      else ebind (attempt (get_line_table c (mi_id m))) (\<lambda>lt.
        ereturn (case line_range lt of
            None \<Rightarrow> []
          | Some (a, b) \<Rightarrow> ''  '' @ mi_name m @ '':'' @ show_signed a @ ''-'' @ show_signed b @ nl)))"

definition class_hint :: "class_info \<Rightarrow> ('w debug_session, string, string) eff" where
  "class_hint c =
     ebind (attempt (get_methods (type_id c))) (\<lambda>methods.
       case methods of
         None \<Rightarrow> ereturn []
       | Some ms \<Rightarrow> ebind (emap (method_hint (type_id c)) ms) (\<lambda>hs. ereturn (concat hs)))"

definition no_line_hint :: "i32 \<Rightarrow> string \<Rightarrow> class_info list \<Rightarrow> ('w debug_session, string, string) eff" where
  "no_line_hint line pattern classes =
     ebind (emap class_hint classes) (\<lambda>hs.
       ereturn (''No method containing line '' @ show_signed line @ '' in '' @ pattern
         @ ''. Available methods:'' @ nl @ concat hs))"

section \<open>Setting a breakpoint\<close>

definition bp_key :: "i32 \<Rightarrow> string" where
  "bp_key rid = ''bp_'' @ show_signed rid"

text \<open>\<open>all_classes().map(|c| c.len()).unwrap_or(0)\<close>.\<close>

definition loaded_count :: "('w debug_session, string, nat) eff" where
  "loaded_count = ebind (attempt all_classes) (\<lambda>cs. ereturn (case cs of None \<Rightarrow> 0 | Some cs \<Rightarrow> length cs))"

text \<open>
  The condition is checked after the request was armed in the JVM; on a condition that does not
  parse the handler leaves without recording the breakpoint.
\<close>

definition check_condition :: "string option \<Rightarrow> ('w debug_session, string, unit) eff" where
  "check_condition cond = (case cond of
      None \<Rightarrow> ereturn ()
    | Some t \<Rightarrow>
        if parse_condition t = None
        then efail (''invalid condition '' @ quote @ t @ quote
          @ '', expected: var==value, var!=value, var>N, var<N, var>=N, var<=N'')
        else ereturn ())"

definition new_breakpoint ::
    "string \<Rightarrow> i32 \<Rightarrow> string option \<Rightarrow> string \<Rightarrow> i32 \<Rightarrow> breakpoint_info" where
  "new_breakpoint pattern line cond method rid =
     \<lparr>bp_id = bp_key rid, bp_request_id = rid, class_pattern = pattern, bp_line = line,
      bp_method = Some method, enabled = True, hit_count = 0, condition = cond\<rparr>"

definition record_breakpoint :: "breakpoint_info \<Rightarrow> ('w debug_session, string, unit) eff" where
  "record_breakpoint bp =
     eset (\<lambda>s. s\<lparr>breakpoints := AList.update (bp_id bp) bp (breakpoints s)\<rparr>)"

definition place_breakpoint ::
    "string \<Rightarrow> i32 \<Rightarrow> string option \<Rightarrow> string option \<Rightarrow> ('w debug_session, string, string) eff" where
  "place_breakpoint pattern line hint cond =
     ebind (resolve_classes pattern) (\<lambda>classes.
       if classes = []
       then ebind loaded_count (\<lambda>total.
         efail (''Class not found: '' @ pattern @ '' ('' @ show_nat total
           @ '' classes loaded). Try full package name or use debug.wait_for_class.''))
       else ebind (choose_location hint line classes) (\<lambda>chosen.
         case chosen of
           None \<Rightarrow> ebind (no_line_hint line pattern classes) efail
         | Some (c, m, ix) \<Rightarrow>
             ebind (on_conn_err ''Failed to set breakpoint'' (set_breakpoint (type_id c) (mi_id m) ix SuspendAll)) (\<lambda>rid.
             ebind (check_condition cond) (\<lambda>_.
             ebind (record_breakpoint (new_breakpoint pattern line cond (mi_name m) rid)) (\<lambda>_.
               ereturn (''bp '' @ bp_key rid @ '' at '' @ pattern @ '':'' @ show_signed line @ '' class=''
                 @ ci_signature c @ '' method='' @ mi_name m
                 @ (case cond of None \<Rightarrow> [] | Some t \<Rightarrow> '' if '' @ t)))))))"

definition handle_set_breakpoint ::
    "'j json_api \<Rightarrow> 'j \<Rightarrow> ('w session_manager, string, string) eff" where
  "handle_set_breakpoint api args =
     ebind (eoption (missing_parameter ''class_pattern'') (arg_str api args ''class_pattern'')) (\<lambda>pattern.
     ebind (eoption (missing_parameter ''line'') (arg_i64 api args ''line'')) (\<lambda>line.
       with_session_or ''No active debug session. Use debug.attach first.''
         (place_breakpoint pattern (ucast line) (arg_str api args ''method'') (arg_str api args ''condition''))))"

section \<open>Listing and clearing\<close>

definition breakpoint_line :: "breakpoint_info \<Rightarrow> string" where
  "breakpoint_line bp = (if enabled bp then ''+'' else ''-'') @ '' '' @ bp_id bp @ '' '' @ class_pattern bp
     @ '':'' @ show_unsigned (bp_line bp) @ '' '' @ or_default [] (bp_method bp) @ nl"

definition step_line :: "step_request_info \<Rightarrow> string" where
  "step_line st = ''step '' @ st_depth st @ '' thread=0x'' @ show_hex (st_thread_id st)
     @ '' req='' @ show_signed (st_request_id st) @ nl"

definition breakpoint_listing :: "'w debug_session \<Rightarrow> string" where
  "breakpoint_listing s =
     (if breakpoints s = [] \<and> active_step s = None then ''no breakpoints''
      else show_nat (length (breakpoints s)) @ '' breakpoints:'' @ nl
        @ concat (map (breakpoint_line \<circ> snd) (breakpoints s))
        @ (case active_step s of None \<Rightarrow> [] | Some st \<Rightarrow> step_line st))"

definition handle_list_breakpoints :: "('w session_manager, string, string) eff" where
  "handle_list_breakpoints = with_session (eget breakpoint_listing)"

definition drop_breakpoint :: "string \<Rightarrow> ('w debug_session, string, string) eff" where
  "drop_breakpoint key s = (case map_of (breakpoints s) key of
      None \<Rightarrow> (Inl (''Breakpoint not found: '' @ key), s)
    | Some bp \<Rightarrow>
        ebind (on_conn_err ''Failed to clear breakpoint'' (clear_breakpoint (bp_request_id bp))) (\<lambda>_.
        ebind (eset (\<lambda>s. s\<lparr>breakpoints := AList.delete key (breakpoints s)\<rparr>)) (\<lambda>_.
          ereturn (''cleared '' @ key @ '' '' @ class_pattern bp @ '':'' @ show_unsigned (bp_line bp)))) s)"

definition handle_clear_breakpoint ::
    "'j json_api \<Rightarrow> 'j \<Rightarrow> ('w session_manager, string, string) eff" where
  "handle_clear_breakpoint api args =
     ebind (eoption (missing_parameter ''breakpoint_id'') (arg_str api args ''breakpoint_id''))
       (\<lambda>key. with_session (drop_breakpoint key))"

section \<open>Exception breakpoints and field watches\<close>

text \<open>Their requests are not recorded in the session.\<close>

definition place_exception_breakpoint ::
    "string option \<Rightarrow> bool \<Rightarrow> bool \<Rightarrow> ('w debug_session, string, string) eff" where
  "place_exception_breakpoint pattern caught uncaught =
     ebind (case pattern of
         None \<Rightarrow> ereturn 0
       | Some p \<Rightarrow> ebind (resolve_classes p) (\<lambda>cs.
           case cs of [] \<Rightarrow> efail (''class not found: '' @ p) | c # _ \<Rightarrow> ereturn (type_id c))) (\<lambda>cid.
     ebind (on_conn_err ''Failed to set exception breakpoint''
         (set_exception_breakpoint cid caught uncaught SuspendAll)) (\<lambda>rid.
       ereturn (''exception bp req='' @ show_signed rid @ '' class='' @ or_default ''*'' pattern @ '' scope=''
         @ (if caught \<and> uncaught then ''caught+uncaught'' else if caught then ''caught''
            else if uncaught then ''uncaught'' else ''none''))))"

definition handle_exception_breakpoint ::
    "'j json_api \<Rightarrow> 'j \<Rightarrow> ('w session_manager, string, string) eff" where
  "handle_exception_breakpoint api args =
     with_session (place_exception_breakpoint (arg_str api args ''class_pattern'')
       (or_default True (arg_bool api args ''caught'')) (or_default True (arg_bool api args ''uncaught'')))"

definition place_watch :: "string \<Rightarrow> string \<Rightarrow> ('w debug_session, string, string) eff" where
  "place_watch pattern name =
     ebind (resolve_classes pattern) (\<lambda>classes.
       case classes of
         [] \<Rightarrow> efail (''class not found: '' @ pattern)
       | c # _ \<Rightarrow>
           ebind (on_conn_err ''Failed to get fields'' (get_fields (type_id c))) (\<lambda>fields.
           ebind (eoption (''field '' @ quote @ name @ quote @ '' not found'')
               (find (\<lambda>f. fi_name f = name) fields)) (\<lambda>f.
           ebind (on_conn_err ''Failed to set watchpoint'' (set_field_watch (type_id c) (fi_id f) SuspendAll)) (\<lambda>rid.
             ereturn (''watch req='' @ show_signed rid @ '' '' @ pattern @ ''.'' @ name @ '' (on modification)'')))))"

definition handle_watch :: "'j json_api \<Rightarrow> 'j \<Rightarrow> ('w session_manager, string, string) eff" where
  "handle_watch api args =
     ebind (eoption (missing ''class_pattern'') (arg_str api args ''class_pattern'')) (\<lambda>pattern.
     ebind (eoption (missing ''field'') (arg_str api args ''field'')) (\<lambda>name.
       with_session (place_watch pattern name)))"

section \<open>The table of breakpoints\<close>

text \<open>Every entry stands under the key made of its request id, and no key occurs twice.\<close>

definition table_inv :: "(string \<times> breakpoint_info) list \<Rightarrow> bool" where
  "table_inv bps \<longleftrightarrow> distinct (map fst bps)
     \<and> (\<forall>(k, bp) \<in> set bps. k = bp_id bp \<and> bp_id bp = bp_key (bp_request_id bp))"

definition table_requests :: "(string \<times> breakpoint_info) list \<Rightarrow> i32 set" where
  "table_requests bps = bp_request_id ` snd ` set bps"

lemma show_signed_i32_inj: "show_signed (a :: i32) = show_signed b \<longleftrightarrow> a = b"
proof
  have bound: "\<bar>sint x\<bar> < 2 ^ 53" for x :: i32
    using sint_lt [of x] sint_ge [of x] by simp
  assume "show_signed a = show_signed b"
  then show "a = b"
    using show_int_inj [OF bound bound, of a b] by (simp add: show_signed_def signed_word_eqI)
qed simp

lemma bp_key_inj [simp]: "bp_key a = bp_key b \<longleftrightarrow> a = b"
  by (simp add: bp_key_def show_signed_i32_inj)

lemma table_inv_nil: "table_inv []"
  by (simp add: table_inv_def)

lemma table_inv_insert:
  assumes "table_inv bps" and "bp_id bp = bp_key (bp_request_id bp)"
  shows "table_inv (AList.update (bp_id bp) bp bps)"
proof -
  have "k = bp_id b \<and> bp_id b = bp_key (bp_request_id b)"
    if "(k, b) \<in> set (AList.update (bp_id bp) bp bps)" for k b
  proof -
    from that have "(k, b) \<in> insert (bp_id bp, bp) (set bps)"
      using set_alist_update by fast
    then consider "k = bp_id bp" "b = bp" | "(k, b) \<in> set bps" by auto
    then show ?thesis
      using assms by cases (auto simp: table_inv_def)
  qed
  moreover have "distinct (map fst (AList.update (bp_id bp) bp bps))"
    using assms(1) by (simp add: table_inv_def AList.distinct_update)
  ultimately show ?thesis
    unfolding table_inv_def by blast
qed

lemma table_inv_delete: "table_inv bps \<Longrightarrow> table_inv (AList.delete k bps)"
  by (auto simp: table_inv_def AList.delete_eq distinct_map_filter)

text \<open>The entry with a request id is found under its key, in whatever order the table is searched.\<close>

lemma table_find:
  assumes "table_inv bps"
  shows "find (\<lambda>bp. bp_request_id bp = rid) (map snd bps) = map_of bps (bp_key rid)"
  using assms
proof (induction bps)
  case Nil
  then show ?case by simp
next
  case (Cons e bps)
  then show ?case by (cases e) (auto simp: table_inv_def)
qed

lemma table_requests_iff:
  "table_inv bps \<Longrightarrow> rid \<in> table_requests bps \<longleftrightarrow> map_of bps (bp_key rid) \<noteq> None"
  by (force simp: table_requests_def table_inv_def map_of_eq_None_iff image_iff)

lemma table_requests_insert:
  assumes "table_inv bps" and "bp_id bp = bp_key (bp_request_id bp)"
  shows "table_requests (AList.update (bp_id bp) bp bps) = insert (bp_request_id bp) (table_requests bps)"
  using assms table_inv_insert [OF assms]
  by (auto simp: table_requests_iff AList.update_conv' split: if_splits)

lemma table_requests_delete:
  "table_inv bps \<Longrightarrow> table_requests (AList.delete (bp_key rid) bps) = table_requests bps - {rid}"
  using table_inv_delete [of bps "bp_key rid"]
  by (auto simp: table_requests_iff AList.delete_conv' split: if_splits)

section \<open>What setting and clearing do\<close>

text \<open>
  Before the request is sent the tool only reads; afterwards either the breakpoint is recorded, or
  the condition was rejected and the request stays armed with no entry.
\<close>

lemma reads_line_in_methods [keeps_intros]: "keeps reads (line_in_methods c hint line ms)"
  by (induction c hint line ms rule: line_in_methods.induct)
    (auto intro!: keeps_intros asks_ops split: option.split)

lemma reads_choose_location [keeps_intros]: "keeps reads (choose_location hint line cs)"
  by (induction hint line cs rule: choose_location.induct)
    (auto intro!: keeps_intros asks_ops split: option.split)

lemma reads_no_line_hint [keeps_intros]: "keeps reads (no_line_hint line pat cs)"
  unfolding no_line_hint_def class_hint_def method_hint_def
  by (auto intro!: keeps_intros asks_ops split: option.split)

lemma reads_loaded_count [keeps_intros]: "keeps reads loaded_count"
  unfolding loaded_count_def by (auto intro!: keeps_intros asks_ops)

definition bp_armed :: "('w \<Rightarrow> (u8 \<times> i32) set) \<Rightarrow> 'w debug_session \<Rightarrow> i32 set" where
  "bp_armed armed s = {rid. (EK_BREAKPOINT, rid) \<in> armed (peer (conn s))}"

lemma reads_armed:
  "reads s s' \<Longrightarrow> jvm_contract (loop_send (conn s)) armed \<Longrightarrow>
     armed (peer (conn s')) = armed (peer (conn s)) \<and> jvm_contract (loop_send (conn s')) armed
     \<and> loop_send (conn s') = loop_send (conn s) \<and> breakpoints s' = breakpoints s"
  unfolding reads_def by (elim exE conjE) (drule asks_quiet [where armed = armed], simp add: quiet_def)

text \<open>How a call of \<open>debug.set_breakpoint\<close> can end.\<close>

definition condition_ok :: "string option \<Rightarrow> bool" where
  "condition_ok cond \<longleftrightarrow> (case cond of None \<Rightarrow> True | Some t \<Rightarrow> parse_condition t \<noteq> None)"

definition after_set ::
    "string \<Rightarrow> i32 \<Rightarrow> string option \<Rightarrow> method_info \<Rightarrow> jdwp_error + i32 \<Rightarrow> 'w connection
     \<Rightarrow> 'w debug_session \<Rightarrow> 'w debug_session" where
  "after_set pattern line cond m q c t = (case q of
      Inr rid \<Rightarrow> if condition_ok cond
        then t\<lparr>conn := c, breakpoints := AList.update (bp_key rid)
               (new_breakpoint pattern line cond (mi_name m) rid) (breakpoints t)\<rparr>
        else t\<lparr>conn := c\<rparr>
    | Inl _ \<Rightarrow> t\<lparr>conn := c\<rparr>)"

lemma set_and_record:
  assumes "ebind (on_conn_err ''Failed to set breakpoint'' m) (\<lambda>rid.
             ebind (check_condition cond) (\<lambda>_.
             ebind (record_breakpoint (new_breakpoint pattern line cond (mi_name mi) rid)) (\<lambda>_.
               ereturn (msg rid)))) t = (r, s')"
    and "m (conn t) = (q, c)"
  shows "s' = after_set pattern line cond mi q c t
    \<and> ((\<exists>x. r = Inr x) \<longleftrightarrow> (\<exists>rid. q = Inr rid) \<and> condition_ok cond)"
proof (cases q)
  case (Inl e)
  with assms show ?thesis
    by (auto simp: ebind_def on_conn_err_def after_set_def)
next
  case (Inr rid)
  with assms show ?thesis
    by (auto simp: ebind_def on_conn_err_def after_set_def check_condition_def condition_ok_def
        record_breakpoint_def eset_def ereturn_def efail_def new_breakpoint_def split: option.splits if_splits)
qed

lemma place_breakpoint_cases:
  assumes "place_breakpoint pattern line hint cond s = (r, s')"
  obtains e where "r = Inl e" and "reads s s'"
    | t m ix q c and cls :: class_info where "reads s t"
      and "set_breakpoint (type_id cls) (mi_id m) ix SuspendAll (conn t) = (q, c)"
      and "s' = after_set pattern line cond m q c t"
      and "(\<exists>x. r = Inr x) \<longleftrightarrow> (\<exists>rid. q = Inr rid) \<and> condition_ok cond"
  using assms unfolding place_breakpoint_def
proof (cases rule: ebind_reads [OF _ reads_resolve_classes reads_refl, consumes 1, case_names err classes])
  case err
  with that(1) show thesis by blast
next
  case (classes classes s1)
  show thesis
  proof (cases "classes = []")
    case True
    with classes(1) have "ebind loaded_count (\<lambda>total. efail (''Class not found: '' @ pattern @ '' (''
      @ show_nat total @ '' classes loaded). Try full package name or use debug.wait_for_class.'')) s1 = (r, s')"
      by simp
    from ebind_reads [OF this reads_loaded_count classes(2)] that(1) show thesis
      by (auto simp: efail_def)
  next
    case False
    note rest = classes(1) [simplified False if_False]
    from rest show thesis
    proof (cases rule: ebind_reads [OF _ reads_choose_location classes(2), consumes 1, case_names err chosen])
      case err
      with that(1) show thesis by blast
    next
      case (chosen chosen s2)
      show thesis
      proof (cases chosen)
        case None
        with chosen(1) have "ebind (no_line_hint line pattern classes) efail s2 = (r, s')" by simp
        from ebind_reads [OF this reads_no_line_hint chosen(2)] that(1) show thesis
          by (auto simp: efail_def)
      next
        case (Some l)
        obtain c m ix where l: "l = (c, m, ix)" by (cases l)
        obtain q c' where q: "set_breakpoint (type_id c) (mi_id m) ix SuspendAll (conn s2) = (q, c')" by force
        note ended = set_and_record [OF chosen(1) [unfolded Some l, simplified] q]
        show thesis
          by (rule that(2) [OF chosen(2) q]) (use ended in blast)+
      qed
    qed
  qed
qed

text \<open>
  On a JVM that keeps the contract: a breakpoint set successfully is a new request, armed and
  entered under its key, and the table otherwise stays; a failed call leaves the table alone and
  disarms nothing.
\<close>

lemma place_breakpoint_ledger:
  assumes "jvm_contract (loop_send (conn s)) armed" and "table_inv (breakpoints s)"
    and "place_breakpoint pattern line hint cond s = (r, s')"
  shows "table_inv (breakpoints s') \<and> bp_armed armed s \<subseteq> bp_armed armed s'
    \<and> loop_send (conn s') = loop_send (conn s)
    \<and> (case r of
         Inl _ \<Rightarrow> breakpoints s' = breakpoints s
       | Inr _ \<Rightarrow> \<exists>rid. rid \<notin> bp_armed armed s
           \<and> bp_armed armed s' = insert rid (bp_armed armed s)
           \<and> table_requests (breakpoints s') = insert rid (table_requests (breakpoints s)))"
  using assms(3)
proof (cases rule: place_breakpoint_cases)
  case (1 e)
  with reads_armed [OF 1(2) assms(1)] assms(2) show ?thesis
    by (simp add: bp_armed_def)
next
  case (2 t m ix q c cls)
  from reads_armed [OF 2(1) assms(1)] have t: "armed (peer (conn t)) = armed (peer (conn s))"
    "jvm_contract (loop_send (conn t)) armed" "loop_send (conn t) = loop_send (conn s)"
    "breakpoints t = breakpoints s" by auto
  have a: "armed_after armed EK_BREAKPOINT (conn t) q c"
    using set_arms [OF t(2), of EK_BREAKPOINT] 2(2)
    unfolding set_breakpoint_def set_breakpoint_body_def put_u8_def append_Cons append_Nil by blast
  show ?thesis
  proof (cases "condition_ok cond \<and> (\<exists>rid. q = Inr rid)")
    case True
    then obtain rid where q: "q = Inr rid" "condition_ok cond" by blast
    with 2(4) obtain x where r: "r = Inr x" by blast
    have "bp_id (new_breakpoint pattern line cond (mi_name m) rid) = bp_key rid"
      "bp_request_id (new_breakpoint pattern line cond (mi_name m) rid) = rid"
      by (simp_all add: new_breakpoint_def)
    with q r a t assms(2) 2(3) show ?thesis
      using table_inv_insert [OF assms(2), of "new_breakpoint pattern line cond (mi_name m) rid"]
        table_requests_insert [OF assms(2), of "new_breakpoint pattern line cond (mi_name m) rid"]
      by (auto simp: after_set_def armed_after_def bp_armed_def)
  next
    case False
    with 2(4) obtain e where r: "r = Inl e" by (cases r) auto
    from False 2(3) have "s' = t\<lparr>conn := c\<rparr>"
      by (auto simp: after_set_def split: sum.splits)
    with r a t assms(2) show ?thesis
      by (auto simp: armed_after_def bp_armed_def)
  qed
qed

text \<open>A condition that does not parse: the JVM stops at a breakpoint the session does not list.\<close>

lemma place_breakpoint_leak:
  assumes "jvm_contract (loop_send (conn s)) armed" and "\<not> condition_ok cond"
    and "place_breakpoint pattern line hint cond s = (r, s')"
    and "bp_armed armed s' \<noteq> bp_armed armed s"
  shows "breakpoints s' = breakpoints s \<and> (\<exists>e. r = Inl e)"
  using assms(3)
proof (cases rule: place_breakpoint_cases)
  case (1 e)
  with reads_armed [OF 1(2) assms(1)] show ?thesis by simp
next
  case (2 t m ix q c cls)
  with assms(2) reads_armed [OF 2(1) assms(1)] show ?thesis
    by (cases r) (auto simp: after_set_def split: sum.splits)
qed

lemma drop_breakpoint_ledger:
  assumes "jvm_contract (loop_send (conn s)) armed" and "table_inv (breakpoints s)"
    and "drop_breakpoint key s = (r, s')"
  shows "table_inv (breakpoints s') \<and> loop_send (conn s') = loop_send (conn s)
    \<and> (case r of
         Inl _ \<Rightarrow> breakpoints s' = breakpoints s
       | Inr _ \<Rightarrow> \<exists>rid \<in> table_requests (breakpoints s). key = bp_key rid
           \<and> bp_armed armed s' = bp_armed armed s - {rid}
           \<and> table_requests (breakpoints s') = table_requests (breakpoints s) - {rid})"
proof (cases "map_of (breakpoints s) key")
  case None
  with assms show ?thesis by (auto simp: drop_breakpoint_def)
next
  case (Some bp)
  then have "(key, bp) \<in> set (breakpoints s)" by (rule map_of_SomeD)
  with assms(2) have key: "key = bp_key (bp_request_id bp)"
    and mem: "bp_request_id bp \<in> table_requests (breakpoints s)"
    by (auto simp: table_inv_def) (force simp: table_requests_def)
  obtain q c where q: "clear_event_request EK_BREAKPOINT (bp_request_id bp) (conn s) = (q, c)" by force
  note d = clear_disarms [OF assms(1) q]
  show ?thesis
  proof (cases q)
    case (Inl e)
    with assms Some q d show ?thesis
      by (auto simp: drop_breakpoint_def ebind_def on_conn_err_def clear_breakpoint_def)
  next
    case (Inr u)
    with assms(3) Some q have r: "\<exists>x. r = Inr x"
      and s': "s' = s\<lparr>conn := c, breakpoints := AList.delete key (breakpoints s)\<rparr>"
      by (auto simp: drop_breakpoint_def ebind_def on_conn_err_def clear_breakpoint_def eset_def ereturn_def)
    from d Inr have "armed (peer c) = armed (peer (conn s)) - {(EK_BREAKPOINT, bp_request_id bp)}"
      "loop_send c = loop_send (conn s)" by simp_all
    with r s' mem table_inv_delete [OF assms(2)] table_requests_delete [OF assms(2), of "bp_request_id bp"]
    show ?thesis
      by (auto simp: bp_armed_def key)
  qed
qed

end
