(* ===== verification/Control.thy ===== *)
theory Control
  imports Breakpoints
begin

text \<open>
  The tools of \<open>mcp-server/src/handlers.rs\<close> that control execution and choose what the others act
  on: resuming, suspending, stepping, selecting and listing threads, the last event, the version of
  the JVM, and disconnecting.
\<close>

section \<open>Resuming and suspending\<close>

definition handle_continue :: "('w session_manager, string, string) eff" where
  "handle_continue = with_session
     (ebind (on_conn_err ''Failed to resume'' resume_all) (\<lambda>_. ereturn ''resumed''))"

definition handle_pause :: "('w session_manager, string, string) eff" where
  "handle_pause = with_session
     (ebind (on_conn_err ''Failed to suspend'' suspend_all) (\<lambda>_. ereturn ''paused''))"

section \<open>Stepping\<close>

text \<open>
  A step request still active is taken out of the session and cleared first; an error of that
  clearing is only logged.
\<close>

definition drop_active_step :: "('w debug_session, string, unit) eff" where
  "drop_active_step s = (case active_step s of
      None \<Rightarrow> (Inr (), s)
    | Some st \<Rightarrow> (Inr (), snd (on_conn (clear_step (st_request_id st)) (s\<lparr>active_step := None\<rparr>))))"

definition run_step :: "u64 option \<Rightarrow> step_depth \<Rightarrow> string \<Rightarrow> ('w debug_session, string, string) eff" where
  "run_step thread depth label =
     ebind (resolve_target_thread thread) (\<lambda>t.
     ebind drop_active_step (\<lambda>_.
     ebind (on_conn_err ''Failed to set step request'' (set_step t StepLine depth SuspendAll)) (\<lambda>rid.
     ebind (eset (\<lambda>s. s\<lparr>active_step := Some \<lparr>st_request_id = rid, st_thread_id = t, st_depth = label\<rparr>\<rparr>)) (\<lambda>_.
     ebind (on_conn_err ''Failed to resume after setting step request'' resume_all) (\<lambda>_.
       ereturn (''step '' @ label @ '' thread=0x'' @ show_hex t @ '' req='' @ show_signed rid @ '' resumed''))))))"

definition handle_step ::
    "'j json_api \<Rightarrow> 'j \<Rightarrow> step_depth \<Rightarrow> string \<Rightarrow> ('w session_manager, string, string) eff" where
  "handle_step api args depth label = with_session (run_step (parse_thread_id api args) depth label)"

definition handle_step_into :: "'j json_api \<Rightarrow> 'j \<Rightarrow> ('w session_manager, string, string) eff" where
  "handle_step_into api args = handle_step api args StepInto ''into''"

definition handle_step_over :: "'j json_api \<Rightarrow> 'j \<Rightarrow> ('w session_manager, string, string) eff" where
  "handle_step_over api args = handle_step api args StepOver ''over''"

definition handle_step_out :: "'j json_api \<Rightarrow> 'j \<Rightarrow> ('w session_manager, string, string) eff" where
  "handle_step_out api args = handle_step api args StepOut ''out''"

section \<open>Threads\<close>

definition choose_thread :: "u64 \<Rightarrow> ('w debug_session, string, string) eff" where
  "choose_thread t =
     ebind (on_conn_err ''Failed to get threads'' get_all_threads) (\<lambda>ts.
       if t \<notin> set ts then efail (''Thread 0x'' @ show_hex t @ '' not found in JVM'')
       else ebind (eset (\<lambda>s. s\<lparr>selected_thread_id := Some t\<rparr>)) (\<lambda>_.
              ereturn (''selected thread 0x'' @ show_hex t)))"

definition handle_select_thread :: "'j json_api \<Rightarrow> 'j \<Rightarrow> ('w session_manager, string, string) eff" where
  "handle_select_thread api args =
     ebind (eoption (''Missing or invalid '' @ quote @ ''thread_id'' @ quote @ '' parameter'')
       (parse_thread_id api args)) (\<lambda>t. with_session (choose_thread t))"

definition thread_line :: "u64 option \<Rightarrow> u64 option \<Rightarrow> u64 \<Rightarrow> ('w debug_session, string, string) eff" where
  "thread_line selected event t =
     ebind (attempt (get_thread_name t)) (\<lambda>name.
     ebind (attempt (get_frames t 0 1)) (\<lambda>frames.
       let flags = (if selected = Some t then '' *selected'' else [])
                 @ (if event = Some t then '' *event'' else []);
           name = or_default [] name;
           status = (case frames of None \<Rightarrow> ''?'' | Some fs \<Rightarrow> if fs \<noteq> [] then ''suspended'' else ''running'')
       in ereturn (''0x'' @ show_hex t @ '' '' @ (if name = [] then [] else name @ '' '') @ status @ flags @ nl)))"

definition thread_listing :: "('w debug_session, string, string) eff" where
  "thread_listing =
     ebind (on_conn_err ''Failed to get threads'' get_all_threads) (\<lambda>ts.
     ebind (eget (\<lambda>s. (selected_thread_id s, Option.bind (last_event s) event_thread_id))) (\<lambda>(selected, event).
     ebind (emap (thread_line selected event) ts) (\<lambda>ls.
       ereturn (show_nat (length ts) @ '' threads:'' @ nl @ concat ls))))"

definition handle_list_threads :: "('w session_manager, string, string) eff" where
  "handle_list_threads = with_session thread_listing"

section \<open>The last event and the version\<close>

definition at_location :: "location \<Rightarrow> string" where
  "at_location l = '' class=0x'' @ show_hex (class_id l) @ '' method=0x'' @ show_hex (method_id l)
     @ '' idx='' @ show_unsigned (loc_index l)"

fun event_line :: "u8 \<Rightarrow> event_kind \<Rightarrow> string" where
  "event_line k (Breakpoint t l) = ''breakpoint thread=0x'' @ show_hex t @ at_location l"
| "event_line k (Step t l) = ''step thread=0x'' @ show_hex t @ at_location l"
| "event_line k (VMStart t) = ''vm_start thread=0x'' @ show_hex t"
| "event_line k VMDeath = ''vm_death''"
| "event_line k (ThreadStart t) = ''thread_start 0x'' @ show_hex t"
| "event_line k (ThreadDeath t) = ''thread_death 0x'' @ show_hex t"
| "event_line k (ClassPrepare t _ sig _) = ''class_prepare thread=0x'' @ show_hex t @ '' '' @ sig"
| "event_line k (Exception t _ ex _) = ''exception thread=0x'' @ show_hex t @ '' obj=0x'' @ show_hex ex"
| "event_line k (MethodEntry t l) =
     ''method_entry thread=0x'' @ show_hex t @ '' method=0x'' @ show_hex (method_id l)"
| "event_line k (MethodExit t l) =
     ''method_exit thread=0x'' @ show_hex t @ '' method=0x'' @ show_hex (method_id l)"
| "event_line k (FieldModification t _ _ f ob v) =
     ''field_modified thread=0x'' @ show_hex t @ '' field=0x'' @ show_hex f @ '' obj=0x'' @ show_hex ob
       @ '' new='' @ v"
| "event_line k (FieldAccess t _ _ f ob) =
     ''field_access thread=0x'' @ show_hex t @ '' field=0x'' @ show_hex f @ '' obj=0x'' @ show_hex ob"
| "event_line k (UnknownEvent _) = ''unknown kind='' @ show_unsigned k"

definition last_event_text :: "'w debug_session \<Rightarrow> string" where
  "last_event_text s = (case last_event s of
      None \<Rightarrow> ''no events yet''
    | Some es \<Rightarrow> concat (map (\<lambda>e. event_line (kind e) (details e) @ nl) (events es)))"

definition handle_get_last_event :: "('w session_manager, string, string) eff" where
  "handle_get_last_event = with_session (eget last_event_text)"

definition version_text :: "('w debug_session, string, string) eff" where
  "version_text =
     ebind (on_conn_err ''Failed to get version'' get_version) (\<lambda>v.
       ereturn (vm_name v @ '' '' @ vm_version v @ '' (JDWP '' @ show_signed (jdwp_major v) @ ''.''
         @ show_signed (jdwp_minor v) @ '')''))"

definition handle_vm_info :: "('w session_manager, string, string) eff" where
  "handle_vm_info = with_session version_text"

section \<open>Disconnecting\<close>

definition handle_disconnect :: "('w session_manager, string, string) eff" where
  "handle_disconnect m = (case get_current_session_id m of
      None \<Rightarrow> (Inl ''No active debug session to disconnect'', m)
    | Some sid \<Rightarrow> (Inr (''disconnected '' @ sid), remove_session sid m))"

section \<open>Only reading\<close>

lemma reads_thread_listing [keeps_intros]: "keeps reads thread_listing"
  unfolding thread_listing_def thread_line_def Let_def
  by (auto intro!: keeps_intros asks_ops split: prod.split)

lemma reads_version_text [keeps_intros]: "keeps reads version_text"
  unfolding version_text_def by (auto intro!: keeps_intros asks_ops)

interpretation list_breakpoints: looking_tool "eget breakpoint_listing"
  by unfold_locales (rule keeps_intros)

interpretation last_event: looking_tool "eget last_event_text"
  by unfold_locales (rule keeps_intros)

interpretation list_threads: looking_tool thread_listing
  by unfold_locales (rule keeps_intros)

interpretation vm_info: looking_tool version_text
  by unfold_locales (rule keeps_intros)

section \<open>Step requests\<close>

definition steps_armed :: "('w \<Rightarrow> (u8 \<times> i32) set) \<Rightarrow> 'w debug_session \<Rightarrow> i32 set" where
  "steps_armed armed s = {rid. (EK_SINGLE_STEP, rid) \<in> armed (peer (conn s))}"

definition active_steps :: "'w debug_session \<Rightarrow> i32 set" where
  "active_steps s = (case active_step s of None \<Rightarrow> {} | Some st \<Rightarrow> {st_request_id st})"

text \<open>A JVM that carries out every command to clear an event request.\<close>

definition clears_succeed :: "(command_packet \<Rightarrow> 'w \<Rightarrow> reply_packet jdwp_result \<times> 'w) \<Rightarrow> bool" where
  "clears_succeed send \<longleftrightarrow> (\<forall>p w. command_set p = CS_EVENT_REQUEST \<and> command p = EV_CLEAR \<longrightarrow>
     (\<exists>i d w'. send p w = (Inr \<lparr>reply_id = i, error_code = 0, reply_data = d\<rparr>, w')))"

lemma clear_step_succeeds:
  assumes "clears_succeed (loop_send c)"
  shows "fst (clear_event_request k rid c) = Inr ()"
proof -
  let ?p = "request_packet c CS_EVENT_REQUEST EV_CLEAR (put_u8 k @ put_u32 rid)"
  from assms obtain i d w where "loop_send c ?p (peer c) = (Inr \<lparr>reply_id = i, error_code = 0, reply_data = d\<rparr>, w)"
    unfolding clears_succeed_def by fastforce
  from transact_reads [OF this, of "preturn ()" "()"] show ?thesis
    by (simp add: clear_event_request_def prun_def preturn_def)
qed

lemma drop_active_step_effect:
  assumes "jvm_contract (loop_send (conn s)) armed" and "clears_succeed (loop_send (conn s))"
    and "drop_active_step s = (r, s')"
  shows "r = Inr () \<and> loop_send (conn s') = loop_send (conn s) \<and> breakpoints s' = breakpoints s
    \<and> active_step s' = None \<and> steps_armed armed s' = steps_armed armed s - active_steps s
    \<and> bp_armed armed s' = bp_armed armed s"
proof (cases "active_step s")
  case None
  with assms show ?thesis
    by (simp add: drop_active_step_def active_steps_def)
next
  case (Some st)
  obtain q c where q: "clear_event_request EK_SINGLE_STEP (st_request_id st) (conn s) = (q, c)" by force
  with clear_step_succeeds [OF assms(2), of EK_SINGLE_STEP "st_request_id st"] have "q = Inr ()" by simp
  with clear_disarms [OF assms(1) q] Some q assms(3) show ?thesis
    by (auto simp: drop_active_step_def on_conn_def clear_step_def active_steps_def steps_armed_def bp_armed_def)
qed

lemma run_step_arms_one:
  assumes "jvm_contract (loop_send (conn s)) armed" and "clears_succeed (loop_send (conn s))"
    and "steps_armed armed s \<subseteq> active_steps s" and "run_step thread depth label s = (Inr msg, s')"
  shows "\<exists>rid. steps_armed armed s' = {rid} \<and> active_steps s' = {rid} \<and> bp_armed armed s' = bp_armed armed s
    \<and> breakpoints s' = breakpoints s"
proof -
  from assms(4) obtain t s1 s2 rid s3 s4 where
    s1: "resolve_target_thread thread s = (Inr t, s1)" and
    s2: "drop_active_step s1 = (Inr (), s2)" and
    s3: "on_conn_err ''Failed to set step request'' (set_step t StepLine depth SuspendAll) s2 = (Inr rid, s3)" and
    s4: "s4 = s3\<lparr>active_step := Some \<lparr>st_request_id = rid, st_thread_id = t, st_depth = label\<rparr>\<rparr>" and
    s': "on_conn_err ''Failed to resume after setting step request'' resume_all s4 = (Inr (), s')"
    by (auto simp: run_step_def ebind_Inr_iff eset_def ereturn_def)
  have r1: "reads s s1"
    using keeps_run [OF reads_target_thread s1] .
  note f1 = reads_armed [OF r1 assms(1)] reads_fields [OF r1]
  have send: "loop_send (conn s1) = loop_send (conn s)"
    using r1 by (auto simp: reads_def asks_def)
  with f1 assms(2) have d: "loop_send (conn s2) = loop_send (conn s) \<and> breakpoints s2 = breakpoints s
    \<and> steps_armed armed s2 = steps_armed armed s - active_steps s \<and> bp_armed armed s2 = bp_armed armed s"
    using drop_active_step_effect [where armed = armed, OF _ _ s2] by (simp add: steps_armed_def active_steps_def bp_armed_def)
  with assms(3) have none: "steps_armed armed s2 = {}" by blast
  from s3 obtain c3 where c3: "set_step t StepLine depth SuspendAll (conn s2) = (Inr rid, c3)"
    and s3': "s3 = s2\<lparr>conn := c3\<rparr>" by (auto simp: on_conn_err_Inr)
  have a: "armed_after armed EK_SINGLE_STEP (conn s2) (Inr rid) c3"
    using c3 set_arms [of "conn s2" armed EK_SINGLE_STEP] assms(1) d
    unfolding set_step_def set_step_body_def put_u8_def append_Cons append_Nil by simp
  from s' obtain c4 where c4: "resume_all (conn s4) = (Inr (), c4)" and s4': "s' = s4\<lparr>conn := c4\<rparr>"
    by (auto simp: on_conn_err_Inr)
  have "quiet armed (conn s4) c4"
    using keeps_run [OF quiet_operations(1) c4] .
  then have "armed (peer c4) = armed (peer c3)"
    using a d assms(1) by (simp add: quiet_def s4 s3' armed_after_def)
  with a none d show ?thesis
    by (auto simp: s4' s4 s3' active_steps_def steps_armed_def bp_armed_def armed_after_def)
qed

end
