(* ===== verification/Inspection.thy ===== *)
theory Inspection
  imports Control
begin

text \<open>
  The tools of \<open>mcp-server/src/handlers.rs\<close> that show values: one-level resolution of objects, the
  stack with its variables, one variable, the fields of an object, the combined snapshot, and the
  search for classes and methods. The limits are those of \<open>config.rs\<close>.
\<close>

section \<open>Limits\<close>

definition AUTO_RESOLVE_MAX_FIELDS :: nat where "AUTO_RESOLVE_MAX_FIELDS = 8"
definition AUTO_RESOLVE_LARGE_OBJECT_THRESHOLD :: nat where "AUTO_RESOLVE_LARGE_OBJECT_THRESHOLD = 20"
definition INSPECT_SMALL_OBJECT_THRESHOLD :: nat where "INSPECT_SMALL_OBJECT_THRESHOLD = 10"
definition INSPECT_LARGE_OBJECT_THRESHOLD :: nat where "INSPECT_LARGE_OBJECT_THRESHOLD = 30"
definition INSPECT_MAX_ARRAY_ELEMENTS :: i32 where "INSPECT_MAX_ARRAY_ELEMENTS = 20"
definition INSPECT_SMALL_ARRAY_THRESHOLD :: i32 where "INSPECT_SMALL_ARRAY_THRESHOLD = 10"

section \<open>Resolving a value one level deep\<close>

definition is_static :: "field_info \<Rightarrow> bool" where
  "is_static f \<longleftrightarrow> fi_mod_bits f AND 0x0008 \<noteq> 0"

definition instance_fields :: "field_info list \<Rightarrow> field_info list" where
  "instance_fields fs = filter (\<lambda>f. \<not> is_static f \<and> \<not> starts_with (fi_name f) ''$'') fs"

definition static_fields :: "field_info list \<Rightarrow> field_info list" where
  "static_fields fs = filter (\<lambda>f. is_static f \<and> \<not> starts_with (fi_name f) ''$'') fs"

definition mentions :: "string list \<Rightarrow> string \<Rightarrow> bool" where
  "mentions words name \<longleftrightarrow> list_ex (str_contains name) words"

text \<open>\<open>Some(sig) => display name or sig, None => otherwise\<close>.\<close>

definition class_shown :: "string \<Rightarrow> u64 \<Rightarrow> ('w debug_session, 'e, string) eff" where
  "class_shown otherwise cid =
     ebind (epure (get_class_signature cid)) (\<lambda>sig.
       ereturn (case sig of None \<Rightarrow> otherwise | Some g \<Rightarrow> or_default g (signature_to_display_name g)))"

definition leaf :: "float_text \<Rightarrow> jvalue \<Rightarrow> ('w debug_session, 'e, string) eff" where
  "leaf ft v = epure (format_value_leaf ft v)"

text \<open>The object a value refers to, unless it is null or a string.\<close>

definition resolvable :: "jvalue \<Rightarrow> u64 option" where
  "resolvable v = (case vdata v of
      VObject oid \<Rightarrow> if oid \<noteq> 0 \<and> tag v \<noteq> tag_code TagString then Some oid else None
    | _ \<Rightarrow> None)"

definition format_object :: "float_text \<Rightarrow> u64 \<Rightarrow> ('w debug_session, string, string) eff" where
  "format_object ft oid =
     ebind (on_conn_or (''@'' @ show_hex oid) (get_object_reference_type oid)) (\<lambda>rt.
     ebind (class_shown ''?'' rt) (\<lambda>name.
     ebind (on_conn_or (name @ ''@'' @ show_hex oid) (get_fields rt)) (\<lambda>fields.
       let inst = instance_fields fields;
           shown = take AUTO_RESOLVE_MAX_FIELDS inst
       in if inst = [] then efail (name @ ''@'' @ show_hex oid)
          else if mentions [''List'', ''Map'', ''Set'', ''Queue''] name
               \<or> AUTO_RESOLVE_LARGE_OBJECT_THRESHOLD < length inst
          then efail (name @ ''@'' @ show_hex oid @ ''('' @ show_nat (length inst) @ '' fields)'')
          else ebind (on_conn_or (name @ ''@'' @ show_hex oid) (get_object_values oid (map fi_id shown))) (\<lambda>vals.
               ebind (emap (\<lambda>(f, v). ebind (leaf ft v) (\<lambda>t. ereturn (fi_name f @ ''='' @ t))) (zip shown vals)) (\<lambda>pairs.
                 ereturn (name @ ''{'' @ join_with '', '' pairs
                   @ (if AUTO_RESOLVE_MAX_FIELDS < length inst
                      then '', ...+'' @ show_nat (length inst - AUTO_RESOLVE_MAX_FIELDS) else [])
                   @ ''}'')))  )))"

definition format_value_resolved :: "float_text \<Rightarrow> jvalue \<Rightarrow> 'w debug_session \<Rightarrow> string \<times> 'w debug_session" where
  "format_value_resolved ft v =
     (case resolvable v of
        None \<Rightarrow> format_value_leaf ft v
      | Some oid \<Rightarrow> emerge
          (if tag v = tag_code TagArray
           then ebind (on_conn_or (''array@'' @ show_hex oid) (get_array_length oid)) (\<lambda>len.
                  ereturn (''['' @ show_signed len @ '' elements]@'' @ show_hex oid))
           else format_object ft oid))"

section \<open>Frames\<close>

definition named_pair :: "string \<Rightarrow> string \<Rightarrow> string" where
  "named_pair name text = name @ ''='' @ text"

definition show_variable ::
    "float_text \<Rightarrow> bool \<Rightarrow> variable \<times> jvalue \<Rightarrow> ('w debug_session, 'e, string) eff" where
  "show_variable ft resolve = (\<lambda>(v, x).
     ebind (epure (if resolve then format_value_resolved ft x else format_value_leaf ft x)) (\<lambda>t.
       ereturn (named_pair (var_name v) t)))"

text \<open>The variables in scope of a frame, on one line; \<open>on_error\<close> renders a failed read.\<close>

definition variables_line ::
    "float_text \<Rightarrow> bool \<Rightarrow> string \<Rightarrow> (jdwp_error \<Rightarrow> string) \<Rightarrow> u64 \<Rightarrow> frame
     \<Rightarrow> ('w debug_session, 'e, string) eff" where
  "variables_line ft resolve indent on_error t f =
     ebind (attempt (get_variable_table (class_id (fr_location f)) (method_id (fr_location f)))) (\<lambda>vt.
       case vt of
         None \<Rightarrow> ereturn []
       | Some vt \<Rightarrow>
           let vars = filter (in_scope (loc_index (fr_location f))) vt
           in if vars = [] then ereturn []
              else ebind (ecatch (on_conn (get_frame_values t (fr_id f) (map slot_of vars)))) (\<lambda>r.
                case r of
                  Inl e \<Rightarrow> ereturn (on_error e)
                | Inr vals \<Rightarrow> ebind (emap (show_variable ft resolve) (zip vars vals)) (\<lambda>pairs.
                    ereturn (indent @ join_with ''  '' pairs @ nl))))"

definition frame_line :: "nat \<Rightarrow> string \<Rightarrow> string \<Rightarrow> i32 option \<Rightarrow> u64 \<Rightarrow> string" where
  "frame_line idx cls mname line ix = ''#'' @ show_nat idx @ '' '' @ cls @ ''.'' @ mname @ '':''
     @ (case line of Some l \<Rightarrow> show_signed l | None \<Rightarrow> ''@'' @ show_unsigned ix) @ nl"

text \<open>The method of a frame with the line of its bytecode index, when the JVM tells.\<close>

definition frame_method :: "frame \<Rightarrow> ('w debug_session, 'e, (method_info \<times> i32 option) option) eff" where
  "frame_method f =
     (let l = fr_location f
      in ebind (attempt (get_methods (class_id l))) (\<lambda>ms.
           case Option.bind ms (find (\<lambda>m. mi_id m = method_id l)) of
             None \<Rightarrow> ereturn None
           | Some m \<Rightarrow> ebind (attempt (get_line_table (class_id l) (method_id l))) (\<lambda>lt.
               ereturn (Some (m, Option.bind lt (\<lambda>lt. resolve_source_line lt (loc_index l)))))))"

definition stack_frame ::
    "float_text \<Rightarrow> bool \<Rightarrow> bool \<Rightarrow> u64 \<Rightarrow> nat \<times> frame \<Rightarrow> ('w debug_session, 'e, string) eff" where
  "stack_frame ft include resolve t = (\<lambda>(idx, f).
     let l = fr_location f
     in ebind (class_shown (''0x'' @ show_hex (class_id l)) (class_id l)) (\<lambda>cls.
        ebind (frame_method f) (\<lambda>mm.
          case mm of
            None \<Rightarrow> ereturn (frame_line idx cls ''?'' None (loc_index l))
          | Some (m, line) \<Rightarrow>
              ebind (if include
                     then variables_line ft resolve ''  ''
                       (\<lambda>e. ''  (failed to read variables: '' @ error_text e @ '')'' @ nl) t f
                     else ereturn []) (\<lambda>vars.
                ereturn (frame_line idx cls (mi_name m) line (loc_index l) @ vars)))))"

section \<open>The stack\<close>

definition stack_text ::
    "float_text \<Rightarrow> u64 option \<Rightarrow> nat \<Rightarrow> bool \<Rightarrow> bool \<Rightarrow> ('w debug_session, string, string) eff" where
  "stack_text ft thread max_frames include resolve =
     ebind (resolve_target_thread thread) (\<lambda>t.
     ebind (on_conn_err ''Failed to get frames'' (get_frames t 0 (- 1))) (\<lambda>frames.
       let frames = take max_frames frames
       in if frames = [] then ereturn (''thread 0x'' @ show_hex t @ '': no frames'')
          else ebind (emap (stack_frame ft include resolve t) (enumerate 0 frames)) (\<lambda>ls.
            ereturn (''thread 0x'' @ show_hex t @ '', '' @ show_nat (length frames) @ '' frames:'' @ nl
              @ concat ls))))"

definition handle_get_stack ::
    "'j json_api \<Rightarrow> float_text \<Rightarrow> 'j \<Rightarrow> ('w session_manager, string, string) eff" where
  "handle_get_stack api ft args =
     with_session (stack_text ft (parse_thread_id api args)
       (unat (min (or_default 20 (arg_u64 api args ''max_frames'')) 200))
       (or_default True (arg_bool api args ''include_variables''))
       (2 \<le> or_default 2 (arg_u64 api args ''max_variable_depth'')))"

section \<open>One variable\<close>

text \<open>
  The frame, its variable of that name, and the slot: the part \<open>get_variable\<close> and \<open>set_value\<close>
  share. \<open>frame_index as i32 + 1\<close> truncates and, in a release build, wraps.
\<close>

definition frame_at :: "u64 \<Rightarrow> u64 \<Rightarrow> string \<Rightarrow> ('w debug_session, string, frame) eff" where
  "frame_at t ix shown =
     ebind (on_conn_err ''Failed to get frames'' (get_frames t 0 (ucast ix + 1))) (\<lambda>frames.
       if unat ix < length frames then ereturn (frames ! unat ix)
       else efail (''Frame '' @ shown @ '' not available''))"

definition variable_text ::
    "float_text \<Rightarrow> u64 option \<Rightarrow> string \<Rightarrow> i64 \<Rightarrow> ('w debug_session, string, string) eff" where
  "variable_text ft thread name ix =
     ebind (resolve_target_thread thread) (\<lambda>t.
     ebind (frame_at t ix (show_signed ix)) (\<lambda>f.
     ebind (on_conn_err ''Failed to get variable table''
         (get_variable_table (class_id (fr_location f)) (method_id (fr_location f)))) (\<lambda>vt.
     ebind (eoption (''Variable '' @ quote @ name @ quote @ '' not found in frame '' @ show_signed ix)
         (find_variable (loc_index (fr_location f)) name vt)) (\<lambda>v.
     ebind (on_conn_err ''Failed to get frame value'' (get_frame_values t (fr_id f) [slot_of v])) (\<lambda>vals.
       case vals of
         [] \<Rightarrow> efail ''JDWP returned no variable value''
       | x # _ \<Rightarrow> ebind (epure (format_value_resolved ft x)) (\<lambda>text.
           ereturn (named_pair name text @ '' ('' @ var_signature v @ '')'')))))))"

definition handle_get_variable ::
    "'j json_api \<Rightarrow> float_text \<Rightarrow> 'j \<Rightarrow> ('w session_manager, string, string) eff" where
  "handle_get_variable api ft args =
     ebind (eoption (missing_parameter ''name'') (arg_str api args ''name'')) (\<lambda>name.
       let ix = or_default 0 (arg_i64 api args ''frame_index'')
       in if sint ix < 0 then efail ''frame_index must be >= 0''
          else with_session (variable_text ft (parse_thread_id api args) name ix))"

section \<open>Objects\<close>

definition element_line ::
    "float_text \<Rightarrow> i32 \<Rightarrow> nat \<times> jvalue \<Rightarrow> ('w debug_session, 'e, string) eff" where
  "element_line ft len = (\<lambda>(i, v).
     ebind (if len \<le>s INSPECT_SMALL_ARRAY_THRESHOLD then leaf ft v else ereturn (format_compact ft (vdata v))) (\<lambda>t.
       ereturn (''  ['' @ show_nat i @ ''] '' @ t @ nl)))"

definition inspect_array :: "float_text \<Rightarrow> u64 \<Rightarrow> string \<Rightarrow> i32 \<Rightarrow> ('w debug_session, 'e, string) eff" where
  "inspect_array ft oid name len =
     (let shown = (if len \<le>s INSPECT_MAX_ARRAY_ELEMENTS then len else INSPECT_MAX_ARRAY_ELEMENTS)
      in ebind (if 0 <s shown
                then ebind (ecatch (on_conn (get_array_values oid 0 shown))) (\<lambda>r. case r of
                    Inr elems \<Rightarrow> ebind (emap (element_line ft len) (enumerate 0 elems)) (\<lambda>ls. ereturn (concat ls))
                  | Inl e \<Rightarrow> ereturn (''  (failed to read elements: '' @ error_text e @ '')'' @ nl))
                else ereturn []) (\<lambda>body.
           ereturn (name @ ''['' @ show_signed len @ ''] = ['' @ nl @ body
             @ (if INSPECT_MAX_ARRAY_ELEMENTS <s len
                then ''  ...+'' @ show_signed (len - INSPECT_MAX_ARRAY_ELEMENTS) @ '' more'' @ nl else [])
             @ '']'')))"

definition field_type_line :: "field_info \<Rightarrow> string" where
  "field_type_line f = ''  '' @ fi_name f @ '': '' @ fi_signature f @ nl"

definition field_value_line ::
    "float_text \<Rightarrow> bool \<Rightarrow> field_info \<times> jvalue \<Rightarrow> ('w debug_session, 'e, string) eff" where
  "field_value_line ft small = (\<lambda>(f, v).
     ebind (if small then leaf ft v else ereturn (format_compact ft (vdata v))) (\<lambda>t.
       ereturn (''  '' @ (if is_static f then ''static '' else []) @ fi_name f @ '' = '' @ t @ nl)))"

definition inspect_fields ::
    "float_text \<Rightarrow> u64 \<Rightarrow> string \<Rightarrow> field_info list \<Rightarrow> ('w debug_session, string, string) eff" where
  "inspect_fields ft oid name fs =
     (let inst = instance_fields fs; stat = static_fields fs; total = length inst + length stat
      in if total = 0 then ereturn (name @ '' (no fields)'')
         else if INSPECT_LARGE_OBJECT_THRESHOLD < total
         then ereturn (name @ '' ('' @ show_nat (length inst) @ '' instance + '' @ show_nat (length stat)
                @ '' static fields)'' @ nl
                @ concat (map field_type_line (take INSPECT_LARGE_OBJECT_THRESHOLD inst))
                @ (if INSPECT_LARGE_OBJECT_THRESHOLD < length inst
                   then ''  ...+'' @ show_nat (length inst - INSPECT_LARGE_OBJECT_THRESHOLD) @ '' more'' @ nl
                   else []))
         else let all_fields = inst @ stat
              in ebind (ecatch (on_conn (get_object_values oid (map fi_id all_fields)))) (\<lambda>r. case r of
                   Inl e \<Rightarrow> ereturn (name @ '' (failed to read values: '' @ error_text e @ '')'' @ nl
                     @ concat (map field_type_line all_fields))
                 | Inr vals \<Rightarrow>
                     ebind (emap (field_value_line ft (total \<le> INSPECT_SMALL_OBJECT_THRESHOLD))
                       (zip all_fields vals)) (\<lambda>ls. ereturn (name @ '' {'' @ nl @ concat ls @ ''}''))))"

text \<open>The dash in the message is the three bytes of U+2014.\<close>

definition em_dash :: string where
  "em_dash = [CHR 0xE2, CHR 0x80, CHR 0x94]"

definition inspect_text :: "float_text \<Rightarrow> u64 \<Rightarrow> ('w debug_session, string, string) eff" where
  "inspect_text ft oid =
     ebind (on_conn_err ''Failed to get object type'' (get_object_reference_type oid)) (\<lambda>rt.
     ebind (class_shown ''?'' rt) (\<lambda>name.
     ebind (attempt (get_array_length oid)) (\<lambda>len. case len of
         Some n \<Rightarrow> inspect_array ft oid name n
       | None \<Rightarrow>
           if mentions [''List'', ''Map'', ''Set'', ''Queue'', ''Collection'', ''Vector'', ''Stack''] name
           then ereturn (name @ '' '' @ em_dash @ '' use debug.eval object_id=0x'' @ show_hex oid
             @ '' method=size to get size, or method=toString for contents'')
           else ebind (on_conn_err ''Failed to get fields'' (get_fields rt)) (inspect_fields ft oid name))))"

definition parse_object_id :: "'j json_api \<Rightarrow> 'j \<Rightarrow> string \<Rightarrow> (string + u64)" where
  "parse_object_id api args absent = (case arg_str api args ''object_id'' of
      None \<Rightarrow> Inl absent
    | Some text \<Rightarrow> (case parse_hex_u64 (trim_0x text) of
        None \<Rightarrow> Inl (''Invalid object_id: '' @ text)
      | Some oid \<Rightarrow> if oid = 0 then Inl ''null object (id=0)'' else Inr oid))"

definition handle_inspect ::
    "'j json_api \<Rightarrow> float_text \<Rightarrow> 'j \<Rightarrow> ('w session_manager, string, string) eff" where
  "handle_inspect api ft args =
     ebind (eresult (parse_object_id api args (missing_parameter ''object_id''))) (\<lambda>oid.
       with_session (inspect_text ft oid))"

section \<open>The snapshot\<close>

definition event_summary :: "event \<Rightarrow> string" where
  "event_summary e = (case details e of
      Breakpoint t l \<Rightarrow> ''breakpoint thread=0x'' @ show_hex t @ '' class=0x'' @ show_hex (class_id l)
        @ '' idx='' @ show_unsigned (loc_index l)
    | Step t l \<Rightarrow> ''step thread=0x'' @ show_hex t @ '' class=0x'' @ show_hex (class_id l)
        @ '' idx='' @ show_unsigned (loc_index l)
    | Exception t _ ex _ \<Rightarrow> ''exception thread=0x'' @ show_hex t @ '' obj=0x'' @ show_hex ex
    | _ \<Rightarrow> ''event kind='' @ show_unsigned (kind e))"

definition snapshot_events :: "'w debug_session \<Rightarrow> string" where
  "snapshot_events s = (case last_event s of
      None \<Rightarrow> ''[event] none'' @ nl
    | Some es \<Rightarrow> concat (map (\<lambda>e. ''[event] '' @ event_summary e @ nl) (events es)))"

definition snapshot_breakpoints :: "'w debug_session \<Rightarrow> string" where
  "snapshot_breakpoints s = concat (map (\<lambda>(_, bp).
     ''[bp] '' @ bp_id bp @ '' '' @ class_pattern bp @ '':'' @ show_unsigned (bp_line bp) @ nl) (breakpoints s))"

definition snapshot_frame :: "float_text \<Rightarrow> u64 \<Rightarrow> nat \<times> frame \<Rightarrow> ('w debug_session, 'e, string) eff" where
  "snapshot_frame ft t = (\<lambda>(idx, f).
     let l = fr_location f
     in ebind (class_shown (''0x'' @ show_hex (class_id l)) (class_id l)) (\<lambda>cls.
        ebind (frame_method f) (\<lambda>mm.
        ebind (if idx < 3 then variables_line ft True ''    '' (\<lambda>_. []) t f else ereturn []) (\<lambda>vars.
          ereturn (''  '' @ (case mm of
              None \<Rightarrow> frame_line idx cls ''?'' None (loc_index l)
            | Some (m, line) \<Rightarrow> frame_line idx cls (mi_name m) line (loc_index l)) @ vars)))))"

definition snapshot_stack :: "float_text \<Rightarrow> u64 option \<Rightarrow> ('w debug_session, 'e, string) eff" where
  "snapshot_stack ft thread = (case thread of
      None \<Rightarrow> ereturn []
    | Some t \<Rightarrow> ebind (attempt (get_frames t 0 (- 1))) (\<lambda>frames. case frames of
        None \<Rightarrow> ereturn []
      | Some fs \<Rightarrow> ebind (emap (snapshot_frame ft t) (enumerate 0 (take 10 fs))) (\<lambda>ls.
          ereturn (''[stack] thread=0x'' @ show_hex t @ '', '' @ show_nat (length fs) @ '' frames:'' @ nl
            @ concat ls))))"

text \<open>Here the thread of the last event comes before the selected thread.\<close>

definition snapshot_thread :: "'w debug_session \<Rightarrow> u64 option" where
  "snapshot_thread s = (case Option.bind (last_event s) event_thread_id of
      Some t \<Rightarrow> Some t | None \<Rightarrow> selected_thread_id s)"

definition snapshot_text :: "float_text \<Rightarrow> ('w debug_session, string, string) eff" where
  "snapshot_text ft =
     ebind (eget (\<lambda>s. (snapshot_events s @ snapshot_breakpoints s, snapshot_thread s))) (\<lambda>(head, thread).
     ebind (snapshot_stack ft thread) (\<lambda>stack. ereturn (head @ stack)))"

definition handle_snapshot :: "float_text \<Rightarrow> ('w session_manager, string, string) eff" where
  "handle_snapshot ft = with_session (snapshot_text ft)"

section \<open>Classes and methods\<close>

definition class_name_line :: "class_info \<Rightarrow> string" where
  "class_name_line c = or_default (ci_signature c) (signature_to_display_name (ci_signature c))"

definition class_search :: "string \<Rightarrow> ('w debug_session, string, string) eff" where
  "class_search pattern =
     ebind (resolve_classes pattern) (\<lambda>classes.
       if classes = []
       then ebind loaded_count (\<lambda>total.
         ereturn (''no classes matching '' @ quote @ pattern @ quote @ '' ('' @ show_nat total
           @ '' classes loaded in JVM). Try the full package name, e.g. com.example.MyClass''))
       else ereturn (concat (map (\<lambda>c. class_name_line c @ nl) classes)))"

definition handle_find_class :: "'j json_api \<Rightarrow> 'j \<Rightarrow> ('w session_manager, string, string) eff" where
  "handle_find_class api args =
     ebind (eoption (missing_parameter ''pattern'') (arg_str api args ''pattern''))
       (\<lambda>pattern. with_session (class_search pattern))"

definition method_line :: "u64 \<Rightarrow> method_info \<Rightarrow> ('w debug_session, string, string) eff" where
  "method_line cid m =
     (if hidden_method m then ereturn []
      else ebind (attempt (get_line_table cid (mi_id m))) (\<lambda>lt.
        ereturn (''  '' @ mi_name m @ (case line_range lt of
            None \<Rightarrow> [] | Some (a, b) \<Rightarrow> '':'' @ show_signed a @ ''-'' @ show_signed b) @ nl)))"

definition method_listing :: "string \<Rightarrow> ('w debug_session, string, string) eff" where
  "method_listing pattern =
     ebind (resolve_classes pattern) (\<lambda>classes. case classes of
         [] \<Rightarrow> efail (''class not found: '' @ pattern)
       | c # _ \<Rightarrow>
           ebind (on_conn_err ''Failed to get methods'' (get_methods (type_id c))) (\<lambda>ms.
           ebind (emap (method_line (type_id c)) ms) (\<lambda>ls.
             ereturn (class_name_line c @ '':'' @ nl @ concat ls))))"

definition handle_list_methods :: "'j json_api \<Rightarrow> 'j \<Rightarrow> ('w session_manager, string, string) eff" where
  "handle_list_methods api args =
     ebind (eoption (missing_parameter ''class_pattern'') (arg_str api args ''class_pattern''))
       (\<lambda>pattern. with_session (method_listing pattern))"

section \<open>These tools only look\<close>

lemma reads_class_shown [keeps_intros]: "keeps reads (class_shown d cid)"
  unfolding class_shown_def by (intro keeps_intros reads_class_signature)

lemma reads_leaf [keeps_intros]: "keeps reads (leaf ft v)"
  unfolding leaf_def by (intro keeps_intros reads_value_leaf)

lemma reads_format_object [keeps_intros]: "keeps reads (format_object ft oid)"
  unfolding format_object_def Let_def
  by (auto intro!: keeps_intros asks_ops split: prod.split)

lemma reads_value_resolved: "reads s (snd (format_value_resolved ft v s))"
  unfolding format_value_resolved_def
  by (auto intro!: reads_merge reads_value_leaf keeps_intros asks_ops split: option.split)

lemma reads_show_variable [keeps_intros]: "keeps reads (show_variable ft b p)"
  unfolding show_variable_def
  by (cases p) (auto intro!: keeps_intros reads_value_resolved reads_value_leaf)

lemma reads_variables_line [keeps_intros]: "keeps reads (variables_line ft b ind h t f)"
  unfolding variables_line_def Let_def
  by (auto intro!: keeps_intros asks_ops split: option.split sum.split)

lemma reads_frame_method [keeps_intros]: "keeps reads (frame_method f)"
  unfolding frame_method_def Let_def
  by (auto intro!: keeps_intros asks_ops split: option.split)

lemma reads_stack_frame [keeps_intros]: "keeps reads (stack_frame ft inc b t p)"
  unfolding stack_frame_def Let_def
  by (cases p) (auto intro!: keeps_intros split: option.split)

lemma reads_snapshot_frame [keeps_intros]: "keeps reads (snapshot_frame ft t p)"
  unfolding snapshot_frame_def Let_def
  by (cases p) (auto intro!: keeps_intros split: option.split)

lemma reads_frame_at [keeps_intros]: "keeps reads (frame_at t ix d)"
  unfolding frame_at_def by (auto intro!: keeps_intros asks_ops)

lemma reads_inspect_array [keeps_intros]: "keeps reads (inspect_array ft oid name n)"
  unfolding inspect_array_def element_line_def Let_def
  by (auto intro!: keeps_intros asks_ops split: sum.split prod.split)

lemma reads_inspect_fields [keeps_intros]: "keeps reads (inspect_fields ft oid name fs)"
  unfolding inspect_fields_def field_value_line_def Let_def
  by (auto intro!: keeps_intros asks_ops split: sum.split prod.split)

interpretation get_stack: looking_tool "stack_text ft thread n inc b" for ft thread n inc b
  by unfold_locales (auto simp: stack_text_def Let_def intro!: keeps_intros asks_ops)

interpretation get_variable: looking_tool "variable_text ft thread name ix" for ft thread name ix
  by unfold_locales (auto simp: variable_text_def intro!: keeps_intros asks_ops reads_value_resolved
      split: list.split)

interpretation inspect: looking_tool "inspect_text ft oid" for ft oid
  by unfold_locales (auto simp: inspect_text_def intro!: keeps_intros asks_ops split: option.split)

interpretation snapshot: looking_tool "snapshot_text ft" for ft
  by unfold_locales (auto simp: snapshot_text_def snapshot_stack_def intro!: keeps_intros asks_ops
      split: option.split)

interpretation find_class: looking_tool "class_search pattern" for pattern
  by unfold_locales (auto simp: class_search_def intro!: keeps_intros asks_ops)

interpretation list_methods: looking_tool "method_listing pattern" for pattern
  by unfold_locales (auto simp: method_listing_def method_line_def intro!: keeps_intros asks_ops
      split: list.split)

end
