(* ===== verification/TraceReport.thy ===== *)
theory TraceReport
  imports Trace Inspection
begin

text \<open>
  The report of a trace, \<open>handle_trace_result\<close> of \<open>mcp-server/src/handlers.rs\<close>: the counters of an
  aggregate trace in descending order of time, or the calls of a detail trace indented by depth.
  The trace is taken out of the session, and put back unless it is to be cleared.
\<close>

section \<open>Names of methods\<close>

definition traced_class :: "u64 \<Rightarrow> ('w debug_session, 'e, string) eff" where
  "traced_class cid = ebind (epure (get_class_signature cid)) (\<lambda>sig.
     ereturn (or_default (''0x'' @ show_hex cid) (Option.bind sig signature_to_display_name)))"

definition traced_method :: "u64 \<Rightarrow> u64 \<Rightarrow> ('w debug_session, 'e, string) eff" where
  "traced_method cid mid = ebind (attempt (get_methods cid)) (\<lambda>ms.
     ereturn (or_default (''0x'' @ show_hex mid)
       (map_option mi_name (Option.bind ms (find (\<lambda>m. mi_id m = mid))))))"

section \<open>The two reports\<close>

definition no_calls :: "nat \<Rightarrow> string" where
  "no_calls elapsed = ''trace: 0 calls in '' @ show_nat elapsed @ ''ms (no matching methods hit)'' @ nl"

definition total_calls :: "trace_state \<Rightarrow> u64" where
  "total_calls tr = sum_list (map (call_count \<circ> snd) (agg_stats tr))"

text \<open>\<open>sort_by(|a, b| b.total_ms.cmp(&a.total_ms))\<close> is stable.\<close>

definition ranked_stats :: "u64 \<Rightarrow> trace_state \<Rightarrow> agg_method_stats list" where
  "ranked_stats min_ms tr =
     sort_key (\<lambda>s. - uint (total_ms s)) (filter (\<lambda>s. min_ms \<le> total_ms s) (map snd (agg_stats tr)))"

definition stats_line :: "agg_method_stats \<Rightarrow> ('w debug_session, 'e, string) eff" where
  "stats_line s =
     ebind (traced_class (am_class_id s)) (\<lambda>c.
     ebind (traced_method (am_class_id s) (am_method_id s)) (\<lambda>m.
       ereturn (''  '' @ c @ ''.'' @ m @ ''  x'' @ show_unsigned (call_count s) @ ''  ''
         @ show_unsigned (total_ms s) @ ''ms'' @ nl)))"

definition aggregate_report :: "nat \<Rightarrow> u64 \<Rightarrow> trace_state \<Rightarrow> ('w debug_session, 'e, string) eff" where
  "aggregate_report elapsed min_ms tr =
     (if total_calls tr = 0 then ereturn (no_calls elapsed)
      else ebind (emap stats_line (ranked_stats min_ms tr)) (\<lambda>ls.
        ereturn (''trace: '' @ show_unsigned (total_calls tr) @ '' calls, '' @ show_nat elapsed @ ''ms''
          @ (if 0 < min_ms then '' (>= '' @ show_unsigned min_ms @ ''ms)'' else []) @ nl @ concat ls)))"

definition outcome_text :: "trace_outcome \<Rightarrow> string" where
  "outcome_text r = (case r of
      MethodReturned (Some v) \<Rightarrow> '' -> '' @ v
    | ThrewException e \<Rightarrow> '' -> threw '' @ e
    | _ \<Rightarrow> [])"

definition indent :: "u32 \<Rightarrow> string" where
  "indent d = concat (replicate (unat d) ''  '')"

definition call_line :: "nat \<times> trace_call \<Rightarrow> ('w debug_session, 'e, string) eff" where
  "call_line = (\<lambda>(idx, c).
     ebind (traced_class (tc_class c)) (\<lambda>cls.
     ebind (traced_method (tc_class c) (tc_method c)) (\<lambda>m.
       ereturn (''#'' @ show_nat (idx + 1) @ '' '' @ indent (tc_depth c) @ cls @ ''.'' @ m
         @ outcome_text (tc_result c) @ nl))))"

definition detail_report :: "nat \<Rightarrow> trace_state \<Rightarrow> ('w debug_session, 'e, string) eff" where
  "detail_report elapsed tr =
     (if calls tr = [] then ereturn (no_calls elapsed)
      else ebind (emap call_line (enumerate 0 (calls tr))) (\<lambda>ls.
        ereturn (''trace: '' @ show_nat (length (calls tr)) @ '' calls, '' @ show_nat elapsed @ ''ms'' @ nl
          @ concat ls
          @ (if \<not> active tr \<and> max_calls tr \<le> length (calls tr)
             then ''(truncated at '' @ show_nat (max_calls tr) @ '' calls)'' @ nl else []))))"

section \<open>The tool\<close>

definition clear_trace :: "trace_state \<Rightarrow> ('w debug_session, 'e, unit) eff" where
  "clear_trace tr =
     ebind (attempt (clear_method_entry_trace (entry_request_id tr))) (\<lambda>_.
     ebind (attempt (clear_method_exit_trace (exit_request_id tr))) (\<lambda>_. ereturn ()))"

text \<open>\<open>later\<close> is the clock at \<open>start_time.elapsed()\<close>, in nanoseconds.\<close>

definition report_trace :: "nat \<Rightarrow> bool \<Rightarrow> u64 \<Rightarrow> ('w debug_session, string, string) eff" where
  "report_trace later clear min_ms =
     ebind (eget trace_state) (\<lambda>taken.
     ebind (eset (\<lambda>s. s\<lparr>trace_state := None\<rparr>)) (\<lambda>_.
     ebind (eoption ''No active trace. Use debug.trace first.'' taken) (\<lambda>tr.
       let elapsed = (later - start_time tr) div 10 ^ 6
       in ebind (if aggregate tr then aggregate_report elapsed min_ms tr else detail_report elapsed tr) (\<lambda>out.
          ebind (if clear then clear_trace tr else eset (\<lambda>s. s\<lparr>trace_state := Some tr\<rparr>)) (\<lambda>_.
            ereturn out)))))"

definition handle_trace_result ::
    "'j json_api \<Rightarrow> nat \<Rightarrow> 'j \<Rightarrow> ('w session_manager, string, string) eff" where
  "handle_trace_result api later args =
     with_session (report_trace later (or_default True (arg_bool api args ''clear''))
       (or_default 0 (arg_u64 api args ''min_ms'')))"

section \<open>Facts\<close>

lemma ranked_stats_sorted: "sorted_wrt (\<lambda>a b. total_ms b \<le> total_ms a) (ranked_stats min_ms tr)"
proof -
  have "sorted (map (\<lambda>s. - uint (total_ms s)) (ranked_stats min_ms tr))"
    unfolding ranked_stats_def by (rule sorted_sort_key)
  then show ?thesis
    by (auto simp: sorted_map word_le_def elim: sorted_wrt_mono_rel [rotated])
qed

lemma ranked_stats_set: "set (ranked_stats min_ms tr) = {s \<in> snd ` set (agg_stats tr). min_ms \<le> total_ms s}"
  by (auto simp: ranked_stats_def)

lemma length_indent [simp]: "length (indent d) = 2 * unat d"
  by (induction "unat d" arbitrary: d) (simp_all add: indent_def length_concat sum_list_replicate)

end
