(* ===== verification/Evaluation.thy ===== *)
theory Evaluation
  imports Inspection Floats
begin

text \<open>
  The tools of \<open>mcp-server/src/handlers.rs\<close> that run code or write variables: \<open>debug.eval\<close>, with
  the search for a method by name and number of arguments, and \<open>debug.set_value\<close>, with the
  conversion of a JSON value to the variable's type. A panic of the handler is the result \<open>None\<close>.
\<close>

section \<open>Arguments of an invocation\<close>

definition long_value :: "i64 \<Rightarrow> jvalue" where
  "long_value i = (if - (2 ^ 31) \<le> sint i \<and> sint i \<le> 2 ^ 31 - 1
     then \<lparr>tag = 0x49, vdata = VInt (ucast i)\<rparr> else \<lparr>tag = 0x4A, vdata = VLong i\<rparr>)"

definition eval_arg :: "'j json_api \<Rightarrow> 'j \<Rightarrow> ('w debug_session, string, jvalue) eff" where
  "eval_arg api arg =
     (case j_i64 api arg of
        Some i \<Rightarrow> ereturn (long_value i)
      | None \<Rightarrow>
     (case j_bool api arg of
        Some b \<Rightarrow> ereturn \<lparr>tag = 0x5A, vdata = VBoolean b\<rparr>
      | None \<Rightarrow>
     (case j_str api arg of
        Some str \<Rightarrow> ebind (on_conn_err ''Failed to create string arg'' (create_string str))
          (\<lambda>sid. ereturn \<lparr>tag = 115, vdata = VObject sid\<rparr>)
      | None \<Rightarrow>
          if j_is_null api arg then ereturn \<lparr>tag = 0x4C, vdata = VObject 0\<rparr>
          else efail (''Unsupported arg type: '' @ j_text api arg))))"

section \<open>Finding the method\<close>

text \<open>\<open>find(|m| m.name == method_name && match_sig(&m.signature))\<close>; the outer \<open>None\<close> is a panic.\<close>

fun pick_method :: "nat \<Rightarrow> string \<Rightarrow> method_info list \<Rightarrow> method_info option option" where
  "pick_method n name [] = Some None"
| "pick_method n name (m # ms) =
     (if mi_name m = name
      then (case match_sig n (mi_signature m) of
              None \<Rightarrow> None
            | Some b \<Rightarrow> if b then Some (Some m) else pick_method n name ms)
      else pick_method n name ms)"

text \<open>The methods of one class, passing over a failed request; \<open>Inl ()\<close> is a panic.\<close>

definition method_of_class :: "nat \<Rightarrow> string \<Rightarrow> u64 \<Rightarrow> ('w debug_session, unit, (u64 \<times> u64) option) eff" where
  "method_of_class n name cid =
     ebind (attempt (get_methods cid)) (\<lambda>ms.
     ebind (eoption () (pick_method n name (or_default [] ms))) (\<lambda>m.
       ereturn (map_option (\<lambda>m. (cid, mi_id m)) m)))"

fun method_of_classes :: "nat \<Rightarrow> string \<Rightarrow> u64 list \<Rightarrow> ('w debug_session, unit, (u64 \<times> u64) option) eff" where
  "method_of_classes n name [] = ereturn None"
| "method_of_classes n name (c # cs) =
     ebind (method_of_class n name c) (\<lambda>found.
       case found of Some x \<Rightarrow> ereturn (Some x) | None \<Rightarrow> method_of_classes n name cs)"

text \<open>Declared methods, then those of the interfaces, then those of \<open>java.lang.Object\<close>.\<close>

definition search_method :: "nat \<Rightarrow> string \<Rightarrow> u64 \<Rightarrow> ('w debug_session, unit, (u64 \<times> u64) option) eff" where
  "search_method n name rt =
     ebind (method_of_class n name rt) (\<lambda>declared. case declared of Some x \<Rightarrow> ereturn (Some x) | None \<Rightarrow>
     ebind (attempt (get_interfaces rt)) (\<lambda>ifaces.
     ebind (method_of_classes n name (or_default [] ifaces)) (\<lambda>inherited.
       case inherited of Some x \<Rightarrow> ereturn (Some x) | None \<Rightarrow>
     ebind (attempt (classes_by_signature ''Ljava/lang/Object;'')) (\<lambda>ocs.
       case or_default [] ocs of [] \<Rightarrow> ereturn None | oc # _ \<Rightarrow> method_of_class n name (type_id oc)))))"

section \<open>Invoking\<close>

definition exception_class :: "u64 option \<Rightarrow> ('w debug_session, 'e, string) eff" where
  "exception_class rt = (case rt of
      None \<Rightarrow> ereturn ''?''
    | Some rt \<Rightarrow> ebind (epure (get_class_signature rt)) (\<lambda>sig.
        ereturn (or_default ''?'' (Option.bind sig signature_to_display_name))))"

definition exception_message ::
    "float_text \<Rightarrow> u64 \<Rightarrow> u64 \<Rightarrow> u64 option \<Rightarrow> string \<Rightarrow> ('w debug_session, 'e, string) eff" where
  "exception_message ft ex t rt cls = (case rt of
      None \<Rightarrow> ereturn cls
    | Some rt \<Rightarrow> ebind (attempt (get_methods rt)) (\<lambda>ms.
        case find (\<lambda>m. mi_name m = ''toString'' \<and> starts_with (mi_signature m) ''()'') (or_default [] ms) of
          None \<Rightarrow> ereturn cls
        | Some m \<Rightarrow> ebind (attempt (invoke_method ex t rt (mi_id m) [] True)) (\<lambda>r. case r of
            Some (v, exc) \<Rightarrow> if exc = 0 then leaf ft v else ereturn cls
          | None \<Rightarrow> ereturn cls)))"

definition invoke_and_show ::
    "float_text \<Rightarrow> u64 \<Rightarrow> u64 \<Rightarrow> u64 \<times> u64 \<Rightarrow> jvalue list \<Rightarrow> ('w debug_session, string, string) eff" where
  "invoke_and_show ft oid t = (\<lambda>(cid, mid) args.
     ebind (on_conn_err ''Invoke failed'' (invoke_method oid t cid mid args True)) (\<lambda>(v, ex).
       if ex \<noteq> 0
       then ebind (attempt (get_object_reference_type ex)) (\<lambda>rt.
            ebind (exception_class rt) (\<lambda>cls.
            ebind (exception_message ft ex t rt cls) (\<lambda>msg.
              efail (''threw '' @ cls @ '': '' @ msg))))
       else epure (format_value_resolved ft v)))"

definition no_method :: "nat \<Rightarrow> string \<Rightarrow> string" where
  "no_method n name = (if n \<noteq> 0
     then ''no method '' @ quote @ name @ quote @ '' with '' @ show_nat n @ '' arg(s) found''
     else ''no zero-arg method '' @ quote @ name @ quote @ '' found'')"

definition require_suspended :: "u64 \<Rightarrow> ('w debug_session, string, unit) eff" where
  "require_suspended t = ebind (attempt (get_frames t 0 1)) (\<lambda>fs.
     if or_default [] fs \<noteq> [] then ereturn ()
     else efail (''thread 0x'' @ show_hex t @ '' is not suspended. Hit a breakpoint or use debug.pause first''))"

definition eval_on ::
    "'j json_api \<Rightarrow> float_text \<Rightarrow> u64 option \<Rightarrow> u64 \<Rightarrow> string \<Rightarrow> 'j list
     \<Rightarrow> ('w debug_session, string, string option) eff" where
  "eval_on api ft thread oid name raw =
     ebind (resolve_target_thread thread) (\<lambda>t.
     ebind (require_suspended t) (\<lambda>_.
     ebind (emap (eval_arg api) raw) (\<lambda>args.
     ebind (on_conn_err ''Failed to get object type'' (get_object_reference_type oid)) (\<lambda>rt.
     ebind (ecatch (search_method (length raw) name rt)) (\<lambda>found. case found of
         Inl _ \<Rightarrow> ereturn None
       | Inr None \<Rightarrow> efail (no_method (length raw) name)
       | Inr (Some cm) \<Rightarrow> ebind (invoke_and_show ft oid t cm args) (\<lambda>text. ereturn (Some text)))))))"

definition BLOCKED_METHODS :: "string list" where
  "BLOCKED_METHODS = [''exit'', ''halt'', ''exec'', ''destroy'', ''shutdown'', ''kill'', ''stop'', ''suspend'']"

definition handle_eval ::
    "'j json_api \<Rightarrow> float_text \<Rightarrow> 'j \<Rightarrow> ('w session_manager, string, string option) eff" where
  "handle_eval api ft args =
     ebind (eresult (parse_object_id api args (missing ''object_id''))) (\<lambda>oid.
       let name = or_default ''toString'' (arg_str api args ''method'');
           raw = or_default [] (Option.bind (j_get api args ''args'') (j_array api))
       in if name \<in> set BLOCKED_METHODS
          then efail (''method '' @ quote @ name @ quote @ '' is blocked for safety '' @ em_dash
            @ '' it could terminate the JVM or execute system commands'')
          else with_session (eval_on api ft (parse_thread_id api args) oid name raw))"

section \<open>Writing a variable\<close>

text \<open>\<open>f64 as f32\<close>: round to nearest, ties to even; a NaN stays one.\<close>

definition f32_infinity :: nat where
  "f32_infinity = 0xFF * 2 ^ 23"

definition f32_of_ratio :: "nat \<Rightarrow> nat \<Rightarrow> nat" where
  "f32_of_ratio p q =
     (if p = 0 then 0
      else (let e = max (ratio_exponent p q) (- 126);
                m = div_round_even (p * 2 ^ nat (23 - e)) (q * 2 ^ nat (e - 23))
            in min f32_infinity (nat (e + 126) * 2 ^ 23 + m)))"

definition f32_of_f64 :: "u64 \<Rightarrow> u32" where
  "f32_of_f64 b =
     (let sign = (if unat b < 2 ^ 63 then 0 else 2 ^ 31); mag = f64_magnitude b;
          ex = mag div 2 ^ 52; frac = mag mod 2 ^ 52;
          sig = (if ex = 0 then frac else 2 ^ 52 + frac);
          k = int (max ex 1) - 1075
      in word_of_nat (sign +
           (if f64_is_nan b then f32_infinity + 2 ^ 22
            else if mag = f64_infinity then f32_infinity
            else f32_of_ratio (sig * 2 ^ nat k) (2 ^ nat (- k)))))"

text \<open>Integers are cast to the width of the variable, a character to its low 16 bits.\<close>

definition typed :: "u8 \<Rightarrow> value_data \<Rightarrow> jvalue" where
  "typed t d = \<lparr>tag = t, vdata = d\<rparr>"

definition latin1 :: "u8 \<Rightarrow> string" where
  "latin1 b = str_of_bytes (utf8_char (ucast b))"

definition object_argument :: "'j json_api \<Rightarrow> 'j \<Rightarrow> ('w debug_session, string, jvalue) eff" where
  "object_argument api raw =
     (case j_str api raw of
        Some str \<Rightarrow> ebind (on_conn_err ''Failed to create string'' (create_string str))
          (\<lambda>sid. ereturn (typed 115 (VObject sid)))
      | None \<Rightarrow> if j_is_null api raw then ereturn (typed 0x4C (VObject 0))
          else efail ''value must be string or null for object type'')"

definition convert_value :: "'j json_api \<Rightarrow> 'j \<Rightarrow> u8 \<Rightarrow> ('w debug_session, string, jvalue) eff" where
  "convert_value api raw sb =
     (let integer = (\<lambda>f. ebind (eoption ''value must be integer'' (j_i64 api raw)) (\<lambda>v. ereturn (f v)));
          number = (\<lambda>f. ebind (eoption ''value must be number'' (j_f64 api raw)) (\<lambda>v. ereturn (f v)))
      in if sb = 0x49 then integer (\<lambda>v. typed sb (VInt (ucast v)))
         else if sb = 0x4A then integer (\<lambda>v. typed sb (VLong v))
         else if sb = 0x53 then integer (\<lambda>v. typed sb (VShort (ucast v)))
         else if sb = 0x42 then integer (\<lambda>v. typed sb (VByte (ucast v)))
         else if sb = 0x5A then
           ebind (eoption ''value must be boolean'' (j_bool api raw)) (\<lambda>b. ereturn (typed sb (VBoolean b)))
         else if sb = 0x46 then number (\<lambda>v. typed sb (VFloat (f32_of_f64 v)))
         else if sb = 0x44 then number (\<lambda>v. typed sb (VDouble v))
         else if sb = 0x43 then
           ebind (eoption ''value must be string for char'' (j_str api raw)) (\<lambda>str.
             case chars str of
               [] \<Rightarrow> efail ''empty string for char''
             | c # _ \<Rightarrow> ereturn (typed sb (VChar (ucast c))))
         else if sb = 0x4C \<or> sb = 0x73 then object_argument api raw
         else efail (''unsupported variable type: '' @ latin1 sb))"

definition parse_set_value :: "'j json_api \<Rightarrow> 'j \<Rightarrow> u8 \<Rightarrow> ('w debug_session, string, jvalue) eff" where
  "parse_set_value api args sb =
     ebind (eoption (missing_parameter ''value'') (j_get api args ''value'')) (\<lambda>raw. convert_value api raw sb)"

definition assign_variable ::
    "'j json_api \<Rightarrow> float_text \<Rightarrow> 'j \<Rightarrow> u64 option \<Rightarrow> string \<Rightarrow> u64 \<Rightarrow> ('w debug_session, string, string) eff" where
  "assign_variable api ft args thread name ix =
     ebind (resolve_target_thread thread) (\<lambda>t.
     ebind (frame_at t ix (show_unsigned ix)) (\<lambda>f.
     ebind (on_conn_err ''Failed to get variable table''
         (get_variable_table (class_id (fr_location f)) (method_id (fr_location f)))) (\<lambda>vt.
     ebind (eoption (''Variable '' @ quote @ name @ quote @ '' not found'')
         (find_variable (loc_index (fr_location f)) name vt)) (\<lambda>v.
     ebind (parse_set_value api args (sig_byte (slot_of v))) (\<lambda>x.
     ebind (on_conn_err ''Failed to set value'' (set_frame_values t (fr_id f) [(var_slot v, x)])) (\<lambda>_.
     ebind (leaf ft x) (\<lambda>text. ereturn (named_pair name text))))))))"

definition handle_set_value ::
    "'j json_api \<Rightarrow> float_text \<Rightarrow> 'j \<Rightarrow> ('w session_manager, string, string) eff" where
  "handle_set_value api ft args =
     ebind (eoption (missing ''name'') (arg_str api args ''name'')) (\<lambda>name.
       with_session (assign_variable api ft args (parse_thread_id api args) name
         (or_default 0 (arg_u64 api args ''frame_index''))))"

section \<open>What is written has the type of the variable\<close>

definition well_tagged :: "jvalue \<Rightarrow> bool" where
  "well_tagged x \<longleftrightarrow> value_tagged (tag x) (vdata x)"

lemma object_argument_typed:
  "object_argument api raw s = (Inr x, s') \<Longrightarrow> well_tagged x \<and> tag x \<in> set object_tags"
  by (auto simp: object_argument_def ebind_Inr_iff ereturn_def efail_def typed_def well_tagged_def
      object_tags_def split: option.splits if_splits)

lemma convert_value_typed:
  assumes "convert_value api raw sb s = (Inr x, s')"
  shows "well_tagged x \<and> (if sb = 0x4C \<or> sb = 0x73 then tag x \<in> set object_tags else tag x = sb)"
proof (cases "sb = 0x4C \<or> sb = 0x73")
  case True
  with assms have "object_argument api raw s = (Inr x, s')"
    by (auto simp: convert_value_def Let_def)
  from object_argument_typed [OF this] True show ?thesis by simp
next
  case False
  with assms show ?thesis
    by (auto simp: convert_value_def Let_def ebind_Inr_iff eoption_def ereturn_def efail_def typed_def
        well_tagged_def neq_Nil_conv split: if_splits list.splits option.splits)
qed

lemma eval_arg_typed: "eval_arg api arg s = (Inr x, s') \<Longrightarrow> well_tagged x"
  by (auto simp: eval_arg_def ebind_Inr_iff ereturn_def efail_def well_tagged_def long_value_def
      object_tags_def split: option.splits if_splits)

lemma emap_all:
  assumes "\<And>x s y s'. f x s = (Inr y, s') \<Longrightarrow> P y"
  shows "emap f xs s = (Inr ys, s') \<Longrightarrow> (\<forall>y \<in> set ys. P y) \<and> length ys = length xs"
proof (induction xs arbitrary: s ys)
  case Nil
  then show ?case by (simp add: ereturn_def)
next
  case (Cons x xs)
  then obtain y t zs u where "f x s = (Inr y, t)" "emap f xs t = (Inr zs, u)" "ys = y # zs" "s' = u"
    by (auto simp: ebind_Inr_iff ereturn_def)
  with assms Cons.IH [of t zs] show ?case
    by auto
qed

section \<open>Integers and their width\<close>

text \<open>The number a value stands for, and the widths of Java's integer types.\<close>

fun int_of_value :: "value_data \<Rightarrow> int option" where
  "int_of_value (VInt v) = Some (sint v)"
| "int_of_value (VLong v) = Some (sint v)"
| "int_of_value (VShort v) = Some (sint v)"
| "int_of_value (VByte v) = Some (sint v)"
| "int_of_value _ = None"

definition int_width :: "u8 \<Rightarrow> nat option" where
  "int_width sb = (if sb = 0x49 then Some 32 else if sb = 0x4A then Some 64
     else if sb = 0x53 then Some 16 else if sb = 0x42 then Some 8 else None)"

lemma sint_ucast:
  assumes "LENGTH('a::len) \<le> 64"
  shows "sint (ucast (v :: i64) :: 'a word) = signed_take_bit (LENGTH('a) - 1) (sint v)"
proof (cases "LENGTH('a) = 64")
  case True
  then show ?thesis
    by (intro bit_eqI) (auto simp: bit_simps min_def)
next
  case False
  with assms show ?thesis
    by (intro bit_eqI) (auto simp: bit_simps min_def)
qed

lemma sint_i64 [simp]: "signed_take_bit 63 (sint (v :: i64)) = sint v"
  using sint_ge [of v] sint_lt [of v] by (intro signed_take_bit_int_eq_self) simp_all

lemma converted_int:
  assumes "int_width sb = Some w" and "convert_value api raw sb s = (Inr x, s')" and "j_i64 api raw = Some v"
  shows "int_of_value (vdata x) = Some (signed_take_bit (w - 1) (sint v))"
  using assms
  by (auto simp: int_width_def convert_value_def Let_def ebind_def eoption_def ereturn_def typed_def
      sint_ucast signed_take_bit_int_eq_self_iff split: if_splits)

text \<open>The number stored is the number given exactly when it fits the variable.\<close>

lemma converted_int_exact:
  assumes "int_width sb = Some w" and "convert_value api raw sb s = (Inr x, s')" and "j_i64 api raw = Some v"
  shows "int_of_value (vdata x) = Some (sint v) \<longleftrightarrow> - (2 ^ (w - 1)) \<le> sint v \<and> sint v < 2 ^ (w - 1)"
  using converted_int [OF assms] by (simp add: signed_take_bit_int_eq_self_iff)

section \<open>When the search for a method panics\<close>

text \<open>Only on a signature that starts with the closing parenthesis, or whose first character is not one byte.\<close>

lemma signature_params_None:
  "signature_params sig = None \<longleftrightarrow> starts_with sig '')'' \<or> \<not> is_char_boundary sig 1"
proof (cases "str_find sig '')''")
  case None
  then have "\<not> starts_with sig '')''"
    by (cases sig) (auto simp: starts_with_def [of "[]"])
  with None show ?thesis
    by (auto simp: signature_params_def Let_def)
next
  case (Some p)
  then have "p = 0 \<longleftrightarrow> starts_with sig '')''"
    by (cases sig) (auto split: if_splits)
  with Some show ?thesis
    by (auto simp: signature_params_def Let_def)
qed

lemma pick_method_panics:
  "pick_method n name ms = None \<Longrightarrow>
     \<exists>m \<in> set ms. mi_name m = name \<and> (starts_with (mi_signature m) '')'' \<or> \<not> is_char_boundary (mi_signature m) 1)"
  by (induction ms) (auto simp: match_sig_def signature_params_None split: if_splits option.splits)

lemma pick_method_found:
  "pick_method n name ms = Some (Some m) \<Longrightarrow>
     m \<in> set ms \<and> mi_name m = name \<and> match_sig n (mi_signature m) = Some True"
  by (induction ms) (auto split: if_splits option.splits)

lemma pick_method_none:
  "pick_method n name ms = Some None \<Longrightarrow>
     \<forall>m \<in> set ms. mi_name m = name \<longrightarrow> match_sig n (mi_signature m) = Some False"
  by (induction ms) (auto split: if_splits option.splits)

end
