(* ===== verification/Listener.thy ===== *)
theory Listener
  imports TraceReport Evaluation
begin

text \<open>
  \<open>debug.attach\<close> of \<open>mcp-server/src/handlers.rs\<close> and the listener task it spawns. The task owns a
  clone of its session's connection, here the connection of the session at its address \<open>a\<close> in the
  store, and looks the current session up anew each time it takes a lock. Each definition below is
  what the task does under one lock or between two; \<open>listener_body\<close> composes them as one turn of
  the loop, whose result says whether the loop goes on.
\<close>

section \<open>The connection the task owns\<close>

definition on_own :: "nat \<Rightarrow> ('w connection \<Rightarrow> 'x \<times> 'w connection) \<Rightarrow> 'w session_manager \<Rightarrow> 'x \<times> 'w session_manager" where
  "on_own a f m = (case f (conn (store m ! a)) of
     (x, c) \<Rightarrow> (x, m\<lparr>store := (store m)[a := (store m ! a)\<lparr>conn := c\<rparr>]\<rparr>))"

definition on_session :: "nat \<Rightarrow> ('w debug_session \<Rightarrow> 'w debug_session) \<Rightarrow> 'w session_manager \<Rightarrow> 'w session_manager" where
  "on_session b f m = m\<lparr>store := (store m)[b := f (store m ! b)]\<rparr>"

section \<open>Step events\<close>

text \<open>\<open>find_map\<close>: the active step's request, when an event of the set is its step.\<close>

definition is_step_of :: "step_request_info \<Rightarrow> event \<Rightarrow> bool" where
  "is_step_of st e = (case details e of
      Step t _ \<Rightarrow> request_id e = st_request_id st \<and> t = st_thread_id st
    | _ \<Rightarrow> False)"

definition step_to_clear :: "event_set \<Rightarrow> 'w debug_session \<Rightarrow> i32 option" where
  "step_to_clear es s = (case active_step s of
      None \<Rightarrow> None
    | Some st \<Rightarrow> if list_ex (is_step_of st) (events es) then Some (st_request_id st) else None)"

definition forget_step :: "i32 option \<Rightarrow> 'w debug_session \<Rightarrow> 'w debug_session" where
  "forget_step cleared s =
     (if cleared = map_option st_request_id (active_step s) then s\<lparr>active_step := None\<rparr> else s)"

section \<open>Conditions\<close>

definition condition_of :: "event_set \<Rightarrow> 'w debug_session \<Rightarrow> (u64 \<times> string) option" where
  "condition_of es s = (case events es of
      [] \<Rightarrow> None
    | e # _ \<Rightarrow> (case details e of
        Breakpoint t _ \<Rightarrow>
          (case find (\<lambda>bp. bp_request_id bp = request_id e) (map snd (breakpoints s)) of
             None \<Rightarrow> None
           | Some bp \<Rightarrow> map_option (Pair t) (condition bp))
      | _ \<Rightarrow> None))"

definition skip_stop :: "float_text \<Rightarrow> (u64 \<times> string) option \<Rightarrow> 'w connection \<Rightarrow> bool \<times> 'w connection" where
  "skip_stop ft cond c = (case cond of
      None \<Rightarrow> (False, c)
    | Some (t, text) \<Rightarrow> (case parse_condition text of
        None \<Rightarrow> (False, c)
      | Some (var, op, expected) \<Rightarrow> eval_condition ft t var op expected c))"

section \<open>Storing the event\<close>

definition vm_death_in :: "event_set \<Rightarrow> bool" where
  "vm_death_in es \<longleftrightarrow> list_ex (\<lambda>e. details e = VMDeath) (events es)"

definition store_event :: "event_set \<Rightarrow> 'w debug_session \<Rightarrow> 'w debug_session" where
  "store_event es s =
     (let s = (if vm_death_in es
               then s\<lparr>vm_dead := True, disconnect_reason := Some ''JVM terminated (VM_DEATH)''\<rparr> else s)
      in s\<lparr>last_event := Some es, last_event_seq := last_event_seq s + 1\<rparr>)"

definition connection_lost :: "'w debug_session \<Rightarrow> 'w debug_session" where
  "connection_lost s = s\<lparr>vm_dead := True, disconnect_reason := Some ''JDWP connection closed''\<rparr>"

section \<open>One turn of the loop\<close>

text \<open>Errors of the commands the task sends are ignored.\<close>

definition handle_event ::
    "float_text \<Rightarrow> nat \<Rightarrow> event_set \<Rightarrow> 'w session_manager \<Rightarrow> bool \<times> 'w session_manager" where
  "handle_event ft a es m =
     (let cleared = (case get_current_session m of None \<Rightarrow> None | Some b \<Rightarrow> step_to_clear es (store m ! b));
          m = (case cleared of None \<Rightarrow> m | Some rid \<Rightarrow> snd (on_own a (clear_step rid) m))
      in case get_current_session m of
           None \<Rightarrow> (False, m)
         | Some b \<Rightarrow>
             (let m = on_session b (forget_step cleared) m
              in case on_own a (skip_stop ft (condition_of es (store m ! b))) m of (skip, m) \<Rightarrow>
                   if skip then (True, snd (on_own a resume_all m))
                   else (case get_current_session m of
                       None \<Rightarrow> (False, m)
                     | Some b \<Rightarrow> (\<not> vm_death_in es, on_session b (store_event es) m))))"

definition listener_body ::
    "float_text \<Rightarrow> nat \<Rightarrow> nat \<times> nat \<times> event_set option \<Rightarrow> 'w session_manager \<Rightarrow> bool \<times> 'w session_manager" where
  "listener_body ft a = (\<lambda>(now, later, received) m. case received of
      None \<Rightarrow> (False, case get_current_session m of
          None \<Rightarrow> m | Some b \<Rightarrow> on_session b connection_lost m)
    | Some es \<Rightarrow> (case collect_trace_events now later es m of (traced, m) \<Rightarrow>
        if traced
        then (True, if 0 < suspend_policy es then snd (on_own a resume_all m) else m)
        else handle_event ft a es m))"

fun run_listener ::
    "float_text \<Rightarrow> nat \<Rightarrow> (nat \<times> nat \<times> event_set option) list \<Rightarrow> 'w session_manager \<Rightarrow> bool \<times> 'w session_manager" where
  "run_listener ft a [] m = (True, m)"
| "run_listener ft a (e # es) m = (case listener_body ft a e m of
     (go, m) \<Rightarrow> if go then run_listener ft a es m else (False, m))"

section \<open>Attaching\<close>

definition local_hosts :: "string list" where
  "local_hosts = [''localhost'', ''127.0.0.1'', ''::1'']"

text \<open>Any session of before is removed before the connection is tried.\<close>

definition drop_current :: "'w session_manager \<Rightarrow> 'w session_manager" where
  "drop_current m = (case get_current_session_id m of None \<Rightarrow> m | Some sid \<Rightarrow> remove_session sid m)"

definition vm_description :: "'w connection \<Rightarrow> string \<times> 'w connection" where
  "vm_description c = (case get_version c of
      (Inr v, c) \<Rightarrow> ('' ('' @ vm_name v @ '' '' @ vm_version v @ '')'', c)
    | (Inl _, c) \<Rightarrow> ([], c))"

text \<open>The task is named by the address of its session.\<close>

definition open_session ::
    "nat \<Rightarrow> string \<Rightarrow> u16 \<Rightarrow> 'w connection \<Rightarrow> ('w session_manager, string, string) eff" where
  "open_session timestamp host port c m =
     (case create_session timestamp c m of (sid, m) \<Rightarrow>
        (case get_current_session m of
           None \<Rightarrow> (Inl ''Failed to get session after creation'', m)
         | Some a \<Rightarrow>
             (let m = on_session a (\<lambda>s. s\<lparr>event_listener_task := Some a\<rparr>) m
              in case on_own a vm_description m of (desc, m) \<Rightarrow>
                   (Inr (''connected '' @ host @ '':'' @ show_unsigned port @ desc @ '' session='' @ sid), m))))"

definition connect_session ::
    "(string \<Rightarrow> u16 \<Rightarrow> u64 \<Rightarrow> 'w connection jdwp_result) \<Rightarrow> nat \<Rightarrow> string \<Rightarrow> u16 \<Rightarrow> u64
     \<Rightarrow> ('w session_manager, string, string) eff" where
  "connect_session dial timestamp host port timeout_ms m =
     (case dial host port timeout_ms of
        Inl e \<Rightarrow> (Inl (''Failed to connect: '' @ error_text e), drop_current m)
      | Inr c \<Rightarrow> open_session timestamp host port c (drop_current m))"

definition handle_attach ::
    "'j json_api \<Rightarrow> (string \<Rightarrow> u16 \<Rightarrow> u64 \<Rightarrow> 'w connection jdwp_result) \<Rightarrow> nat \<Rightarrow> 'j
     \<Rightarrow> ('w session_manager, string, string) eff" where
  "handle_attach api dial timestamp args =
     (let host = or_default ''localhost'' (arg_str api args ''host'');
          port = or_default 5005 (arg_u64 api args ''port'');
          timeout_ms = or_default 5000 (arg_u64 api args ''timeout_ms'');
          allow_remote = or_default False (arg_bool api args ''allow_remote'')
      in if 2 ^ 16 \<le> port
         then efail (''Port '' @ show_unsigned port @ '' is out of valid range 1-65535'')
         else if \<not> allow_remote \<and> host \<notin> set local_hosts
         then efail (''Refusing remote JDWP attach to '' @ host @ '':'' @ show_unsigned port
           @ '' without allow_remote=true'')
         else connect_session dial timestamp host (ucast port) timeout_ms)"

section \<open>At most one session\<close>

text \<open>
  Every way to a session goes through \<open>attach\<close>, which drops the one before, so the manager is in
  effect an optional session; \<open>view\<close> is that session.
\<close>

definition single :: "'w session_manager \<Rightarrow> bool" where
  "single m \<longleftrightarrow> (case current m of
      None \<Rightarrow> sessions m = []
    | Some sid \<Rightarrow> length (sessions m) = 1 \<and> fst (hd (sessions m)) = sid
        \<and> snd (hd (sessions m)) < length (store m))"

definition view :: "'w session_manager \<Rightarrow> 'w debug_session option" where
  "view m = map_option (\<lambda>a. store m ! a) (get_current_session m)"

lemma single_new: "single new_manager"
  by (simp add: single_def new_manager_def)

lemma single_cases:
  assumes "single m"
  obtains "current m = None" and "sessions m = []"
    | sid a where "current m = Some sid" and "sessions m = [(sid, a)]" and "a < length (store m)"
  using assms unfolding single_def
  by (cases "sessions m"; cases "hd (sessions m)") (auto split: option.splits)

lemma view_None: "single m \<Longrightarrow> view m = None \<longleftrightarrow> current m = None"
  by (erule single_cases) (auto simp: view_def get_current_session_def)

lemma with_session_view:
  assumes "single m"
  shows "fst (with_session_or none body m) = (case view m of None \<Rightarrow> Inl none | Some s \<Rightarrow> fst (body s))
    \<and> view (snd (with_session_or none body m)) = map_option (\<lambda>s. snd (body s)) (view m)
    \<and> single (snd (with_session_or none body m))"
  using assms
proof (rule single_cases)
  fix sid a
  assume c: "current m = Some sid" "sessions m = [(sid, a)]" "a < length (store m)"
  obtain r s where "body (store m ! a) = (r, s)" by force
  with c show ?thesis
    by (simp add: with_session_or_def view_def get_current_session_def single_def)
qed (simp add: with_session_or_def view_def get_current_session_def single_def)

lemma drop_current_view:
  assumes "single m"
  shows "single (drop_current m) \<and> sessions (drop_current m) = [] \<and> current (drop_current m) = None"
  using assms
  by (rule single_cases)
    (auto simp: drop_current_def get_current_session_id_def remove_session_fields single_def)

lemma disconnect_drops: "handle_disconnect m = (case get_current_session_id m of
    None \<Rightarrow> (Inl ''No active debug session to disconnect'', m)
  | Some sid \<Rightarrow> (Inr (''disconnected '' @ sid), drop_current m))"
  by (simp add: handle_disconnect_def drop_current_def split: option.split)

text \<open>A session just opened: a fresh one on the new connection, with its listener task.\<close>

definition opened :: "nat \<Rightarrow> 'w connection \<Rightarrow> 'w debug_session \<Rightarrow> bool" where
  "opened a c s \<longleftrightarrow> s = (new_session (snd (vm_description c)))\<lparr>event_listener_task := Some a\<rparr>"

lemma open_session_view:
  assumes "sessions m = []"
  shows "single (snd (open_session ts host port c m))
    \<and> (\<exists>s. view (snd (open_session ts host port c m)) = Some s \<and> opened (length (store m)) c s)
    \<and> (\<exists>x. fst (open_session ts host port c m) = Inr x)"
proof -
  obtain d c' where v: "vm_description c = (d, c')" by force
  show ?thesis
    using assms v
    by (auto simp: open_session_def create_session_def Let_def get_current_session_def on_session_def
        on_own_def single_def view_def opened_def new_session_def)
qed

section \<open>The task on its own session\<close>

definition session_event :: "float_text \<Rightarrow> event_set \<Rightarrow> 'w debug_session \<Rightarrow> bool \<times> 'w debug_session" where
  "session_event ft es s =
     (let cleared = step_to_clear es s;
          s = (case cleared of None \<Rightarrow> s | Some rid \<Rightarrow> snd (on_conn (clear_step rid) s));
          s = forget_step cleared s
      in case skip_stop ft (condition_of es s) (conn s) of (skip, c) \<Rightarrow>
           if skip then (True, snd (on_conn resume_all (s\<lparr>conn := c\<rparr>)))
           else (\<not> vm_death_in es, store_event es (s\<lparr>conn := c\<rparr>)))"

lemma get_current_store [simp]: "get_current_session (m\<lparr>store := st\<rparr>) = get_current_session m"
  by (simp add: get_current_session_def)

lemma handle_event_own:
  assumes "get_current_session m = Some a" and "a < length (store m)"
  shows "handle_event ft a es m
    = (fst (session_event ft es (store m ! a)),
       m\<lparr>store := (store m)[a := snd (session_event ft es (store m ! a))]\<rparr>)"
  using assms
  by (auto simp: handle_event_def session_event_def on_own_def on_session_def on_conn_def Let_def
      split: option.splits prod.splits)

lemma forget_step_none [simp]: "forget_step None s = s"
  by (cases "active_step s") (simp_all add: forget_step_def)

end
