(* ===== verification/Phases.thy ===== *)
theory Phases
  imports Listener
begin

text \<open>
  The listener task of \<open>debug.attach\<close> at the granularity of its locks. Between two locks it holds
  nothing, so a tool call may run there. \<open>task_place\<close> is where the task is in its loop, with the
  local variables that live there, and \<open>listener_phase\<close> what it does up to the next place;
  \<open>session_phase\<close> is the same on the session the task belongs to, while that is the current one.
\<close>

section \<open>The places of the loop\<close>

datatype task_place =
    Receiving
  | Received nat nat event_set
  | Resuming
  | Looking event_set
  | Clearing event_set i32
  | Recording event_set "i32 option"
  | Deciding event_set "(u64 \<times> string) option"
  | Storing event_set
  | Losing
  | Stopped

text \<open>What \<open>recv_event\<close> gave, with the two readings of the clock a trace would take.\<close>

definition received :: "nat \<times> nat \<times> event_set option \<Rightarrow> task_place" where
  "received = (\<lambda>(now, later, r). case r of None \<Rightarrow> Losing | Some es \<Rightarrow> Received now later es)"

text \<open>
  One phase: what the task does under one lock, or one use of its connection without any. The
  requests of one evaluation of a condition are one phase.
\<close>

fun listener_phase ::
    "float_text \<Rightarrow> nat \<Rightarrow> task_place \<Rightarrow> 'w session_manager \<Rightarrow> task_place \<times> 'w session_manager" where
  "listener_phase ft a (Received now later es) m =
     (case collect_trace_events now later es m of (traced, m) \<Rightarrow>
        (if \<not> traced then Looking es else if 0 < suspend_policy es then Resuming else Receiving, m))"
| "listener_phase ft a Resuming m = (Receiving, snd (on_own a resume_all m))"
| "listener_phase ft a (Looking es) m =
     (case get_current_session m of
        None \<Rightarrow> (Recording es None, m)
      | Some b \<Rightarrow> (case step_to_clear es (store m ! b) of
          None \<Rightarrow> (Recording es None, m)
        | Some rid \<Rightarrow> (Clearing es rid, m)))"
| "listener_phase ft a (Clearing es rid) m = (Recording es (Some rid), snd (on_own a (clear_step rid) m))"
| "listener_phase ft a (Recording es cleared) m =
     (case get_current_session m of
        None \<Rightarrow> (Stopped, m)
      | Some b \<Rightarrow> (let m = on_session b (forget_step cleared) m
          in (Deciding es (condition_of es (store m ! b)), m)))"
| "listener_phase ft a (Deciding es cond) m =
     (case on_own a (skip_stop ft cond) m of (skip, m) \<Rightarrow> (if skip then Resuming else Storing es, m))"
| "listener_phase ft a (Storing es) m =
     (case get_current_session m of
        None \<Rightarrow> (Stopped, m)
      | Some b \<Rightarrow> (if vm_death_in es then Stopped else Receiving, on_session b (store_event es) m))"
| "listener_phase ft a Losing m =
     (Stopped, case get_current_session m of None \<Rightarrow> m | Some b \<Rightarrow> on_session b connection_lost m)"
| "listener_phase ft a Receiving m = (Receiving, m)"
| "listener_phase ft a Stopped m = (Stopped, m)"

section \<open>A turn without interruption\<close>

definition at_rest :: "task_place \<Rightarrow> bool" where
  "at_rest p \<longleftrightarrow> p = Receiving \<or> p = Stopped"

fun phases_left :: "task_place \<Rightarrow> nat" where
  "phases_left (Received _ _ _) = 6"
| "phases_left (Looking _) = 5"
| "phases_left (Clearing _ _) = 4"
| "phases_left (Recording _ _) = 3"
| "phases_left (Deciding _ _) = 2"
| "phases_left Resuming = 1"
| "phases_left (Storing _) = 1"
| "phases_left Losing = 1"
| "phases_left Receiving = 0"
| "phases_left Stopped = 0"

lemma phase_advances: "\<not> at_rest p \<Longrightarrow> phases_left (fst (listener_phase ft a p m)) < phases_left p"
  by (cases p) (auto simp: at_rest_def Let_def split: option.split prod.split)

function settle :: "float_text \<Rightarrow> nat \<Rightarrow> task_place \<Rightarrow> 'w session_manager \<Rightarrow> task_place \<times> 'w session_manager" where
  "settle ft a p m = (if at_rest p then (p, m)
     else (case listener_phase ft a p m of (p, m) \<Rightarrow> settle ft a p m))"
  by pat_completeness auto

termination
  by (relation "measure (\<lambda>(ft, a, p, m). phases_left p)")
    (simp, metis phase_advances fst_conv in_measure case_prod_conv)

declare settle.simps [simp del]

lemma settle_rest [simp]: "settle ft a Receiving m = (Receiving, m)" "settle ft a Stopped m = (Stopped, m)"
  by (simp_all add: settle.simps at_rest_def)

lemma settle_phase: "\<not> at_rest p \<Longrightarrow> listener_phase ft a p m = (p', m') \<Longrightarrow> settle ft a p m = settle ft a p' m'"
  by (subst settle.simps) simp

lemma settle_resuming: "settle ft a Resuming m = (Receiving, snd (on_own a resume_all m))"
  by (subst settle_phase) (auto simp: at_rest_def)

lemma settle_storing: "settle ft a (Storing es) m = (case get_current_session m of
    None \<Rightarrow> (Stopped, m)
  | Some b \<Rightarrow> (if vm_death_in es then Stopped else Receiving, on_session b (store_event es) m))"
  by (subst settle.simps) (simp add: at_rest_def split: option.split)

definition place_after :: "bool \<Rightarrow> task_place" where
  "place_after go = (if go then Receiving else Stopped)"

lemma settle_recording:
  "settle ft a (Recording es cleared) m = (case get_current_session m of
      None \<Rightarrow> (Stopped, m)
    | Some b \<Rightarrow>
        (let m = on_session b (forget_step cleared) m
         in case on_own a (skip_stop ft (condition_of es (store m ! b))) m of (skip, m) \<Rightarrow>
              if skip then (Receiving, snd (on_own a resume_all m)) else settle ft a (Storing es) m))"
proof (cases "get_current_session m")
  case None
  then show ?thesis
    by (subst settle_phase) (auto simp: at_rest_def)
next
  case (Some b)
  let ?m = "on_session b (forget_step cleared) m"
  obtain skip m' where s: "on_own a (skip_stop ft (condition_of es (store ?m ! b))) ?m = (skip, m')" by force
  have "settle ft a (Recording es cleared) m = settle ft a (Deciding es (condition_of es (store ?m ! b))) ?m"
    by (rule settle_phase) (simp_all add: at_rest_def Some Let_def)
  also have "\<dots> = settle ft a (if skip then Resuming else Storing es) m'"
    by (rule settle_phase) (simp_all add: at_rest_def s)
  finally show ?thesis
    using Some s by (simp add: settle_resuming Let_def)
qed

lemma settle_looking:
  "settle ft a (Looking es) m = (place_after (fst (handle_event ft a es m)), snd (handle_event ft a es m))"
proof -
  let ?cleared = "case get_current_session m of None \<Rightarrow> None | Some b \<Rightarrow> step_to_clear es (store m ! b)"
  let ?m = "case ?cleared of None \<Rightarrow> m | Some rid \<Rightarrow> snd (on_own a (clear_step rid) m)"
  have "settle ft a (Looking es) m = settle ft a (Recording es ?cleared) ?m"
    by (auto simp: at_rest_def settle.simps [of ft a "Looking es"]
        settle.simps [of ft a "Clearing es rid" for rid] split: option.split)
  then show ?thesis
    by (simp add: settle_recording settle_storing handle_event_def place_after_def Let_def
        split: option.split prod.split)
qed

text \<open>
  The phases of one turn of the listener's loop, run without a tool call between them, do what the
  turn does as a whole, and leave the task receiving exactly when the loop goes on. Every turn ends.
\<close>

lemma turn_in_phases:
  "settle ft a (received ev) m = (place_after (fst (listener_body ft a ev m)), snd (listener_body ft a ev m))"
proof (cases ev)
  case (fields now later r)
  show ?thesis
  proof (cases r)
    case None
    with fields show ?thesis
      by (subst settle_phase) (auto simp: received_def at_rest_def listener_body_def place_after_def)
  next
    case (Some es)
    obtain traced m' where c: "collect_trace_events now later es m = (traced, m')" by force
    have "settle ft a (Received now later es) m
        = settle ft a (if \<not> traced then Looking es else if 0 < suspend_policy es then Resuming else Receiving) m'"
      by (rule settle_phase) (simp_all add: at_rest_def c)
    with fields Some c show ?thesis
      by (simp add: received_def listener_body_def settle_looking settle_resuming place_after_def)
  qed
qed

section \<open>The task on its own session\<close>

text \<open>
  While a tool that waits has let go of the lock, the session it waits on stays the current one, and
  the phases of that session's listener change it alone.
\<close>

fun session_phase :: "float_text \<Rightarrow> task_place \<Rightarrow> 'w debug_session \<Rightarrow> task_place \<times> 'w debug_session" where
  "session_phase ft (Received now later es) s =
     (case collect_trace now later es s of (traced, s) \<Rightarrow>
        (if \<not> traced then Looking es else if 0 < suspend_policy es then Resuming else Receiving, s))"
| "session_phase ft Resuming s = (Receiving, snd (on_conn resume_all s))"
| "session_phase ft (Looking es) s =
     (case step_to_clear es s of None \<Rightarrow> Recording es None | Some rid \<Rightarrow> Clearing es rid, s)"
| "session_phase ft (Clearing es rid) s = (Recording es (Some rid), snd (on_conn (clear_step rid) s))"
| "session_phase ft (Recording es cleared) s =
     (let s = forget_step cleared s in (Deciding es (condition_of es s), s))"
| "session_phase ft (Deciding es cond) s =
     (case skip_stop ft cond (conn s) of (skip, c) \<Rightarrow> (if skip then Resuming else Storing es, s\<lparr>conn := c\<rparr>))"
| "session_phase ft (Storing es) s = (if vm_death_in es then Stopped else Receiving, store_event es s)"
| "session_phase ft Losing s = (Stopped, connection_lost s)"
| "session_phase ft Receiving s = (Receiving, s)"
| "session_phase ft Stopped s = (Stopped, s)"

lemma phase_own:
  assumes "get_current_session m = Some a" and "a < length (store m)"
  shows "listener_phase ft a p m = (fst (session_phase ft p (store m ! a)),
    m\<lparr>store := (store m)[a := snd (session_phase ft p (store m ! a))]\<rparr>)"
  using assms
  by (cases p) (auto simp: collect_trace_events_def on_own_def on_session_def on_conn_def Let_def
      split: option.splits prod.splits)

section \<open>What a phase may change\<close>

text \<open>
  The part of a session that belongs to the user; the active step, which a phase only forgets, and
  only the one it remembered; the last event, which a phase only replaces by its own.
\<close>

definition user_part :: "'w debug_session \<Rightarrow> (string \<times> breakpoint_info) list \<times> u64 option \<times> nat option" where
  "user_part s = (breakpoints s, selected_thread_id s, event_listener_task s)"

definition phase_effect :: "task_place \<Rightarrow> 'w debug_session \<Rightarrow> 'w debug_session \<Rightarrow> bool" where
  "phase_effect p s s' \<longleftrightarrow> user_part s' = user_part s
     \<and> (active_step s' = active_step s
        \<or> active_step s' = None \<and> (\<exists>es st. p = Recording es (Some (st_request_id st)) \<and> active_step s = Some st))
     \<and> (last_event s' = last_event s \<and> last_event_seq s' = last_event_seq s
        \<or> (\<exists>es. p = Storing es \<and> last_event s' = Some es \<and> last_event_seq s' = last_event_seq s + 1))"

lemma phase_effect_refl [simp]: "phase_effect p s s"
  by (simp add: phase_effect_def)

lemma phase_effect_conn [simp]: "phase_effect p s (s\<lparr>conn := c\<rparr>)"
  by (simp add: phase_effect_def user_part_def)

lemma nth_update_effect:
  "phase_effect p (xs ! b) x \<Longrightarrow> phase_effect p (xs ! i) (xs[b := x] ! i)"
  by (cases "b < length xs"; cases "i = b") (simp_all add: list_update_beyond)

lemma own_effect: "phase_effect p (store m ! i) (store (snd (on_own a f m)) ! i)"
  by (auto simp: on_own_def intro: nth_update_effect split: prod.split)

lemma session_effect:
  "phase_effect p (store m ! b) (g (store m ! b)) \<Longrightarrow> phase_effect p (store m ! i) (store (on_session b g m) ! i)"
  by (auto simp: on_session_def intro: nth_update_effect)

lemma forget_effect: "phase_effect (Recording es cleared) s (forget_step cleared s)"
  by (cases "active_step s") (auto simp: phase_effect_def forget_step_def user_part_def)

lemma store_effect: "phase_effect (Storing es) s (store_event es s)"
  by (simp add: phase_effect_def store_event_def user_part_def Let_def)

lemma lost_effect: "phase_effect p s (connection_lost s)"
  by (simp add: phase_effect_def connection_lost_def user_part_def)

lemma trace_effect: "collect_trace n l es s = (b, s') \<Longrightarrow> phase_effect p s s'"
  by (auto simp: collect_trace_def phase_effect_def user_part_def Let_def split: option.splits if_splits)

lemma collect_effect: "phase_effect p (store m ! i) (store (snd (collect_trace_events n l es m)) ! i)"
  by (auto simp: collect_trace_events_def dest: trace_effect intro: nth_update_effect split: option.split prod.split)

lemma listener_phase_effect: "phase_effect p (store m ! i) (store (snd (listener_phase ft a p m)) ! i)"
proof (cases p)
  case (Received now later es)
  then show ?thesis
    using collect_effect [of p m i now later es] by (auto split: prod.split)
next
  case (Deciding es cond)
  then show ?thesis
    using own_effect [of p m i a "skip_stop ft cond"] by (auto split: prod.split)
qed (auto simp: Let_def intro!: session_effect own_effect forget_effect store_effect lost_effect
    split: option.split)

lemma session_phase_effect: "phase_effect p s (snd (session_phase ft p s))"
  by (cases p) (auto simp: Let_def on_conn_def intro: trace_effect forget_effect store_effect lost_effect
      split: option.split prod.split)

section \<open>What a task has seen\<close>

text \<open>A task that is about to forget a step has received an event of that step's request.\<close>

definition step_seen :: "event_set \<Rightarrow> i32 \<Rightarrow> bool" where
  "step_seen es rid \<longleftrightarrow> (\<exists>e \<in> set (events es). request_id e = rid \<and> (\<exists>t l. details e = Step t l))"

fun place_ok :: "task_place \<Rightarrow> bool" where
  "place_ok (Clearing es rid) = step_seen es rid"
| "place_ok (Recording es (Some rid)) = step_seen es rid"
| "place_ok _ = True"

lemma is_step_of_event: "is_step_of st e \<longleftrightarrow> request_id e = st_request_id st \<and> (\<exists>l. details e = Step (st_thread_id st) l)"
  by (cases "details e") (auto simp: is_step_of_def)

lemma step_to_clear_seen: "step_to_clear es s = Some rid \<Longrightarrow> step_seen es rid"
  by (auto simp: step_to_clear_def step_seen_def list_ex_iff is_step_of_event split: option.splits if_splits)

lemma place_ok_received [simp]: "place_ok (received ev)"
  by (simp add: received_def split: prod.split option.split)

lemma place_ok_phase: "place_ok p \<Longrightarrow> place_ok (fst (listener_phase ft a p m))"
  by (cases p) (auto simp: Let_def dest: step_to_clear_seen split: option.split prod.split)

lemma place_ok_session: "session_phase ft p s = (p', s') \<Longrightarrow> place_ok p \<Longrightarrow> place_ok p'"
  by (cases p) (auto simp: Let_def dest: step_to_clear_seen split: option.splits prod.splits if_splits)

lemma place_ok_next: "listener_phase ft a p m = (p', m') \<Longrightarrow> place_ok p \<Longrightarrow> place_ok p'"
  using place_ok_phase [of p ft a m] by simp

end
