(* ===== verification/Waiting.thy ===== *)
theory Waiting
  imports Phases
begin

text \<open>
  The tools of \<open>mcp-server/src/handlers.rs\<close> that wait: \<open>debug.wait_for_event\<close> and
  \<open>debug.wait_for_class\<close>. Both loop: subscribe to the session's \<open>Notify\<close>, look at the session under
  its lock, and sleep until notified, under a \<open>tokio::time::timeout\<close>. While they wait the listener
  task of the session runs, phase by phase (\<open>session_phase\<close>), on the same session and connection; the
  phases that store an event or mark the connection lost call \<open>notify_waiters\<close>, which wakes the
  subscribers of that moment and leaves nothing for later ones. The schedule of the two tasks is the
  place where the listener is when the wait begins and a list of actions.
\<close>

section \<open>The waiter and the listener\<close>

definition MAX_WAIT_TIMEOUT_MS :: u64 where
  "MAX_WAIT_TIMEOUT_MS = 120000"

text \<open>
  \<open>Entering\<close>: at the top of the loop; \<open>Enabled\<close>: subscribed, the session not yet looked at;
  \<open>Awaiting\<close>: at \<open>future.await\<close>; \<open>Finished None\<close>: the timeout has elapsed.
\<close>

datatype 'r wait_place = Entering | Enabled | Awaiting | Finished "'r option"

record ('w, 'r) waiter =
  shared :: "'w debug_session"
  place :: "'r wait_place"
  woken :: bool
  seen :: u64
  listener :: task_place

text \<open>Steps of the waiter, its timer, a result of \<open>recv_event\<close>, and a phase of the listener.\<close>

datatype wait_action = WEnable | WCheck | WWake | WExpire | LReceive "nat \<times> nat \<times> event_set option" | LPhase

type_synonym wait_schedule = "task_place \<times> wait_action list"

definition notify_waiters :: "('w, 'r) waiter \<Rightarrow> ('w, 'r) waiter" where
  "notify_waiters st = (case place st of
      Enabled \<Rightarrow> st\<lparr>woken := True\<rparr> | Awaiting \<Rightarrow> st\<lparr>woken := True\<rparr> | _ \<Rightarrow> st)"

fun notifies :: "task_place \<Rightarrow> bool" where
  "notifies (Storing es) = True"
| "notifies Losing = True"
| "notifies _ = False"

definition wait_phase :: "float_text \<Rightarrow> ('w, 'r) waiter \<Rightarrow> ('w, 'r) waiter" where
  "wait_phase ft st = (case session_phase ft (listener st) (shared st) of
     (p, s) \<Rightarrow> (if notifies (listener st) then notify_waiters else id) (st\<lparr>shared := s, listener := p\<rparr>))"

text \<open>What a turn of the loop looks for: a result, and the sequence number it has seen.\<close>

type_synonym ('w, 'r) wait_check = "u64 \<Rightarrow> 'w debug_session \<Rightarrow> 'r option \<times> u64"

definition check_session :: "('w, 'r) wait_check \<Rightarrow> ('w, 'r) waiter \<Rightarrow> ('w, 'r) waiter" where
  "check_session chk st = (case chk (seen st) (shared st) of
      (Some r, n) \<Rightarrow> st\<lparr>place := Finished (Some r), seen := n\<rparr>
    | (None, n) \<Rightarrow> st\<lparr>place := Awaiting, seen := n\<rparr>)"

text \<open>
  The timeout polls the loop first, so it elapses only where the loop is pending: at the lock, or
  at an \<open>await\<close> that was not notified.
\<close>

fun wait_act ::
    "float_text \<Rightarrow> ('w, 'r) wait_check \<Rightarrow> wait_action \<Rightarrow> ('w, 'r) waiter \<Rightarrow> ('w, 'r) waiter option" where
  "wait_act ft chk WEnable st =
     (case place st of Entering \<Rightarrow> Some (st\<lparr>place := Enabled, woken := False\<rparr>) | _ \<Rightarrow> None)"
| "wait_act ft chk WCheck st = (case place st of Enabled \<Rightarrow> Some (check_session chk st) | _ \<Rightarrow> None)"
| "wait_act ft chk WWake st =
     (case place st of Awaiting \<Rightarrow> if woken st then Some (st\<lparr>place := Entering\<rparr>) else None | _ \<Rightarrow> None)"
| "wait_act ft chk WExpire st = (case place st of
      Enabled \<Rightarrow> Some (st\<lparr>place := Finished None\<rparr>)
    | Awaiting \<Rightarrow> if woken st then None else Some (st\<lparr>place := Finished None\<rparr>)
    | _ \<Rightarrow> None)"
| "wait_act ft chk (LReceive ev) st =
     (if listener st = Receiving then Some (st\<lparr>listener := received ev\<rparr>) else None)"
| "wait_act ft chk LPhase st = (if at_rest (listener st) then None else Some (wait_phase ft st))"

fun wait_acts ::
    "float_text \<Rightarrow> ('w, 'r) wait_check \<Rightarrow> wait_action list \<Rightarrow> ('w, 'r) waiter \<Rightarrow> ('w, 'r) waiter option" where
  "wait_acts ft chk [] st = Some st"
| "wait_acts ft chk (a # as) st = Option.bind (wait_act ft chk a st) (wait_acts ft chk as)"

definition start_wait :: "task_place \<Rightarrow> 'w debug_session \<Rightarrow> ('w, 'r) waiter" where
  "start_wait p s = \<lparr>shared = s, place = Entering, woken = False, seen = last_event_seq s, listener = p\<rparr>"

text \<open>
  A poll of the loop's future: its steps until it is finished or pending. The session is not
  contended here, so the lock is taken at once.
\<close>

definition waiter_action :: "('w, 'r) waiter \<Rightarrow> wait_action option" where
  "waiter_action st = (case place st of
      Entering \<Rightarrow> Some WEnable
    | Enabled \<Rightarrow> Some WCheck
    | Awaiting \<Rightarrow> if woken st then Some WWake else None
    | Finished _ \<Rightarrow> None)"

definition poll_rank :: "('w, 'r) waiter \<Rightarrow> nat" where
  "poll_rank st = (case place st of
      Entering \<Rightarrow> 2
    | Enabled \<Rightarrow> if woken st then 4 else 1
    | Awaiting \<Rightarrow> if woken st then 3 else 0
    | Finished _ \<Rightarrow> 0)"

lemma waiter_action_ranks:
  "waiter_action st = Some a \<Longrightarrow> wait_act ft chk a st = Some st' \<Longrightarrow> poll_rank st' < poll_rank st"
  by (auto simp: waiter_action_def poll_rank_def check_session_def split: wait_place.splits if_splits
      prod.splits option.splits)

function poll_wait :: "float_text \<Rightarrow> ('w, 'r) wait_check \<Rightarrow> ('w, 'r) waiter \<Rightarrow> ('w, 'r) waiter" where
  "poll_wait ft chk st = (case Option.bind (waiter_action st) (\<lambda>a. wait_act ft chk a st) of
     None \<Rightarrow> st | Some st' \<Rightarrow> poll_wait ft chk st')"
  by pat_completeness auto

termination poll_wait
  by (relation "measure (\<lambda>(ft, chk, st). poll_rank st)") (auto simp: Option.bind_eq_Some_conv waiter_action_ranks)

declare poll_wait.simps [simp del]

text \<open>
  A whole wait under a schedule: actions not enabled are passed over; at its end the timer fires,
  which polls the loop once more.
\<close>

fun run_wait ::
    "float_text \<Rightarrow> ('w, 'r) wait_check \<Rightarrow> wait_action list \<Rightarrow> ('w, 'r) waiter \<Rightarrow> 'r option \<times> 'w debug_session" where
  "run_wait ft chk [] st = (case place (poll_wait ft chk st) of
      Finished r \<Rightarrow> (r, shared st) | _ \<Rightarrow> (None, shared st))"
| "run_wait ft chk (a # as) st = (case place st of
      Finished r \<Rightarrow> (r, shared st)
    | _ \<Rightarrow> run_wait ft chk as (case wait_act ft chk a st of None \<Rightarrow> st | Some st' \<Rightarrow> st'))"

section \<open>Waiting for an event\<close>

definition event_check :: "('w, event_set option) wait_check" where
  "event_check since s =
     (if since < last_event_seq s then Some (last_event s) else None, since)"

definition wait_timeout :: "'j json_api \<Rightarrow> 'j \<Rightarrow> u64" where
  "wait_timeout api args = min (or_default 30000 (arg_u64 api args ''timeout_ms'')) MAX_WAIT_TIMEOUT_MS"

definition event_report :: "event_set \<Rightarrow> string" where
  "event_report es = ''event: count='' @ show_nat (length (events es)) @ '' suspend=''
     @ show_unsigned (suspend_policy es)
     @ (case event_thread_id es of None \<Rightarrow> [] | Some t \<Rightarrow> '' thread=0x'' @ show_hex t)"

definition event_wait_result :: "u64 \<Rightarrow> event_set option option \<Rightarrow> string + string" where
  "event_wait_result timeout_ms r = (case r of
      Some (Some es) \<Rightarrow> Inr (event_report es)
    | Some None \<Rightarrow> Inl ''no event captured''
    | None \<Rightarrow> Inl (''timeout after '' @ show_unsigned timeout_ms @ ''ms''))"

definition wait_event :: "float_text \<Rightarrow> wait_schedule \<Rightarrow> u64 \<Rightarrow> ('w debug_session, string, string) eff" where
  "wait_event ft sch timeout_ms s = (case run_wait ft event_check (snd sch) (start_wait (fst sch) s) of
     (r, s) \<Rightarrow> (event_wait_result timeout_ms r, s))"

definition handle_wait_for_event ::
    "'j json_api \<Rightarrow> float_text \<Rightarrow> wait_schedule \<Rightarrow> 'j \<Rightarrow> ('w session_manager, string, string) eff" where
  "handle_wait_for_event api ft sch args = with_session (wait_event ft sch (wait_timeout api args))"

section \<open>Waiting for a class\<close>

definition prepared_signature :: "i32 \<Rightarrow> event \<Rightarrow> string option" where
  "prepared_signature rid e = (if request_id e = rid
     then (case details e of ClassPrepare _ _ sig _ \<Rightarrow> Some sig | _ \<Rightarrow> None) else None)"

fun first_some :: "('a \<Rightarrow> 'b option) \<Rightarrow> 'a list \<Rightarrow> 'b option" where
  "first_some f [] = None"
| "first_some f (x # xs) = (case f x of Some y \<Rightarrow> Some y | None \<Rightarrow> first_some f xs)"

definition class_check :: "i32 \<Rightarrow> ('w, string) wait_check" where
  "class_check rid since s =
     (if since < last_event_seq s
      then (Option.bind (last_event s) (\<lambda>es. first_some (prepared_signature rid) (events es)), last_event_seq s)
      else (None, since))"

definition prepare_glob :: "string \<Rightarrow> string" where
  "prepare_glob p = (if CHR ''*'' \<in> set p \<or> CHR ''.'' \<in> set p then p else ''*'' @ p)"

text \<open>The class already loaded, or the id of the request armed for it.\<close>

definition class_wait_request ::
    "string \<Rightarrow> string + class_info list \<Rightarrow> ('w debug_session, string, string + i32) eff" where
  "class_wait_request pattern existing = (case or_default [] (ok existing) of
      c # _ \<Rightarrow> ereturn (Inl (''class already loaded: '' @ class_name_line c))
    | [] \<Rightarrow> ebind (on_conn_err ''Failed to set class prepare''
               (set_class_prepare (prepare_glob pattern) SuspendAll)) (\<lambda>rid. ereturn (Inr rid)))"

definition begin_class_wait :: "string \<Rightarrow> ('w debug_session, string, string + i32) eff" where
  "begin_class_wait pattern = ebind (ecatch (resolve_classes pattern)) (class_wait_request pattern)"

text \<open>Afterwards the request is cleared and the JVM resumed, whatever came of the wait.\<close>

definition end_class_wait :: "i32 \<Rightarrow> ('w debug_session, 'e, unit) eff" where
  "end_class_wait rid =
     ebind (attempt (clear_class_prepare rid)) (\<lambda>_. ebind (attempt resume_all) (\<lambda>_. ereturn ()))"

definition class_wait_result :: "string \<Rightarrow> u64 \<Rightarrow> string option \<Rightarrow> string + string" where
  "class_wait_result pattern timeout_ms r = (case r of
      Some sig \<Rightarrow> Inr (''class loaded: '' @ or_default sig (signature_to_display_name sig))
    | None \<Rightarrow> Inl (''class '' @ quote @ pattern @ quote @ '' not loaded within ''
        @ show_unsigned timeout_ms @ ''ms''))"

definition wait_class ::
    "float_text \<Rightarrow> wait_schedule \<Rightarrow> u64 \<Rightarrow> string \<Rightarrow> ('w debug_session, string, string) eff" where
  "wait_class ft sch timeout_ms pattern =
     ebind (begin_class_wait pattern) (\<lambda>begun. case begun of
         Inl text \<Rightarrow> ereturn text
       | Inr rid \<Rightarrow>
           ebind (epure (\<lambda>s. run_wait ft (class_check rid) (snd sch) (start_wait (fst sch) s))) (\<lambda>r.
           ebind (end_class_wait rid) (\<lambda>_.
             eresult (class_wait_result pattern timeout_ms r))))"

definition handle_wait_for_class ::
    "'j json_api \<Rightarrow> float_text \<Rightarrow> wait_schedule \<Rightarrow> 'j \<Rightarrow> ('w session_manager, string, string) eff" where
  "handle_wait_for_class api ft sch args =
     ebind (eoption (missing ''class_pattern'') (arg_str api args ''class_pattern'')) (\<lambda>pattern.
       with_session (wait_class ft sch (wait_timeout api args) pattern))"

section \<open>What every schedule keeps\<close>

lemma phase_keeps_event:
  "\<not> notifies p \<Longrightarrow> last_event (snd (session_phase ft p s)) = last_event s
     \<and> last_event_seq (snd (session_phase ft p s)) = last_event_seq s"
  using session_phase_effect [of p s ft] by (auto simp: phase_effect_def)

text \<open>
  The contract between a waiting tool and what it looks for: looking again finds nothing new, and
  it looks at the last event and its sequence number only.
\<close>

locale wait_loop =
  fixes chk :: "('w, 'r) wait_check"
  assumes nothing_new: "chk n s = (None, k) \<Longrightarrow> chk k s = (None, k)"
    and looks_at_event: "last_event s' = last_event s \<Longrightarrow> last_event_seq s' = last_event_seq s \<Longrightarrow> chk n s' = chk n s"
begin

definition blocked_inv :: "('w, 'r) waiter \<Rightarrow> bool" where
  "blocked_inv st \<longleftrightarrow>
     (place st = Awaiting \<and> \<not> woken st \<longrightarrow> chk (seen st) (shared st) = (None, seen st))"

lemma blocked_inv_start: "blocked_inv (start_wait p s)"
  by (simp add: blocked_inv_def start_wait_def)

lemma check_after_phase:
  "\<not> notifies p \<Longrightarrow> chk n (snd (session_phase ft p s)) = chk n s"
  by (rule looks_at_event) (auto dest: phase_keeps_event)

lemma blocked_inv_phase: "blocked_inv st \<Longrightarrow> blocked_inv (wait_phase ft st)"
  using check_after_phase [of "listener st" _ ft "shared st"]
  by (auto simp: blocked_inv_def wait_phase_def notify_waiters_def split: prod.splits wait_place.splits)

lemma blocked_inv_act: "blocked_inv st \<Longrightarrow> wait_act ft chk a st = Some st' \<Longrightarrow> blocked_inv st'"
proof (cases "a = LPhase")
  case True
  then show "blocked_inv st \<Longrightarrow> wait_act ft chk a st = Some st' \<Longrightarrow> blocked_inv st'"
    by (auto simp: blocked_inv_phase split: if_splits)
next
  case False
  then show "blocked_inv st \<Longrightarrow> wait_act ft chk a st = Some st' \<Longrightarrow> blocked_inv st'"
    by (cases a) (auto simp: blocked_inv_def check_session_def dest: nothing_new
      split: wait_place.splits if_splits prod.splits option.splits)
qed

lemma blocked_inv_acts: "wait_acts ft chk as st = Some st' \<Longrightarrow> blocked_inv st \<Longrightarrow> blocked_inv st'"
  by (induction as arbitrary: st) (auto simp: Option.bind_eq_Some_conv intro: blocked_inv_act)

lemma poll_step: "waiter_action st = Some a \<Longrightarrow> wait_act ft chk a st = Some st' \<Longrightarrow> poll_wait ft chk st = poll_wait ft chk st'"
  by (subst poll_wait.simps) simp

lemma poll_stop: "waiter_action st = None \<Longrightarrow> poll_wait ft chk st = st"
  by (subst poll_wait.simps) simp

lemma poll_enabled: "place st = Enabled \<Longrightarrow> poll_wait ft chk st = poll_wait ft chk (check_session chk st)"
  by (rule poll_step [of _ WCheck]) (simp_all add: waiter_action_def)

lemma poll_entering:
  "place st = Entering \<Longrightarrow> poll_wait ft chk st = poll_wait ft chk (check_session chk (st\<lparr>place := Enabled, woken := False\<rparr>))"
  using poll_step [of st WEnable ft "st\<lparr>place := Enabled, woken := False\<rparr>"]
  by (simp add: waiter_action_def poll_enabled)

lemma poll_woken:
  "place st = Awaiting \<Longrightarrow> woken st \<Longrightarrow>
     poll_wait ft chk st = poll_wait ft chk (check_session chk (st\<lparr>place := Enabled, woken := False\<rparr>))"
  using poll_step [of st WWake ft "st\<lparr>place := Entering\<rparr>"]
  by (simp add: waiter_action_def poll_entering)

text \<open>A poll ends with a result, or pending on a notification after finding nothing.\<close>

lemma poll_found:
  "chk (seen st) (shared st) = (Some r, k) \<Longrightarrow>
     poll_wait ft chk (check_session chk st) = st\<lparr>place := Finished (Some r), seen := k\<rparr>"
  by (subst poll_stop) (simp_all add: check_session_def waiter_action_def)

lemma poll_not_found:
  "chk (seen st) (shared st) = (None, k) \<Longrightarrow> \<not> woken st \<Longrightarrow>
     poll_wait ft chk (check_session chk st) = st\<lparr>place := Awaiting, seen := k\<rparr>"
  by (subst poll_stop) (simp_all add: check_session_def waiter_action_def)

lemma poll_reports:
  assumes "blocked_inv st" and "chk (seen st) (shared st) = (Some r, k)" and "\<forall>x. place st \<noteq> Finished x"
  shows "place (poll_wait ft chk st) = Finished (Some r) \<and> shared (poll_wait ft chk st) = shared st"
proof (cases "place st")
  case Entering
  with assms(2) show ?thesis by (simp add: poll_entering poll_found)
next
  case Enabled
  with assms(2) show ?thesis by (simp add: poll_enabled poll_found)
next
  case Awaiting
  with assms(1,2) have "woken st" by (auto simp: blocked_inv_def)
  with Awaiting assms(2) show ?thesis by (simp add: poll_woken poll_found)
next
  case (Finished x)
  with assms(3) show ?thesis by simp
qed

lemma poll_settles:
  "blocked_inv st \<Longrightarrow> (\<exists>x. place (poll_wait ft chk st) = Finished x)
     \<or> place (poll_wait ft chk st) = Awaiting \<and> \<not> woken (poll_wait ft chk st)
       \<and> chk (seen (poll_wait ft chk st)) (shared st) = (None, seen (poll_wait ft chk st))
       \<and> shared (poll_wait ft chk st) = shared st"
proof (induction "poll_rank st" arbitrary: st rule: less_induct)
  case less
  show ?case
  proof (cases "waiter_action st")
    case None
    with less(2) show ?thesis
      by (auto simp: poll_stop blocked_inv_def waiter_action_def split: wait_place.splits if_splits)
  next
    case (Some a)
    then obtain st' where st': "wait_act ft chk a st = Some st'"
      by (auto simp: waiter_action_def split: wait_place.splits if_splits)
    have "shared st' = shared st"
      using st' Some by (auto simp: waiter_action_def check_session_def split: wait_place.splits
          if_splits prod.splits option.splits)
    with less(1) [OF waiter_action_ranks [OF Some st'] blocked_inv_act [OF less(2) st']] show ?thesis
      by (simp add: poll_step [OF Some st'])
  qed
qed

end

interpretation event_wait: wait_loop event_check
  by unfold_locales (auto simp: event_check_def split: if_splits)

interpretation class_wait: wait_loop "class_check rid" for rid
  by unfold_locales (auto simp: class_check_def split: if_splits)

section \<open>Waiting for an event: what is stored\<close>

text \<open>The event sets the listener stores while the wait lasts.\<close>

fun storing :: "wait_action \<Rightarrow> task_place \<Rightarrow> event_set list" where
  "storing LPhase (Storing es) = [es]"
| "storing _ _ = []"

fun stored ::
    "float_text \<Rightarrow> ('w, 'r) wait_check \<Rightarrow> wait_action list \<Rightarrow> ('w, 'r) waiter \<Rightarrow> event_set list" where
  "stored ft chk [] st = []"
| "stored ft chk (a # as) st = (case place st of
      Finished r \<Rightarrow> []
    | _ \<Rightarrow> (case wait_act ft chk a st of
        None \<Rightarrow> stored ft chk as st
      | Some st' \<Rightarrow> storing a (listener st) @ stored ft chk as st'))"

lemma wait_phase_fields [simp]: "place (wait_phase ft st) = place st" "seen (wait_phase ft st) = seen st"
  by (auto simp: wait_phase_def notify_waiters_def split: prod.splits wait_place.splits)

lemma wait_phase_stores:
  "last_event (shared (wait_phase ft st)) = (case storing LPhase (listener st) of
      [] \<Rightarrow> last_event (shared st) | es # _ \<Rightarrow> Some es)
   \<and> last_event_seq (shared (wait_phase ft st))
      = last_event_seq (shared st) + of_nat (length (storing LPhase (listener st)))"
proof (cases "\<exists>es. listener st = Storing es")
  case True
  then show ?thesis
    by (auto simp: wait_phase_def notify_waiters_def store_event_def Let_def split: wait_place.splits)
next
  case False
  then have none: "storing LPhase (listener st) = []" by (cases "listener st") auto
  have "\<not> notifies (listener st) \<or> listener st = Losing"
    using False by (cases "listener st") auto
  with none phase_keeps_event [of "listener st" ft "shared st"] show ?thesis
    by (auto simp: wait_phase_def notify_waiters_def connection_lost_def split: prod.splits wait_place.splits)
qed

section \<open>Waiting for a class: what is left behind\<close>

text \<open>
  A phase of the listener leaves every request in the JVM armed but the step it is clearing, and that
  is the active step of the session, now or when the listener looked at it.
\<close>

definition pending_steps :: "task_place \<Rightarrow> 'w debug_session \<Rightarrow> i32 set" where
  "pending_steps p s = (case active_step s of None \<Rightarrow> {} | Some st \<Rightarrow> {st_request_id st})
     \<union> (case p of Clearing es rid \<Rightarrow> {rid} | _ \<Rightarrow> {})"

definition clears_steps :: "('w \<Rightarrow> (u8 \<times> i32) set) \<Rightarrow> i32 set \<Rightarrow> 'w connection \<Rightarrow> 'w connection \<Rightarrow> bool" where
  "clears_steps armed R c c' \<longleftrightarrow> loop_send c' = loop_send c
     \<and> (jvm_contract (loop_send c) armed \<longrightarrow> armed (peer c') \<subseteq> armed (peer c)
         \<and> armed (peer c) - armed (peer c') \<subseteq> {EK_SINGLE_STEP} \<times> R)"

lemma clears_steps_refl [simp]: "clears_steps armed R c c"
  by (simp add: clears_steps_def)

lemma clears_steps_trans: "clears_steps armed R a b \<Longrightarrow> clears_steps armed R b c \<Longrightarrow> clears_steps armed R a c"
  unfolding clears_steps_def by auto

lemma quiet_clears: "quiet armed c c' \<Longrightarrow> clears_steps armed R c c'"
  by (simp add: quiet_def clears_steps_def)

lemma clear_step_clears: "rid \<in> R \<Longrightarrow> clears_steps armed R c (snd (clear_step rid c))"
  using clear_disarms [of c armed EK_SINGLE_STEP rid "fst (clear_step rid c)" "snd (clear_step rid c)"]
    transact_sends [of CS_EVENT_REQUEST EV_CLEAR "put_u8 EK_SINGLE_STEP @ put_u32 rid" "preturn ()" c]
  by (auto simp: clears_steps_def clear_step_def clear_event_request_def after_send_def)

lemma condition_value_asks: "condition_value t name c = (r, c') \<Longrightarrow> asks c c'"
  by (auto simp: condition_value_def split: prod.splits sum.splits list.splits option.splits
      dest!: keeps_run [OF asking_operations(5)] keeps_run [OF asking_operations(12)]
        keeps_run [OF asking_operations(18)] intro: asks_trans)

lemma skip_stop_asks: "skip_stop ft cond c = (skip, c') \<Longrightarrow> asks c c'"
  by (auto simp: skip_stop_def eval_condition_def split: option.splits prod.splits dest: condition_value_asks)

lemma session_phase_clears:
  assumes "pending_steps p s \<subseteq> R"
  shows "clears_steps armed R (conn s) (conn (snd (session_phase ft p s)))"
proof (cases p)
  case (Clearing es rid)
  with assms clear_step_clears [of rid R armed "conn s"] show ?thesis
    by (auto simp: pending_steps_def on_conn_def split: prod.splits)
next
  case Resuming
  have "quiet armed (conn s) (snd (resume_all (conn s)))"
    using quiet_operations(1) [of armed] by (auto simp: keeps_def)
  with Resuming show ?thesis
    by (auto simp: on_conn_def intro: quiet_clears split: prod.splits)
next
  case (Deciding es cond)
  then show ?thesis
    by (auto intro: quiet_clears asks_quiet dest: skip_stop_asks split: prod.splits)
qed (auto simp: collect_trace_def forget_step_def store_event_def connection_lost_def Let_def
    split: option.splits)

lemma session_phase_pending:
  assumes "session_phase ft p s = (p', s')"
  shows "pending_steps p' s' \<subseteq> pending_steps p s"
  using assms
  by (cases p) (auto simp: pending_steps_def collect_trace_def step_to_clear_def forget_step_def store_event_def
      connection_lost_def on_conn_def Let_def split: option.splits prod.splits if_splits)

lemma pending_received [simp]: "pending_steps (received ev) s = pending_steps Receiving s"
  by (auto simp: received_def pending_steps_def split: prod.splits option.splits)

lemma wait_act_clears:
  assumes "wait_act ft chk a st = Some st'" and "pending_steps (listener st) (shared st) \<subseteq> R"
  shows "clears_steps armed R (conn (shared st)) (conn (shared st')) \<and> pending_steps (listener st') (shared st') \<subseteq> R"
proof (cases "a = LPhase")
  case True
  obtain p s where ps: "session_phase ft (listener st) (shared st) = (p, s)" by force
  with assms(1) True have "shared st' = s" "listener st' = p"
    by (auto simp: wait_phase_def notify_waiters_def split: if_splits wait_place.splits)
  with ps session_phase_clears [OF assms(2), of armed ft] session_phase_pending [OF ps] assms(2) show ?thesis
    by auto
next
  case False
  from False assms show ?thesis
    by (cases a) (auto simp: check_session_def split: wait_place.splits if_splits prod.splits option.splits)
qed

lemma run_wait_clears:
  "run_wait ft chk as st = (r, s) \<Longrightarrow> pending_steps (listener st) (shared st) \<subseteq> R
     \<Longrightarrow> clears_steps armed R (conn (shared st)) (conn s)"
proof (induction as arbitrary: st)
  case Nil
  then show ?case by (auto split: wait_place.splits)
next
  case (Cons a as)
  show ?case
  proof (cases "\<exists>x. place st = Finished x")
    case True
    with Cons.prems show ?thesis by auto
  next
    case False
    let ?t = "case wait_act ft chk a st of None \<Rightarrow> st | Some st' \<Rightarrow> st'"
    from False Cons.prems(1) have "run_wait ft chk as ?t = (r, s)"
      by (auto split: wait_place.splits)
    with Cons.IH [OF this] Cons.prems(2) show ?thesis
      by (auto split: option.splits dest!: wait_act_clears [where armed = armed and R = R] intro: clears_steps_trans)
  qed
qed

text \<open>
  If the request for the class was made, then whatever the wait comes to, the JVM has the requests
  armed that it had before, provided it carries out the clearing.
\<close>

lemma begin_class_wait_armed:
  assumes "jvm_contract (loop_send (conn s)) armed" and "begin_class_wait pattern s = (Inr b, s')"
  shows "loop_send (conn s') = loop_send (conn s)
    \<and> armed (peer (conn s')) = (case b of
        Inl _ \<Rightarrow> armed (peer (conn s))
      | Inr rid \<Rightarrow> insert (EK_CLASS_PREPARE, rid) (armed (peer (conn s))))
    \<and> (\<forall>rid k. b = Inr rid \<longrightarrow> (k, rid) \<notin> armed (peer (conn s)))
    \<and> active_step s' = active_step s"
proof -
  from assms(2) have "ebind (ecatch (resolve_classes pattern)) (class_wait_request pattern) s = (Inr b, s')"
    by (simp add: begin_class_wait_def)
  then show ?thesis
  proof (cases rule: ebind_reads [OF _ reads_catch [OF reads_resolve_classes]
        reads_refl, consumes 1, case_names err run])
    case (err e)
    then show ?thesis by simp
  next
    case (run ex t)
    have send: "loop_send (conn t) = loop_send (conn s)"
      using run(2) by (auto simp: reads_def asks_def)
    note same = reads_armed [OF run(2) assms(1)]
    have act: "active_step t = active_step s"
      using reads_fields [OF run(2)] by simp
    show ?thesis
    proof (cases "or_default [] (ok ex)")
      case (Cons c cs)
      note e = run(1) [unfolded class_wait_request_def ereturn_def Cons list.case prod.inject sum.inject]
      from e have "t = s'" and b: "b = Inl (''class already loaded: '' @ class_name_line c)"
        by (rule conjunct2, metis)
      with send same act show ?thesis
        unfolding b by simp
    next
      case Nil
      with run(1) obtain rid c where q: "set_class_prepare (prepare_glob pattern) SuspendAll (conn t) = (Inr rid, c)"
        and b: "b = Inr rid" and s': "s' = t\<lparr>conn := c\<rparr>"
        by (auto simp: class_wait_request_def ebind_Inr_iff on_conn_err_Inr ereturn_def)
      have "armed_after armed EK_CLASS_PREPARE (conn t) (Inr rid) c"
        using q set_arms [of "conn t" armed EK_CLASS_PREPARE] same assms(1)
        unfolding set_class_prepare_def class_match_body_def write_jdwp_string_def put_u8_def append_Cons append_Nil
        by simp
      with b s' send same act show ?thesis
        by (auto simp: armed_after_def)
    qed
  qed
qed

lemma end_class_wait_armed:
  assumes "jvm_contract (loop_send (conn s)) armed" and "clears_succeed (loop_send (conn s))"
    and "end_class_wait rid s = (r, s')"
  shows "armed (peer (conn s')) = armed (peer (conn s)) - {(EK_CLASS_PREPARE, rid)}"
proof -
  obtain q c where q: "clear_event_request EK_CLASS_PREPARE rid (conn s) = (q, c)" by force
  with clear_step_succeeds [OF assms(2), of EK_CLASS_PREPARE rid] have "q = Inr ()" by simp
  with clear_disarms [OF assms(1) q] have c: "loop_send c = loop_send (conn s)"
    "armed (peer c) = armed (peer (conn s)) - {(EK_CLASS_PREPARE, rid)}" by auto
  obtain q2 c' where q': "resume_all c = (q2, c')" by force
  have "quiet armed c c'"
    using keeps_run [OF quiet_operations(1) q'] .
  with c assms(1) have "armed (peer c') = armed (peer c)" by (simp add: quiet_def)
  moreover have "s' = s\<lparr>conn := c'\<rparr>"
    using assms(3) q q' by (simp add: end_class_wait_def ebind_def attempt_def clear_class_prepare_def ereturn_def)
  ultimately show ?thesis
    using c(2) by simp
qed

lemma wait_class_armed:
  assumes "jvm_contract (loop_send (conn s)) armed" and "clears_succeed (loop_send (conn s))"
    and "begin_class_wait pattern s = (Inr b, s1)" and "wait_class ft sch timeout_ms pattern s = (r, s')"
  shows "armed (peer (conn s')) \<subseteq> armed (peer (conn s))
    \<and> armed (peer (conn s)) - armed (peer (conn s')) \<subseteq> {EK_SINGLE_STEP} \<times> pending_steps (fst sch) s"
proof (cases b)
  case (Inl msg)
  with assms(3,4) have "s' = s1"
    by (simp add: wait_class_def ebind_def ereturn_def)
  with Inl begin_class_wait_armed [OF assms(1,3)] show ?thesis
    by simp
next
  case (Inr rid)
  note b = begin_class_wait_armed [OF assms(1,3)]
  obtain w s2 where w: "run_wait ft (class_check rid) (snd sch) (start_wait (fst sch) s1) = (w, s2)" by force
  have "pending_steps (fst sch) s1 = pending_steps (fst sch) s"
    using b by (simp add: pending_steps_def)
  with run_wait_clears [OF w, of "pending_steps (fst sch) s" armed]
  have s2: "clears_steps armed (pending_steps (fst sch) s) (conn s1) (conn s2)"
    by (simp add: start_wait_def)
  then have send: "loop_send (conn s2) = loop_send (conn s)"
    using b by (simp add: clears_steps_def)
  obtain e :: "string + unit" and s3 where e: "end_class_wait rid s2 = (e, s3)" by force
  have "\<exists>u. e = Inr u"
    using e by (auto simp: end_class_wait_def ebind_def attempt_def ereturn_def split: prod.splits)
  with assms(3,4) Inr w e have "s' = s3"
    by (auto simp: wait_class_def ebind_def epure_def eresult_def)
  with end_class_wait_armed [OF _ _ e, of armed] assms(1,2) send
  have after: "armed (peer (conn s')) = armed (peer (conn s2)) - {(EK_CLASS_PREPARE, rid)}"
    by simp
  from b Inr have before: "armed (peer (conn s1)) = insert (EK_CLASS_PREPARE, rid) (armed (peer (conn s)))"
    "(EK_CLASS_PREPARE, rid) \<notin> armed (peer (conn s))" "loop_send (conn s1) = loop_send (conn s)"
    by simp_all
  with s2 assms(1) have "armed (peer (conn s2)) \<subseteq> armed (peer (conn s1))"
    "armed (peer (conn s1)) - armed (peer (conn s2)) \<subseteq> {EK_SINGLE_STEP} \<times> pending_steps (fst sch) s"
    by (simp_all add: clears_steps_def)
  with after before(1,2) show ?thesis
    by blast
qed

end
