(* ===== verification/Tools.thy ===== *)
theory Tools
  imports Inspection
begin

text \<open>
  \<open>mcp-server/src/tools.rs\<close>: the tools the server lists, with the schema of their arguments. Every
  schema is an object with typed properties, some with a default or a description, and the names of
  the required ones.
\<close>

datatype property_type = TString | TInteger | TBoolean | TArray

datatype default_value = DString string | DInteger int | DBool bool

record tool_property =
  tp_name :: string
  tp_type :: "property_type option"
  tp_default :: "default_value option"
  tp_description :: "string option"

record tool =
  tool_name :: string
  tool_description :: string
  tool_properties :: "tool_property list"
  tool_required :: "string list"

definition mk_property ::
    "string \<Rightarrow> property_type option \<Rightarrow> default_value option \<Rightarrow> string option \<Rightarrow> tool_property" where
  "mk_property n t d s = \<lparr>tp_name = n, tp_type = t, tp_default = d, tp_description = s\<rparr>"

definition mk_tool :: "string \<Rightarrow> string \<Rightarrow> tool_property list \<Rightarrow> string list \<Rightarrow> tool" where
  "mk_tool n d ps rs = \<lparr>tool_name = n, tool_description = d, tool_properties = ps, tool_required = rs\<rparr>"

definition session_tools :: "tool list" where
  "session_tools =
    [mk_tool ''debug.attach'' ''Connect to JVM via JDWP''
       [mk_property ''host'' (Some TString) (Some (DString ''localhost'')) None,
        mk_property ''port'' (Some TInteger) (Some (DInteger 5005)) None,
        mk_property ''timeout_ms'' (Some TInteger) (Some (DInteger 5000)) None,
        mk_property ''allow_remote'' (Some TBoolean) (Some (DBool False)) None]
       [''host'', ''port''],
     mk_tool ''debug.set_breakpoint'' ''Set breakpoint at class:line, optionally conditional''
       [mk_property ''class_pattern'' (Some TString) None (Some (''e.g. com.example.MyClass'')),
        mk_property ''line'' (Some TInteger) None None,
        mk_property ''method'' (Some TString) None (Some (''optional, disambiguates'')),
        mk_property ''condition'' (Some TString) None (Some (''e.g. count==5 '' @ em_dash @ '' auto-resumes if false''))]
       [''class_pattern'', ''line''],
     mk_tool ''debug.list_breakpoints'' ''List active breakpoints''
       []
       [],
     mk_tool ''debug.clear_breakpoint'' ''Remove a breakpoint by ID''
       [mk_property ''breakpoint_id'' (Some TString) None None]
       [''breakpoint_id''],
     mk_tool ''debug.continue'' ''Resume all threads''
       []
       []]"

definition step_tools :: "tool list" where
  "step_tools =
    [mk_tool ''debug.step_into'' ''Step into next line''
       [mk_property ''thread_id'' (Some TString) None (Some (''hex e.g. 0x1a2b, optional''))]
       [],
     mk_tool ''debug.step_over'' ''Step over next line''
       [mk_property ''thread_id'' (Some TString) None (Some (''hex e.g. 0x1a2b, optional''))]
       [],
     mk_tool ''debug.step_out'' ''Step out of current frame''
       [mk_property ''thread_id'' (Some TString) None (Some (''hex e.g. 0x1a2b, optional''))]
       [],
     mk_tool ''debug.get_stack'' ''Get stack frames with variables''
       [mk_property ''thread_id'' (Some TString) None None,
        mk_property ''max_frames'' (Some TInteger) (Some (DInteger 20)) None,
        mk_property ''include_variables'' (Some TBoolean) (Some (DBool True)) None,
        mk_property ''max_variable_depth'' (Some TInteger) (Some (DInteger 2)) None]
       [],
     mk_tool ''debug.get_variable'' ''Read one local variable by name''
       [mk_property ''name'' (Some TString) None None,
        mk_property ''thread_id'' (Some TString) None (Some (''hex, optional'')),
        mk_property ''frame_index'' (Some TInteger) (Some (DInteger 0)) None]
       [''name''],
     mk_tool ''debug.select_thread'' ''Set default thread for inspection''
       [mk_property ''thread_id'' (Some TString) None (Some (''hex e.g. 0x1a2b''))]
       [''thread_id''],
     mk_tool ''debug.list_threads'' ''List all threads''
       []
       []]"

definition state_tools :: "tool list" where
  "state_tools =
    [mk_tool ''debug.pause'' ''Suspend all threads''
       []
       [],
     mk_tool ''debug.disconnect'' ''End debug session''
       []
       [],
     mk_tool ''debug.get_last_event'' ''Show last breakpoint/step event''
       []
       [],
     mk_tool ''debug.wait_for_event'' ''Wait for next event with timeout''
       [mk_property ''timeout_ms'' (Some TInteger) (Some (DInteger 30000)) None]
       [],
     mk_tool ''debug.inspect'' ''Inspect object fields by object ID''
       [mk_property ''object_id'' (Some TString) None (Some (''hex e.g. 0x1a3f''))]
       [''object_id''],
     mk_tool ''debug.find_class'' ''Search loaded classes by name pattern''
       [mk_property ''pattern'' (Some TString) None (Some (''e.g. UserService or com.example.User''))]
       [''pattern''],
     mk_tool ''debug.list_methods'' ''List methods of a class with line ranges''
       [mk_property ''class_pattern'' (Some TString) None (Some (''e.g. com.example.MyClass''))]
       [''class_pattern''],
     mk_tool ''debug.exception_breakpoint'' ''Break on exceptions (caught/uncaught, optionally by class)''
       [mk_property ''class_pattern'' (Some TString) None (Some (''exception class, omit for all'')),
        mk_property ''caught'' (Some TBoolean) (Some (DBool True)) None,
        mk_property ''uncaught'' (Some TBoolean) (Some (DBool True)) None]
       []]"

definition value_tools :: "tool list" where
  "value_tools =
    [mk_tool ''debug.eval'' (''Invoke a method on an object. Supports args: list.get(0), map.get('' @ dquote @ ''key'' @ dquote @ '')'')
       [mk_property ''object_id'' (Some TString) None (Some (''hex e.g. 0x1a3f'')),
        mk_property ''method'' (Some TString) (Some (DString ''toString'')) None,
        mk_property ''args'' (Some TArray) None (Some (''method arguments: [0], ['' @ dquote @ ''key'' @ dquote @ ''], [true]'')),
        mk_property ''thread_id'' (Some TString) None (Some (''hex, optional''))]
       [''object_id''],
     mk_tool ''debug.set_value'' ''Set a local variable value in a stack frame''
       [mk_property ''name'' (Some TString) None None,
        mk_property ''value'' None None (Some (''new value (int/bool/float/string/null)'')),
        mk_property ''thread_id'' (Some TString) None (Some (''hex, optional'')),
        mk_property ''frame_index'' (Some TInteger) (Some (DInteger 0)) None]
       [''name'', ''value''],
     mk_tool ''debug.snapshot'' ''Combined dump: last event + breakpoints + stack with vars''
       []
       [],
     mk_tool ''debug.vm_info'' ''Get JVM version info''
       []
       [],
     mk_tool ''debug.watch'' ''Watchpoint: break when a field is modified''
       [mk_property ''class_pattern'' (Some TString) None (Some (''e.g. com.example.MyClass'')),
        mk_property ''field'' (Some TString) None (Some (''field name to watch''))]
       [''class_pattern'', ''field''],
     mk_tool ''debug.trace'' ''Trace method calls on a class/package. Returns immediately; use debug.trace_result to get the call path.''
       [mk_property ''class_pattern'' (Some TString) None (Some (''e.g. com.example.service (appends * automatically)'')),
        mk_property ''include_args'' (Some TBoolean) (Some (DBool False)) (Some (''capture method args (slower)'')),
        mk_property ''aggregate'' (Some TBoolean) (Some (DBool False)) (Some (''aggregate mode: count calls + wall-clock time per method''))]
       [''class_pattern''],
     mk_tool ''debug.trace_result'' ''Get collected trace after debug.trace. Shows call path with depth.''
       [mk_property ''clear'' (Some TBoolean) (Some (DBool True)) (Some (''stop tracing after retrieval'')),
        mk_property ''min_ms'' (Some TInteger) (Some (DInteger 0)) (Some (''aggregate mode: only show methods >= this ms''))]
       [],
     mk_tool ''debug.wait_for_class'' ''Wait for a class to be loaded by the JVM. Use when set_breakpoint says class not found.''
       [mk_property ''class_pattern'' (Some TString) None (Some (''e.g. com.example.MyService or *MyService'')),
        mk_property ''timeout_ms'' (Some TInteger) (Some (DInteger 30000)) None]
       [''class_pattern'']]"

definition get_tools :: "tool list" where
  "get_tools = session_tools @ step_tools @ state_tools @ value_tools"

lemmas tool_list_defs = get_tools_def session_tools_def step_tools_def state_tools_def value_tools_def
  mk_tool_def mk_property_def

text \<open>Required properties are declared ones.\<close>

lemma required_declared: "\<forall>t \<in> set get_tools. set (tool_required t) \<subseteq> tp_name ` set (tool_properties t)"
  by (simp add: tool_list_defs)

end
