(* ===== verification/Dispatch.thy ===== *)
theory Dispatch
  imports Waiting Tools
begin

text \<open>
  The MCP side: the JSON-RPC types of \<open>mcp-server/src/protocol.rs\<close>, the dispatch of requests and
  tool calls in \<open>handlers.rs\<close>, and the message loop of \<open>main.rs\<close>. \<open>serde_json\<close> is the parameter
  \<open>serde\<close>: parsing and printing of texts, the derived conversions of the types, the accessors. A
  handler that panics ends the process; its result is \<open>None\<close>.
\<close>

section \<open>The types of JSON-RPC and MCP\<close>

record 'j json_rpc_request =
  rq_jsonrpc :: string
  rq_id :: 'j
  rq_method :: string
  rq_params :: "'j option"

record 'j json_rpc_error =
  er_code :: i32
  er_message :: string
  er_data :: "'j option"

record 'j json_rpc_response =
  rs_jsonrpc :: string
  rs_id :: 'j
  rs_result :: "'j option"
  rs_error :: "'j json_rpc_error option"

record client_info =
  client_name :: string
  client_version :: string

record initialize_params =
  ip_protocol_version :: string
  ip_tools :: bool
  ip_client_info :: client_info

record server_info =
  server_name :: string
  server_version :: string

record initialize_result =
  protocol_version :: string
  server_info :: server_info
  instructions :: "string option"

record 'j call_tool_params =
  call_name :: string
  call_arguments :: 'j

datatype content_block = TextBlock string

record call_tool_result =
  content :: "content_block list"
  call_is_error :: "bool option"

text \<open>What the server serializes with \<open>to_value\<close>.\<close>

datatype rpc_value = InitializeValue initialize_result | ToolsValue "tool list" | CallValue call_tool_result

definition PARSE_ERROR :: i32 where "PARSE_ERROR = - 32700"
definition INVALID_REQUEST :: i32 where "INVALID_REQUEST = - 32600"
definition METHOD_NOT_FOUND :: i32 where "METHOD_NOT_FOUND = - 32601"
definition INVALID_PARAMS :: i32 where "INVALID_PARAMS = - 32602"
definition INTERNAL_ERROR :: i32 where "INTERNAL_ERROR = - 32603"

section \<open>Parameters\<close>

text \<open>
  \<open>serde_json\<close>: \<open>from_str\<close> and \<open>to_string\<close>, \<open>from_value\<close> at the types the server reads (an error is
  its text), \<open>to_value\<close>, \<open>json!({})\<close>, \<open>Value::Null\<close>.
\<close>

record 'j serde =
  accessors :: "'j json_api"
  from_str :: "string \<Rightarrow> 'j option"
  to_string :: "'j json_rpc_response \<Rightarrow> string"
  as_request :: "'j \<Rightarrow> string + 'j json_rpc_request"
  as_initialize :: "'j \<Rightarrow> string + initialize_params"
  as_call :: "'j \<Rightarrow> string + 'j call_tool_params"
  to_value :: "rpc_value \<Rightarrow> 'j"
  empty_object :: 'j
  null_value :: 'j

text \<open>The rest of the world during one message: connecting, the clock, the schedule of a wait.\<close>

record 'w surroundings =
  dial :: "string \<Rightarrow> u16 \<Rightarrow> u64 \<Rightarrow> 'w connection jdwp_result"
  timestamp :: nat
  clock :: nat
  schedule :: wait_schedule

section \<open>Tool calls\<close>

definition total :: "('s, string, string) eff \<Rightarrow> ('s, string, string option) eff" where
  "total h = ebind h (\<lambda>t. ereturn (Some t))"

definition tool_routes ::
    "'j json_api \<Rightarrow> float_text \<Rightarrow> 'w surroundings \<Rightarrow> 'j
     \<Rightarrow> (string \<times> ('w session_manager, string, string option) eff) list" where
  "tool_routes api ft w args =
    [(''debug.attach'', total (handle_attach api (dial w) (timestamp w) args)),
     (''debug.set_breakpoint'', total (handle_set_breakpoint api args)),
     (''debug.list_breakpoints'', total handle_list_breakpoints),
     (''debug.clear_breakpoint'', total (handle_clear_breakpoint api args)),
     (''debug.continue'', total handle_continue),
     (''debug.step_into'', total (handle_step_into api args)),
     (''debug.step_over'', total (handle_step_over api args)),
     (''debug.step_out'', total (handle_step_out api args)),
     (''debug.get_stack'', total (handle_get_stack api ft args)),
     (''debug.get_variable'', total (handle_get_variable api ft args)),
     (''debug.select_thread'', total (handle_select_thread api args)),
     (''debug.list_threads'', total handle_list_threads),
     (''debug.pause'', total handle_pause),
     (''debug.disconnect'', total handle_disconnect),
     (''debug.get_last_event'', total handle_get_last_event),
     (''debug.wait_for_event'', total (handle_wait_for_event api ft (schedule w) args)),
     (''debug.inspect'', total (handle_inspect api ft args)),
     (''debug.find_class'', total (handle_find_class api args)),
     (''debug.list_methods'', total (handle_list_methods api args)),
     (''debug.exception_breakpoint'', total (handle_exception_breakpoint api args)),
     (''debug.eval'', handle_eval api ft args),
     (''debug.set_value'', total (handle_set_value api ft args)),
     (''debug.snapshot'', total (handle_snapshot ft)),
     (''debug.vm_info'', total handle_vm_info),
     (''debug.watch'', total (handle_watch api args)),
     (''debug.trace'', total (handle_trace api (clock w) args)),
     (''debug.trace_result'', total (handle_trace_result api (clock w) args)),
     (''debug.wait_for_class'', total (handle_wait_for_class api ft (schedule w) args))]"

definition run_tool ::
    "'j json_api \<Rightarrow> float_text \<Rightarrow> 'w surroundings \<Rightarrow> string \<Rightarrow> 'j
     \<Rightarrow> ('w session_manager, string, string option) eff" where
  "run_tool api ft w name args = (case map_of (tool_routes api ft w args) name of
      Some h \<Rightarrow> h
    | None \<Rightarrow> efail (''Unknown tool: '' @ name))"

definition rpc_error :: "i32 \<Rightarrow> string \<Rightarrow> 'j json_rpc_error" where
  "rpc_error c msg = \<lparr>er_code = c, er_message = msg, er_data = None\<rparr>"

text \<open>The check before the routing: a dead session answers only to attach and disconnect.\<close>

definition dead_session :: "string \<Rightarrow> 'w session_manager \<Rightarrow> string option" where
  "dead_session name m =
     (if name = ''debug.attach'' \<or> name = ''debug.disconnect'' then None
      else (case get_current_session m of
          None \<Rightarrow> None
        | Some a \<Rightarrow> if vm_dead (store m ! a)
            then Some (or_default ''unknown reason'' (disconnect_reason (store m ! a))) else None))"

definition call_content :: "string \<Rightarrow> bool option \<Rightarrow> call_tool_result" where
  "call_content text err = \<lparr>content = [TextBlock text], call_is_error = err\<rparr>"

definition handle_call_tool ::
    "'j serde \<Rightarrow> float_text \<Rightarrow> 'w surroundings \<Rightarrow> 'j option \<Rightarrow> 'w session_manager
     \<Rightarrow> ('j json_rpc_error + 'j) option \<times> 'w session_manager" where
  "handle_call_tool sv ft w params m =
     (case as_call sv (or_default (empty_object sv) params) of
        Inl e \<Rightarrow> (Some (Inl (rpc_error INVALID_PARAMS (''Invalid tool call params: '' @ e))), m)
      | Inr p \<Rightarrow>
          (case dead_session (call_name p) m of
             Some reason \<Rightarrow> (Some (Inl (rpc_error INTERNAL_ERROR
               (''Session dead: '' @ reason @ ''. Use debug.attach to reconnect.''))), m)
           | None \<Rightarrow>
               (case run_tool (accessors sv) ft w (call_name p) (call_arguments p) m of
                  (Inl e, m) \<Rightarrow> (Some (Inr (to_value sv (CallValue (call_content e (Some True))))), m)
                | (Inr (Some t), m) \<Rightarrow> (Some (Inr (to_value sv (CallValue (call_content t None)))), m)
                | (Inr None, m) \<Rightarrow> (None, m))))"

section \<open>Requests and notifications\<close>

text \<open>The instructions sent to the agent and the version of the package are texts of the build.\<close>

definition handle_initialize ::
    "'j serde \<Rightarrow> string \<Rightarrow> string \<Rightarrow> 'j option \<Rightarrow> 'j json_rpc_error + 'j" where
  "handle_initialize sv version agent_instructions params =
     (case as_initialize sv (or_default (empty_object sv) params) of
        Inl e \<Rightarrow> Inl (rpc_error INVALID_PARAMS (''Invalid initialize params: '' @ e))
      | Inr _ \<Rightarrow> Inr (to_value sv (InitializeValue
          \<lparr>protocol_version = ''2024-11-05'',
           server_info = \<lparr>server_name = ''jdwp-mcp'', server_version = version\<rparr>,
           instructions = Some agent_instructions\<rparr>)))"

definition handle_list_tools :: "'j serde \<Rightarrow> 'j json_rpc_error + 'j" where
  "handle_list_tools sv = Inr (to_value sv (ToolsValue get_tools))"

definition response :: "'j \<Rightarrow> 'j json_rpc_error + 'j \<Rightarrow> 'j json_rpc_response" where
  "response i r = (case r of
      Inr v \<Rightarrow> \<lparr>rs_jsonrpc = ''2.0'', rs_id = i, rs_result = Some v, rs_error = None\<rparr>
    | Inl e \<Rightarrow> \<lparr>rs_jsonrpc = ''2.0'', rs_id = i, rs_result = None, rs_error = Some e\<rparr>)"

record build =
  package_version :: string
  agent_instructions :: string
  floats :: float_text

definition handle_request ::
    "'j serde \<Rightarrow> build \<Rightarrow> 'w surroundings \<Rightarrow> 'j json_rpc_request \<Rightarrow> 'w session_manager
     \<Rightarrow> 'j json_rpc_response option \<times> 'w session_manager" where
  "handle_request sv b w rq m =
     (if rq_method rq = ''initialize''
      then (Some (response (rq_id rq) (handle_initialize sv (package_version b) (agent_instructions b) (rq_params rq))), m)
      else if rq_method rq = ''tools/list'' then (Some (response (rq_id rq) (handle_list_tools sv)), m)
      else if rq_method rq = ''tools/call''
      then (case handle_call_tool sv (floats b) w (rq_params rq) m of (r, m) \<Rightarrow> (map_option (response (rq_id rq)) r, m))
      else (Some (response (rq_id rq) (Inl (rpc_error METHOD_NOT_FOUND (''Method not found: '' @ rq_method rq)))), m))"

section \<open>The message loop\<close>

text \<open>
  One line of input: \<open>Silent\<close> for an empty line or a notification, whose handling only logs;
  \<open>Reply\<close> with the response to write; \<open>Panic\<close>.
\<close>

datatype 'j line_answer = Silent | Reply "'j json_rpc_response" | Panic

definition answer_line ::
    "'j serde \<Rightarrow> build \<Rightarrow> 'w surroundings \<Rightarrow> string \<Rightarrow> 'w session_manager \<Rightarrow> 'j line_answer \<times> 'w session_manager" where
  "answer_line sv b w raw m =
     (let line = trim raw
      in if line = [] then (Silent, m)
         else (case from_str sv line of
             None \<Rightarrow> (Reply (response (null_value sv) (Inl (rpc_error PARSE_ERROR ''Parse error''))), m)
           | Some v \<Rightarrow>
               if j_get (accessors sv) v ''id'' \<noteq> None
               then (case as_request sv v of
                   Inl _ \<Rightarrow> (Reply (response (null_value sv) (Inl (rpc_error INVALID_REQUEST ''Invalid request''))), m)
                 | Inr rq \<Rightarrow> (case handle_request sv b w rq m of
                     (Some r, m) \<Rightarrow> (Reply r, m) | (None, m) \<Rightarrow> (Panic, m)))
               else (Silent, m)))"

text \<open>Standard output; \<open>out_error\<close> is the outcome of writing to it.\<close>

record stdout =
  out_text :: string
  out_error :: "io_error option"

definition write_line :: "string \<Rightarrow> stdout \<Rightarrow> stdout option" where
  "write_line l o' = (case out_error o' of
      Some _ \<Rightarrow> None | None \<Rightarrow> Some (o'\<lparr>out_text := out_text o' @ l @ nl\<rparr>))"

datatype read_outcome = ReadLine string | EndOfInput | ReadFailed io_error

text \<open>\<open>Reading\<close>: the loop is waiting for more input.\<close>

datatype loop_end = Reading | Stopped | OutputFailed | Panicked

fun message_loop ::
    "'j serde \<Rightarrow> build \<Rightarrow> ('w surroundings \<times> read_outcome) list \<Rightarrow> stdout \<times> 'w session_manager
     \<Rightarrow> loop_end \<times> stdout \<times> 'w session_manager" where
  "message_loop sv b [] st = (Reading, st)"
| "message_loop sv b ((w, inp) # inputs) (o', m) = (case inp of
      EndOfInput \<Rightarrow> (Stopped, o', m)
    | ReadFailed _ \<Rightarrow> (Stopped, o', m)
    | ReadLine raw \<Rightarrow> (case answer_line sv b w raw m of
        (Silent, m) \<Rightarrow> message_loop sv b inputs (o', m)
      | (Panic, m) \<Rightarrow> (Panicked, o', m)
      | (Reply r, m) \<Rightarrow> (case write_line (to_string sv r) o' of
            None \<Rightarrow> (OutputFailed, o', m)
          | Some o' \<Rightarrow> message_loop sv b inputs (o', m))))"

end
