(* ===== verification/Ledger.thy ===== *)
theory Ledger
  imports Control
begin

text \<open>
  What \<open>debug.set_breakpoint\<close> and \<open>debug.clear_breakpoint\<close> promise together: a ledger of two sets of
  request ids, those the session lists and those the JVM has armed. The calls of the two tools, in
  any order and with any outcome, are steps of the ledger.
\<close>

section \<open>The ledger\<close>

inductive ledger :: "i32 set \<times> i32 set \<Rightarrow> i32 set \<times> i32 set \<Rightarrow> bool" where
  entered: "rid \<notin> arm \<Longrightarrow> ledger (lst, arm) (insert rid lst, insert rid arm)"
| removed: "rid \<in> lst \<Longrightarrow> ledger (lst, arm) (lst - {rid}, arm - {rid})"
| failed: "arm \<subseteq> arm' \<Longrightarrow> ledger (lst, arm) (lst, arm')"

inductive_cases ledger_cases: "ledger (lst, arm) (lst', arm')"

definition ledger_of :: "('w \<Rightarrow> (u8 \<times> i32) set) \<Rightarrow> 'w debug_session \<Rightarrow> i32 set \<times> i32 set" where
  "ledger_of armed s = (table_requests (breakpoints s), bp_armed armed s)"

text \<open>Whatever is listed stays armed.\<close>

lemma ledger_listed_armed: "ledger\<^sup>*\<^sup>* p q \<Longrightarrow> fst p \<subseteq> snd p \<Longrightarrow> fst q \<subseteq> snd q"
proof (induction rule: rtranclp_induct)
  case base
  then show ?case .
next
  case (step q r)
  from step.hyps(2) step.IH step.prems show ?case
    by cases auto
qed

section \<open>The calls\<close>

datatype breakpoint_call = SetBreakpoint string i32 "string option" "string option" | ClearBreakpoint string

fun make_call :: "breakpoint_call \<Rightarrow> ('w debug_session, string, string) eff" where
  "make_call (SetBreakpoint pattern line hint cond) = place_breakpoint pattern line hint cond"
| "make_call (ClearBreakpoint key) = drop_breakpoint key"

fun make_calls ::
    "breakpoint_call list \<Rightarrow> 'w debug_session \<Rightarrow> (string + string) list \<times> 'w debug_session" where
  "make_calls [] s = ([], s)"
| "make_calls (b # bs) s = (case make_call b s of
     (r, s) \<Rightarrow> (case make_calls bs s of (rs, s) \<Rightarrow> (r # rs, s)))"

definition ledger_ready :: "('w \<Rightarrow> (u8 \<times> i32) set) \<Rightarrow> 'w debug_session \<Rightarrow> bool" where
  "ledger_ready armed s \<longleftrightarrow> jvm_contract (loop_send (conn s)) armed
     \<and> clears_succeed (loop_send (conn s)) \<and> table_inv (breakpoints s)"

lemma place_steps:
  assumes "ledger_ready armed s" and "place_breakpoint pattern line hint cond s = (r, s')"
  shows "ledger_ready armed s' \<and> ledger (ledger_of armed s) (ledger_of armed s')
    \<and> ((\<exists>x. r = Inr x) \<longrightarrow> (\<exists>rid. rid \<notin> bp_armed armed s
         \<and> ledger_of armed s' = (insert rid (table_requests (breakpoints s)), insert rid (bp_armed armed s))))"
proof -
  from assms(1) have c: "jvm_contract (loop_send (conn s)) armed" and t: "table_inv (breakpoints s)"
    by (simp_all add: ledger_ready_def)
  note p = place_breakpoint_ledger [OF c t assms(2)]
  show ?thesis
    using p assms(1)
    by (cases r) (auto simp: ledger_ready_def ledger_of_def intro: entered failed)
qed

lemma drop_fails_untouched:
  assumes "clears_succeed (loop_send (conn s))" and "drop_breakpoint key s = (Inl e, s')"
  shows "s' = s"
proof (cases "map_of (breakpoints s) key")
  case None
  with assms(2) show ?thesis by (simp add: drop_breakpoint_def)
next
  case (Some bp)
  obtain q c where q: "clear_event_request EK_BREAKPOINT (bp_request_id bp) (conn s) = (q, c)" by force
  with clear_step_succeeds [OF assms(1), of EK_BREAKPOINT "bp_request_id bp"] have "q = Inr ()" by simp
  with Some q assms(2) show ?thesis
    by (simp add: drop_breakpoint_def ebind_def on_conn_err_def clear_breakpoint_def eset_def ereturn_def)
qed

lemma drop_steps:
  assumes "ledger_ready armed s" and "drop_breakpoint key s = (r, s')"
  shows "ledger_ready armed s' \<and> ledger (ledger_of armed s) (ledger_of armed s')
    \<and> ((\<exists>x. r = Inr x) \<longrightarrow> (\<exists>rid \<in> table_requests (breakpoints s). key = bp_key rid
         \<and> ledger_of armed s' = (table_requests (breakpoints s) - {rid}, bp_armed armed s - {rid})))"
proof (cases r)
  case (Inl e)
  with assms drop_fails_untouched [of s key e s'] show ?thesis
    by (auto simp: ledger_ready_def ledger_of_def intro: failed)
next
  case (Inr x)
  from assms(1) have c: "jvm_contract (loop_send (conn s)) armed" and t: "table_inv (breakpoints s)"
    by (simp_all add: ledger_ready_def)
  note d = drop_breakpoint_ledger [OF c t assms(2)]
  with Inr obtain rid where rid: "rid \<in> table_requests (breakpoints s)" "key = bp_key rid"
    and after: "ledger_of armed s' = (table_requests (breakpoints s) - {rid}, bp_armed armed s - {rid})"
    by (auto simp: ledger_of_def)
  have "ledger_ready armed s'"
    using d assms(1) by (simp add: ledger_ready_def)
  moreover have "ledger (ledger_of armed s) (ledger_of armed s')"
    unfolding after by (simp add: ledger_of_def removed [OF rid(1)])
  ultimately show ?thesis
    using rid after by blast
qed

lemma call_steps:
  assumes "ledger_ready armed s" and "make_call b s = (r, s')"
  shows "ledger_ready armed s' \<and> ledger (ledger_of armed s) (ledger_of armed s')
    \<and> ((\<exists>x. r = Inr x) \<and> table_requests (breakpoints s) = bp_armed armed s \<longrightarrow>
         table_requests (breakpoints s') = bp_armed armed s')"
proof (cases b)
  case (SetBreakpoint pattern line hint cond)
  with assms(2) have "place_breakpoint pattern line hint cond s = (r, s')" by simp
  from place_steps [OF assms(1) this] show ?thesis
    by (auto simp: ledger_of_def)
next
  case (ClearBreakpoint key)
  with assms(2) have "drop_breakpoint key s = (r, s')" by simp
  from drop_steps [OF assms(1) this] show ?thesis
    by (auto simp: ledger_of_def)
qed

lemma calls_step:
  assumes "ledger_ready armed s" and "make_calls bs s = (rs, s')"
  shows "ledger_ready armed s' \<and> ledger\<^sup>*\<^sup>* (ledger_of armed s) (ledger_of armed s')
    \<and> ((\<forall>r \<in> set rs. \<exists>x. r = Inr x) \<and> table_requests (breakpoints s) = bp_armed armed s \<longrightarrow>
         table_requests (breakpoints s') = bp_armed armed s')"
  using assms
proof (induction bs arbitrary: s rs)
  case Nil
  then show ?case by simp
next
  case (Cons b bs)
  obtain r t where rt: "make_call b s = (r, t)" by force
  obtain qs u where qs: "make_calls bs t = (qs, u)" by force
  with rt Cons.prems(2) have rs: "rs = r # qs" "s' = u" by simp_all
  note one = call_steps [OF Cons.prems(1) rt]
  with Cons.IH [of t qs] qs rs have rest: "ledger_ready armed s'"
    "ledger\<^sup>*\<^sup>* (ledger_of armed t) (ledger_of armed s')"
    "(\<forall>r \<in> set qs. \<exists>x. r = Inr x) \<and> table_requests (breakpoints t) = bp_armed armed t \<longrightarrow>
       table_requests (breakpoints s') = bp_armed armed s'"
    by blast+
  from one rest(2) have "ledger\<^sup>*\<^sup>* (ledger_of armed s) (ledger_of armed s')"
    by (blast intro: converse_rtranclp_into_rtranclp)
  moreover have "(\<forall>r \<in> set rs. \<exists>x. r = Inr x) \<and> table_requests (breakpoints s) = bp_armed armed s \<longrightarrow>
       table_requests (breakpoints s') = bp_armed armed s'"
    using one rest(3) rs(1) by (metis list.set_intros)
  ultimately show ?case
    using rest(1) by blast
qed

section \<open>A condition that does not parse\<close>

text \<open>Where the call without a condition would succeed, the request is armed all the same.\<close>

lemma bad_condition_armed:
  assumes "place_breakpoint pattern line hint None s = (Inr msg, s1)" and "parse_condition cond = None"
  shows "\<exists>e s2. place_breakpoint pattern line hint (Some cond) s = (Inl e, s2)
    \<and> conn s2 = conn s1 \<and> breakpoints s2 = breakpoints s"
proof -
  from assms(1) obtain classes t c m ix u rid q where
    1: "resolve_classes pattern s = (Inr classes, t)" "classes \<noteq> []" and
    2: "choose_location hint line classes t = (Inr (Some (c, m, ix)), u)" and
    3: "on_conn_err ''Failed to set breakpoint'' (set_breakpoint (type_id c) (mi_id m) ix SuspendAll) u = (Inr rid, q)" and
    4: "conn s1 = conn q"
    by (auto simp: place_breakpoint_def ebind_Inr_iff check_condition_def record_breakpoint_def eset_def
        efail_def ereturn_def split: if_splits option.splits)
  have "breakpoints q = breakpoints u"
    using 3 by (auto simp: on_conn_err_Inr)
  moreover have "breakpoints u = breakpoints s"
    using reads_fields [OF keeps_run [OF reads_resolve_classes 1(1)]]
      reads_fields [OF keeps_run [OF reads_choose_location 2]] by simp
  ultimately show ?thesis
    using 1 2 3 4 assms(2) by (simp add: place_breakpoint_def ebind_def check_condition_def efail_def)
qed

end
