(* ===== verification/EventChannel.thy ===== *)
theory EventChannel
  imports Events
begin

text \<open>
  The event half of \<open>jdwp-client/src/eventloop.rs\<close>: \<open>publish_event\<close> and \<open>recv_event\<close>, the two sides
  of the bounded channel of event sets and of the \<open>Notify\<close> that wakes the consumer, at the granularity
  of their await points. The producer's place in \<open>publish_event\<close> and the consumer's place in
  \<open>recv_event\<close> are part of the state. The channel and the \<open>Notify\<close> are those of tokio: what they do
  is the parameter \<open>tokio\<close>, what the code relies on the hypotheses \<open>mpsc_contract\<close> and
  \<open>notify_contract\<close>.
\<close>

section \<open>What tokio provides\<close>

text \<open>
  \<open>mpsc_send\<close> is \<open>None\<close> while the channel has no room, \<open>mpsc_try_recv\<close> while it is empty;
  \<open>call_notify_one\<close> says whether it woke a waiting task, \<open>await_notified\<close> whether it completes at once.
\<close>

record ('q, 'n) tokio =
  mpsc_channel :: "nat \<Rightarrow> 'q"
  mpsc_send :: "event_set \<Rightarrow> 'q \<Rightarrow> 'q option"
  mpsc_try_recv :: "'q \<Rightarrow> (event_set \<times> 'q) option"
  new_notify :: 'n
  call_notify_one :: "'n \<Rightarrow> bool \<times> 'n"
  await_notified :: "'n \<Rightarrow> bool \<times> 'n"

text \<open>A bounded channel is a queue: of its contents and its capacity.\<close>

definition mpsc_contract :: "('q, 'n) tokio \<Rightarrow> ('q \<Rightarrow> event_set list) \<Rightarrow> ('q \<Rightarrow> nat) \<Rightarrow> bool" where
  "mpsc_contract tk contents capacity \<longleftrightarrow>
     (\<forall>n. contents (mpsc_channel tk n) = [] \<and> capacity (mpsc_channel tk n) = n)
     \<and> (\<forall>es q. case mpsc_send tk es q of
          None \<Rightarrow> capacity q \<le> length (contents q)
        | Some q' \<Rightarrow> length (contents q) < capacity q \<and> contents q' = contents q @ [es] \<and> capacity q' = capacity q)
     \<and> (\<forall>q. case mpsc_try_recv tk q of
          None \<Rightarrow> contents q = []
        | Some (e, q') \<Rightarrow> contents q = e # contents q' \<and> capacity q' = capacity q)"

text \<open>
  \<open>notify_one\<close> wakes the waiting task, or else stores the one permit, which the next \<open>notified\<close> takes;
  without a permit it waits.
\<close>

definition notify_contract :: "('q, 'n) tokio \<Rightarrow> ('n \<Rightarrow> bool) \<Rightarrow> ('n \<Rightarrow> bool) \<Rightarrow> bool" where
  "notify_contract tk permit waits \<longleftrightarrow>
     \<not> permit (new_notify tk) \<and> \<not> waits (new_notify tk)
     \<and> (\<forall>n. case call_notify_one tk n of (woke, n') \<Rightarrow>
          woke = waits n \<and> \<not> waits n' \<and> permit n' = (permit n \<or> \<not> woke))
     \<and> (\<forall>n. \<not> waits n \<longrightarrow> (case await_notified tk n of (ready, n') \<Rightarrow>
          ready = permit n \<and> \<not> permit n' \<and> waits n' = (\<not> ready)))"

lemma mpsc_send_law:
  "mpsc_contract tk contents capacity \<Longrightarrow> case mpsc_send tk es q of
      None \<Rightarrow> capacity q \<le> length (contents q)
    | Some q' \<Rightarrow> length (contents q) < capacity q \<and> contents q' = contents q @ [es] \<and> capacity q' = capacity q"
  unfolding mpsc_contract_def by blast

lemma mpsc_recv_law:
  "mpsc_contract tk contents capacity \<Longrightarrow> case mpsc_try_recv tk q of
      None \<Rightarrow> contents q = []
    | Some (e, q') \<Rightarrow> contents q = e # contents q' \<and> capacity q' = capacity q"
  unfolding mpsc_contract_def by blast

lemma mpsc_send_full:
  "mpsc_contract tk contents capacity \<Longrightarrow> mpsc_send tk es q = None \<longleftrightarrow> capacity q \<le> length (contents q)"
  using mpsc_send_law [where es = es and q = q and tk = tk and contents = contents and capacity = capacity] by (auto split: option.splits)

lemma mpsc_send_room:
  "mpsc_contract tk contents capacity \<Longrightarrow> mpsc_send tk es q = Some q' \<Longrightarrow>
     length (contents q) < capacity q \<and> contents q' = contents q @ [es] \<and> capacity q' = capacity q"
  using mpsc_send_law [where es = es and q = q and tk = tk and contents = contents and capacity = capacity] by simp

lemma mpsc_recv_empty:
  "mpsc_contract tk contents capacity \<Longrightarrow> mpsc_try_recv tk q = None \<longleftrightarrow> contents q = []"
  using mpsc_recv_law [where q = q and tk = tk and contents = contents and capacity = capacity] by (auto split: option.splits)

lemma mpsc_recv_head:
  "mpsc_contract tk contents capacity \<Longrightarrow> mpsc_try_recv tk q = Some (e, q') \<Longrightarrow>
     contents q = e # contents q' \<and> capacity q' = capacity q"
  using mpsc_recv_law [where q = q and tk = tk and contents = contents and capacity = capacity] by simp

lemma notify_one_wakes:
  "notify_contract tk permit waits \<Longrightarrow> call_notify_one tk n = (woke, n') \<Longrightarrow>
     woke = waits n \<and> \<not> waits n' \<and> permit n' = (permit n \<or> \<not> woke)"
  unfolding notify_contract_def by (metis (mono_tags, lifting) case_prod_conv)

lemma await_notified_ready:
  "notify_contract tk permit waits \<Longrightarrow> \<not> waits n \<Longrightarrow> await_notified tk n = (ready, n') \<Longrightarrow>
     ready = permit n \<and> \<not> permit n' \<and> waits n' = (\<not> ready)"
  unfolding notify_contract_def by (metis (mono_tags, lifting) case_prod_conv)

section \<open>The two sides of the channel\<close>

text \<open>\<open>mpsc::channel(256)\<close>.\<close>

definition EVENT_CAPACITY :: nat where
  "EVENT_CAPACITY = 256"

text \<open>
  \<open>Running\<close>: the loop is in its \<open>select!\<close>; \<open>Sending es\<close>: awaiting room for \<open>es\<close>;
  \<open>Notifying\<close>: the event is enqueued, \<open>notify_one\<close> not yet called; \<open>Gone\<close>: the task has ended.
\<close>

datatype producer = Running | Sending event_set | Notifying | Gone

text \<open>
  \<open>Trying\<close>: at the top of the loop of \<open>recv_event\<close>; \<open>Subscribing\<close>: the lock is released and
  \<open>notified()\<close> not yet polled; \<open>Parked\<close>: waiting for a notification.
\<close>

datatype consumer = Idle | Trying | Subscribing | Parked | Returned "event_set option"

record ('q, 'n) event_channel =
  queue :: 'q
  notify :: 'n
  rx_open :: bool
  producer :: producer
  consumer :: consumer

definition new_channel :: "('q, 'n) tokio \<Rightarrow> ('q, 'n) event_channel" where
  "new_channel tk = \<lparr>queue = mpsc_channel tk EVENT_CAPACITY, notify = new_notify tk, rx_open = True,
     producer = Running, consumer = Idle\<rparr>"

text \<open>The producer's steps of \<open>publish_event\<close>, from await point to await point.\<close>

definition publish_send :: "('q, 'n) tokio \<Rightarrow> ('q, 'n) event_channel \<Rightarrow> ('q, 'n) event_channel option" where
  "publish_send tk ch = (case producer ch of
     Sending es \<Rightarrow>
       (if \<not> rx_open ch then Some (ch\<lparr>producer := Gone\<rparr>)
        else (case mpsc_send tk es (queue ch) of
            None \<Rightarrow> None
          | Some q \<Rightarrow> Some (ch\<lparr>queue := q, producer := Notifying\<rparr>)))
   | _ \<Rightarrow> None)"

definition publish_notify :: "('q, 'n) tokio \<Rightarrow> ('q, 'n) event_channel \<Rightarrow> ('q, 'n) event_channel option" where
  "publish_notify tk ch =
     (if producer ch = Notifying
      then (case call_notify_one tk (notify ch) of (woke, n) \<Rightarrow>
        Some (ch\<lparr>notify := n, producer := Running, consumer := if woke then Trying else consumer ch\<rparr>))
      else None)"

text \<open>The consumer's steps of \<open>recv_event\<close>: \<open>try_recv\<close>, disconnected once the loop has ended.\<close>

definition recv_try :: "('q, 'n) tokio \<Rightarrow> ('q, 'n) event_channel \<Rightarrow> ('q, 'n) event_channel option" where
  "recv_try tk ch =
     (if consumer ch = Trying
      then Some (case mpsc_try_recv tk (queue ch) of
          Some (e, q) \<Rightarrow> ch\<lparr>queue := q, consumer := Returned (Some e)\<rparr>
        | None \<Rightarrow> if producer ch = Gone then ch\<lparr>consumer := Returned None\<rparr> else ch\<lparr>consumer := Subscribing\<rparr>)
      else None)"

definition recv_subscribe :: "('q, 'n) tokio \<Rightarrow> ('q, 'n) event_channel \<Rightarrow> ('q, 'n) event_channel option" where
  "recv_subscribe tk ch =
     (if consumer ch = Subscribing
      then (case await_notified tk (notify ch) of (ready, n) \<Rightarrow>
        Some (ch\<lparr>notify := n, consumer := if ready then Trying else Parked\<rparr>))
      else None)"

text \<open>\<open>try_recv_event\<close> may be called from any task while the consumer waits.\<close>

definition try_recv_event ::
    "('q, 'n) tokio \<Rightarrow> ('q, 'n) event_channel \<Rightarrow> event_set option \<times> ('q, 'n) event_channel" where
  "try_recv_event tk ch = (case mpsc_try_recv tk (queue ch) of
     Some (e, q) \<Rightarrow> (Some e, ch\<lparr>queue := q\<rparr>) | None \<Rightarrow> (None, ch))"

text \<open>
  A call of \<open>recv_event\<close> run without interruption until it returns or parks: the turns of its loop.
\<close>

partial_function (option) recv_event ::
    "('q, 'n) tokio \<Rightarrow> ('q, 'n) event_channel \<Rightarrow> ('q, 'n) event_channel option" where
  "recv_event tk ch = (case mpsc_try_recv tk (queue ch) of
      Some (e, q) \<Rightarrow> Some (ch\<lparr>queue := q, consumer := Returned (Some e)\<rparr>)
    | None \<Rightarrow>
        if producer ch = Gone then Some (ch\<lparr>consumer := Returned None\<rparr>)
        else (case await_notified tk (notify ch) of (ready, n) \<Rightarrow>
          if ready then recv_event tk (ch\<lparr>notify := n, consumer := Trying\<rparr>)
          else Some (ch\<lparr>notify := n, consumer := Parked\<rparr>)))"

section \<open>Interleavings\<close>

datatype chan_action =
    Publish event_set | PublishSend | PublishNotify | Shutdown | DropReceiver
  | CallRecv | RecvTry | RecvSubscribe | TakeResult | TryRecvEvent

fun chan_act ::
    "('q, 'n) tokio \<Rightarrow> chan_action \<Rightarrow> ('q, 'n) event_channel \<Rightarrow> ('q, 'n) event_channel option" where
  "chan_act tk (Publish es) ch = (if producer ch = Running then Some (ch\<lparr>producer := Sending es\<rparr>) else None)"
| "chan_act tk PublishSend ch = publish_send tk ch"
| "chan_act tk PublishNotify ch = publish_notify tk ch"
| "chan_act tk Shutdown ch = (if producer ch = Running then Some (ch\<lparr>producer := Gone\<rparr>) else None)"
| "chan_act tk DropReceiver ch = (if consumer ch = Idle then Some (ch\<lparr>rx_open := False\<rparr>) else None)"
| "chan_act tk CallRecv ch =
     (if consumer ch = Idle \<and> rx_open ch then Some (ch\<lparr>consumer := Trying\<rparr>) else None)"
| "chan_act tk RecvTry ch = recv_try tk ch"
| "chan_act tk RecvSubscribe ch = recv_subscribe tk ch"
| "chan_act tk TakeResult ch =
     (case consumer ch of Returned _ \<Rightarrow> Some (ch\<lparr>consumer := Idle\<rparr>) | _ \<Rightarrow> None)"
| "chan_act tk TryRecvEvent ch = Some (snd (try_recv_event tk ch))"

inductive chan_step :: "('q, 'n) tokio \<Rightarrow> ('q, 'n) event_channel \<Rightarrow> ('q, 'n) event_channel \<Rightarrow> bool" for tk where
  chan_stepI: "chan_act tk a ch = Some ch' \<Longrightarrow> chan_step tk ch ch'"

inductive chan_steps :: "('q, 'n) tokio \<Rightarrow> ('q, 'n) event_channel \<Rightarrow> ('q, 'n) event_channel \<Rightarrow> bool" for tk ch where
  chan_steps_refl: "chan_steps tk ch ch"
| chan_steps_step: "chan_steps tk ch ch' \<Longrightarrow> chan_step tk ch' ch'' \<Longrightarrow> chan_steps tk ch ch''"

inductive_cases chan_step_cases: "chan_step tk ch ch'"

fun run_chan :: "('q, 'n) tokio \<Rightarrow> chan_action list \<Rightarrow> ('q, 'n) event_channel \<Rightarrow> ('q, 'n) event_channel option" where
  "run_chan tk [] ch = Some ch"
| "run_chan tk (a # as) ch = Option.bind (chan_act tk a ch) (run_chan tk as)"

lemma run_chan_steps: "run_chan tk as ch = Some ch' \<Longrightarrow> chan_steps tk ch0 ch \<Longrightarrow> chan_steps tk ch0 ch'"
proof (induction as arbitrary: ch)
  case Nil
  then show ?case by simp
next
  case (Cons a as)
  then obtain c where "chan_act tk a ch = Some c" "run_chan tk as c = Some ch'"
    by (auto simp: Option.bind_eq_Some_conv)
  with Cons show ?case
    by (meson chan_stepI chan_steps_step)
qed

lemmas chan_defs = publish_send_def publish_notify_def recv_try_def recv_subscribe_def try_recv_event_def

section \<open>No wake-up is lost\<close>

text \<open>
  While events wait, a consumer that has found the channel empty is covered by a stored permit or by a
  notification about to be sent.
\<close>

definition wakeup_inv ::
    "('q \<Rightarrow> event_set list) \<Rightarrow> ('n \<Rightarrow> bool) \<Rightarrow> ('n \<Rightarrow> bool) \<Rightarrow> ('q, 'n) event_channel \<Rightarrow> bool" where
  "wakeup_inv contents permit waits ch \<longleftrightarrow>
     (waits (notify ch) \<longleftrightarrow> consumer ch = Parked)
     \<and> (contents (queue ch) \<noteq> [] \<and> consumer ch = Subscribing \<longrightarrow> permit (notify ch) \<or> producer ch = Notifying)
     \<and> (contents (queue ch) \<noteq> [] \<and> consumer ch = Parked \<longrightarrow> producer ch = Notifying)
     \<and> (consumer ch = Parked \<longrightarrow> \<not> permit (notify ch))"

lemma wakeup_inv_new:
  "mpsc_contract tk contents capacity \<Longrightarrow> notify_contract tk permit waits \<Longrightarrow>
     wakeup_inv contents permit waits (new_channel tk)"
  by (simp add: wakeup_inv_def new_channel_def mpsc_contract_def notify_contract_def)

lemma wakeup_inv_act:
  assumes q: "mpsc_contract tk contents capacity" and n: "notify_contract tk permit waits"
    and inv: "wakeup_inv contents permit waits ch" and act: "chan_act tk a ch = Some ch'"
  shows "wakeup_inv contents permit waits ch'"
proof (cases a)
  case PublishSend
  with inv act show ?thesis
    by (auto simp: wakeup_inv_def publish_send_def split: if_splits producer.splits option.splits)
next
  case PublishNotify
  obtain woke m where "call_notify_one tk (notify ch) = (woke, m)" by force
  with notify_one_wakes [OF n this] PublishNotify inv act show ?thesis
    by (auto simp: wakeup_inv_def publish_notify_def split: if_splits)
next
  case RecvTry
  with inv act mpsc_recv_empty [OF q, of "queue ch"] show ?thesis
    by (auto simp: wakeup_inv_def recv_try_def split: if_splits option.splits)
next
  case RecvSubscribe
  obtain ready m where "await_notified tk (notify ch) = (ready, m)" by force
  with await_notified_ready [OF n _ this] RecvSubscribe inv act show ?thesis
    by (auto simp: wakeup_inv_def recv_subscribe_def split: if_splits)
next
  case TryRecvEvent
  with inv act mpsc_recv_head [OF q, of "queue ch"] show ?thesis
    by (auto simp: wakeup_inv_def try_recv_event_def split: option.splits)
qed (use inv act in \<open>auto simp: wakeup_inv_def split: if_splits consumer.splits\<close>)

lemma wakeup_inv_steps:
  assumes "mpsc_contract tk contents capacity" and "notify_contract tk permit waits"
  shows "chan_steps tk ch ch' \<Longrightarrow> wakeup_inv contents permit waits ch \<Longrightarrow> wakeup_inv contents permit waits ch'"
  by (induction rule: chan_steps.induct) (auto elim!: chan_step_cases intro: wakeup_inv_act [OF assms])

section \<open>A call of the consumer\<close>

lemma recv_event_item: "mpsc_try_recv tk (queue ch) = Some (e, q) \<Longrightarrow>
    recv_event tk ch = Some (ch\<lparr>queue := q, consumer := Returned (Some e)\<rparr>)"
  by (subst recv_event.simps) simp

lemma recv_event_gone: "mpsc_try_recv tk (queue ch) = None \<Longrightarrow> producer ch = Gone \<Longrightarrow>
    recv_event tk ch = Some (ch\<lparr>consumer := Returned None\<rparr>)"
  by (subst recv_event.simps) simp

text \<open>It takes a stored permit at most once, so it parks after at most two turns.\<close>

lemma recv_event_park:
  assumes "notify_contract tk permit waits" and "\<not> waits (notify ch)"
    and "mpsc_try_recv tk (queue ch) = None" and "producer ch \<noteq> Gone"
  shows "\<exists>n. recv_event tk ch = Some (ch\<lparr>notify := n, consumer := Parked\<rparr>) \<and> \<not> permit n \<and> waits n"
proof -
  obtain r n where n: "await_notified tk (notify ch) = (r, n)" by force
  note one = await_notified_ready [OF assms(1,2) n]
  show ?thesis
  proof (cases r)
    case False
    with assms(3,4) n one show ?thesis
      by (subst recv_event.simps) auto
  next
    case True
    obtain r' n' where n': "await_notified tk n = (r', n')" by force
    have "\<not> waits n" using one True by simp
    from await_notified_ready [OF assms(1) this n'] one True have "\<not> r'" "\<not> permit n'" "waits n'" by auto
    then have "recv_event tk (ch\<lparr>notify := n, consumer := Trying\<rparr>) = Some (ch\<lparr>notify := n', consumer := Parked\<rparr>)"
      using assms(3,4) n' by (subst recv_event.simps) simp
    with True assms(3,4) n \<open>\<not> permit n'\<close> \<open>waits n'\<close> show ?thesis
      by (subst recv_event.simps) auto
  qed
qed

text \<open>Once the loop has ended nothing wakes a parked consumer.\<close>

definition stranded :: "('q, 'n) event_channel \<Rightarrow> bool" where
  "stranded ch \<longleftrightarrow> producer ch = Gone \<and> consumer ch = Parked"

lemma stranded_act: "stranded ch \<Longrightarrow> chan_act tk a ch = Some ch' \<Longrightarrow> stranded ch'"
  by (cases a) (auto simp: stranded_def chan_defs split: if_splits option.splits)

lemma stranded_steps: "chan_steps tk ch ch' \<Longrightarrow> stranded ch \<Longrightarrow> stranded ch'"
  by (induction rule: chan_steps.induct) (auto elim!: chan_step_cases intro: stranded_act)

section \<open>An instance\<close>

text \<open>The contents of a channel with its capacity, and a permit with a flag for the waiting task.\<close>

definition list_tokio :: "(nat \<times> event_set list, bool \<times> bool) tokio" where
  "list_tokio = \<lparr>mpsc_channel = (\<lambda>n. (n, [])),
     mpsc_send = (\<lambda>es (n, xs). if length xs < n then Some (n, xs @ [es]) else None),
     mpsc_try_recv = (\<lambda>(n, xs). case xs of [] \<Rightarrow> None | e # es \<Rightarrow> Some (e, n, es)),
     new_notify = (False, False),
     call_notify_one = (\<lambda>(permit, waits). (waits, permit \<or> \<not> waits, False)),
     await_notified = (\<lambda>(permit, waits). (permit, False, \<not> permit))\<rparr>"

lemma list_tokio_mpsc: "mpsc_contract list_tokio snd fst"
  by (auto simp: mpsc_contract_def list_tokio_def split: list.split)

lemma list_tokio_notify: "notify_contract list_tokio fst snd"
  by (auto simp: notify_contract_def list_tokio_def)

end
