(* ===== verification/EventLoop.thy ===== *)
theory EventLoop
  imports EventChannel Connection "HOL-Library.AList" "HOL-Library.Multiset"
begin

text \<open>
  \<open>jdwp-client/src/eventloop.rs\<close>: the framing of packets on the socket (\<open>read_packet\<close>), the
  branches of the loop's \<open>select!\<close> (a command, the clean-up tick, an incoming packet), and the
  interleavings of the loop with its clients. A reply channel is the index of the request in
  \<open>submitted\<close>; what its receiver gets is in \<open>answers\<close>. Times are nanoseconds.
\<close>

section \<open>Packets on the socket\<close>

definition MAX_PACKET_SIZE :: nat where
  "MAX_PACKET_SIZE = 50 * 1024 * 1024"

definition REPLY_TIMEOUT :: nat where
  "REPLY_TIMEOUT = 30 * 10 ^ 9"

definition take_exact :: "nat \<Rightarrow> (jdwp_error, bytes) parser" where
  "take_exact n buf =
     (if length buf < n then Inl (Io UnexpectedEof) else Inr (take n buf, drop n buf))"

type_synonym packet = "bool \<times> u32 \<times> bytes"

definition read_packet :: "(jdwp_error, packet) parser" where
  "read_packet =
     pbind (take_exact HEADER_SIZE) (\<lambda>header.
       let len = unat (from_be32 header);
           packet_id = from_be32 (drop 4 header);
           flags = header ! 8
       in if len < HEADER_SIZE then pfail (Protocol (''Invalid packet length: '' @ show_nat len))
          else if MAX_PACKET_SIZE < len
          then pfail (Protocol (''Packet too large: '' @ show_nat len @ '' bytes (max: ''
                 @ show_nat MAX_PACKET_SIZE @ '' bytes)''))
          else pbind (take_exact (len - HEADER_SIZE)) (\<lambda>data.
                 preturn (flags = REPLY_FLAG, packet_id, header @ data)))"

text \<open>
  A packet as it lies on the wire, and what the loop sees of it: the length field counts the whole
  packet, which fits the limit; the flag and the id are those of the header.
\<close>

definition frame_ok :: "packet \<Rightarrow> bool" where
  "frame_ok p \<longleftrightarrow> (case p of (is_reply, i, full) \<Rightarrow>
     HEADER_SIZE \<le> length full \<and> length full \<le> MAX_PACKET_SIZE
     \<and> unat (from_be32 full) = length full \<and> from_be32 (drop 4 full) = i
     \<and> is_reply = (full ! 8 = REPLY_FLAG))"

definition frame_bytes :: "packet \<Rightarrow> bytes" where
  "frame_bytes p = snd (snd p)"

lemma from_be32_take [simp]: "4 \<le> n \<Longrightarrow> from_be32 (take n bs) = from_be32 bs"
  by (cases bs rule: from_be32.cases) (auto simp: take_Cons' split: if_splits)

lemma from_be32_append [simp]: "4 \<le> length bs \<Longrightarrow> from_be32 (bs @ r) = from_be32 bs"
  by (cases bs rule: from_be32.cases) auto

lemma from_be32_cong: "take 4 a = take 4 b \<Longrightarrow> from_be32 a = from_be32 b"
  using from_be32_take [of 4 a] from_be32_take [of 4 b] by simp

lemma read_packet_frame:
  assumes "frame_ok p"
  shows "read_packet (frame_bytes p @ r) = Inr (p, r)"
proof -
  obtain b i full where p: "p = (b, i, full)" by (cases p)
  from assms p have len: "11 \<le> length full" "length full \<le> MAX_PACKET_SIZE"
    and be: "unat (from_be32 full) = length full"
    and i: "from_be32 (drop 4 full) = i" and b: "b = (full ! 8 = REPLY_FLAG)"
    by (auto simp: frame_ok_def HEADER_SIZE_def)
  have i': "from_be32 (drop 4 (take 11 full)) = i"
    using len i by (auto simp: drop_take intro!: from_be32_cong)
  have n: "length full - 11 \<le> length (drop 11 full)" "drop (length full - 11) (drop 11 full) = []"
    by simp_all
  have "take_exact HEADER_SIZE (full @ r) = Inr (take 11 full, drop 11 full @ r)"
    using len by (simp add: take_exact_def HEADER_SIZE_def)
  moreover have "take_exact (length full - HEADER_SIZE) (drop 11 full @ r) = Inr (drop 11 full, r)"
    using n by (simp add: take_exact_def HEADER_SIZE_def)
  ultimately show ?thesis
    using len be b i' n
    by (simp add: read_packet_def p frame_bytes_def HEADER_SIZE_def Let_def
        pbind_def preturn_def)
qed

lemma read_packet_sound:
  assumes "read_packet buf = Inr (p, r)"
  shows "frame_ok p \<and> buf = frame_bytes p @ r"
proof -
  let ?h = "take 11 buf" and ?n = "unat (from_be32 buf)"
  from assms have len: "11 \<le> length buf" "11 \<le> ?n" "?n \<le> MAX_PACKET_SIZE"
      "?n - 11 \<le> length buf - 11"
    and p: "p = (buf ! 8 = REPLY_FLAG, from_be32 (drop 4 ?h), ?h @ take (?n - 11) (drop 11 buf))"
    and r: "r = drop (?n - 11) (drop 11 buf)"
    by (auto simp: read_packet_def take_exact_def pbind_Inr_iff preturn_def pfail_def Let_def
        HEADER_SIZE_def not_less split: if_splits)
  have full: "?h @ take (?n - 11) (drop 11 buf) = take ?n buf"
    using len by (metis le_add_diff_inverse take_add)
  have "frame_ok p"
    using len unfolding p full frame_ok_def HEADER_SIZE_def
    by (auto simp: intro!: from_be32_cong simp: take_drop)
  moreover have "buf = frame_bytes p @ r"
    using len by (simp add: p r full frame_bytes_def)
  ultimately show ?thesis ..
qed

interpretation packet_codec: canonical_codec frame_bytes read_packet frame_ok
  by unfold_locales (auto simp: read_packet_frame dest: read_packet_sound)

text \<open>What the client writes and what the JVM replies are such packets.\<close>

definition command_frame :: "command_packet \<Rightarrow> bytes \<Rightarrow> packet" where
  "command_frame c bs = (False, cmd_id c, bs)"

definition reply_frame :: "reply_packet \<Rightarrow> packet" where
  "reply_frame r = (True, reply_id r, reply_wire r)"

lemma frame_ok_command:
  assumes "encode_command c = Inr bs" and "length bs \<le> MAX_PACKET_SIZE"
  shows "frame_ok (command_frame c bs)"
proof -
  have "bs = put_u32 (word_of_nat (HEADER_SIZE + length (cmd_data c))) @ put_u32 (cmd_id c)
      @ put_u8 0x00 @ put_u8 (command_set c) @ put_u8 (command c) @ cmd_data c"
    and "HEADER_SIZE + length (cmd_data c) < 2 ^ 32"
    using assms by (auto simp: encode_command_def Let_def split: if_splits)
  then show ?thesis
    using assms(2) unat_u32_of_nat [of "HEADER_SIZE + length (cmd_data c)"]
    by (simp add: frame_ok_def command_frame_def HEADER_SIZE_def drop_append
        nth_append put_u8_def REPLY_FLAG_def del: of_nat_add)
qed

lemma frame_ok_reply:
  "HEADER_SIZE + length (reply_data r) \<le> MAX_PACKET_SIZE \<Longrightarrow> frame_ok (reply_frame r)"
  using unat_u32_of_nat [of "HEADER_SIZE + length (reply_data r)"]
  by (simp add: frame_ok_def reply_frame_def reply_wire_def HEADER_SIZE_def MAX_PACKET_SIZE_def
      drop_append nth_append put_u8_def REPLY_FLAG_def del: of_nat_add)

text \<open>The id the loop routes by is the id of the decoded reply.\<close>

lemma decode_reply_id:
  "frame_ok (b, i, full) \<Longrightarrow> decode_reply full = Inr r \<Longrightarrow> reply_id r = i"
  by (auto simp: frame_ok_def decode_reply_def Let_def split: if_splits)

lemma decode_reply_total: "frame_ok (True, i, full) \<Longrightarrow> \<exists>r. decode_reply full = Inr r"
  by (auto simp: frame_ok_def decode_reply_def)

section \<open>The state of the loop\<close>

datatype reply_outcome = Answered "reply_packet jdwp_result" | Dropped

record command_request =
  packet :: command_packet
  reply_tx :: nat

record pending_reply =
  sender :: nat
  sent_at :: nat

record ('q, 'n) event_loop =
  command_rx :: "command_request list"
  pending_replies :: "(u32 \<times> pending_reply) list"
  chan :: "('q, 'n) event_channel"
  socket :: bytes
  read_buf :: bytes
  peer_closed :: bool
  written :: bytes
  submitted :: "command_packet list"
  answers :: "(nat \<times> reply_outcome) list"

text \<open>\<open>mpsc::channel(32)\<close>.\<close>

definition COMMAND_CAPACITY :: nat where
  "COMMAND_CAPACITY = 32"

definition spawn_event_loop :: "('q, 'n) tokio \<Rightarrow> bytes \<Rightarrow> ('q, 'n) event_loop" where
  "spawn_event_loop tk bs = \<lparr>command_rx = [], pending_replies = [], chan = new_channel tk, socket = bs,
     read_buf = [], peer_closed = False, written = [], submitted = [], answers = []\<rparr>"

definition answer :: "nat \<Rightarrow> reply_packet jdwp_result \<Rightarrow> ('q, 'n) event_loop \<Rightarrow> ('q, 'n) event_loop" where
  "answer t r st = st\<lparr>answers := answers st @ [(t, Answered r)]\<rparr>"

text \<open>A dropped sender resolves its receiver with an error.\<close>

definition drop_senders :: "nat list \<Rightarrow> ('q, 'n) event_loop \<Rightarrow> ('q, 'n) event_loop" where
  "drop_senders ts st = st\<lparr>answers := answers st @ map (\<lambda>t. (t, Dropped)) ts\<rparr>"

section \<open>The branches of the loop\<close>

datatype write_outcome = Written | WriteFailed nat io_error | FlushFailed io_error

text \<open>\<open>HashMap::insert\<close>: a sender already waiting under the id is dropped.\<close>

definition insert_pending :: "u32 \<Rightarrow> pending_reply \<Rightarrow> ('q, 'n) event_loop \<Rightarrow> ('q, 'n) event_loop" where
  "insert_pending i p st =
     (drop_senders (case map_of (pending_replies st) i of Some q \<Rightarrow> [sender q] | None \<Rightarrow> []) st)
       \<lparr>pending_replies := AList.update i p (pending_replies st)\<rparr>"

text \<open>
  Outgoing commands. \<open>w\<close> is the outcome of \<open>write_all\<close> and \<open>flush\<close>; a failed write may have put a
  prefix on the wire. Handling any branch drops the pending \<open>read_packet\<close> with what it had read.
\<close>

definition handle_command :: "write_outcome \<Rightarrow> nat \<Rightarrow> ('q, 'n) event_loop \<Rightarrow> ('q, 'n) event_loop" where
  "handle_command w now st = (case command_rx st of
      [] \<Rightarrow> st
    | cmd # rest \<Rightarrow>
        (let st = st\<lparr>command_rx := rest, read_buf := []\<rparr>
         in case encode_command (packet cmd) of
              Inl e \<Rightarrow> answer (reply_tx cmd) (Inl e) st
            | Inr data \<Rightarrow>
                (case w of
                   WriteFailed k e \<Rightarrow>
                     answer (reply_tx cmd) (Inl (Io e)) (st\<lparr>written := written st @ take k data\<rparr>)
                 | FlushFailed e \<Rightarrow>
                     answer (reply_tx cmd) (Inl (Io e)) (st\<lparr>written := written st @ data\<rparr>)
                 | Written \<Rightarrow>
                     insert_pending (cmd_id (packet cmd)) \<lparr>sender = reply_tx cmd, sent_at = now\<rparr>
                       (st\<lparr>written := written st @ data\<rparr>))))"

text \<open>The clean-up tick; \<open>duration_since\<close> saturates at zero.\<close>

definition expired :: "nat \<Rightarrow> pending_reply \<Rightarrow> bool" where
  "expired now p \<longleftrightarrow> REPLY_TIMEOUT < now - sent_at p"

definition handle_cleanup :: "nat \<Rightarrow> ('q, 'n) event_loop \<Rightarrow> ('q, 'n) event_loop" where
  "handle_cleanup now st =
     drop_senders (map (sender \<circ> snd) (filter (expired now \<circ> snd) (pending_replies st)))
       (st\<lparr>pending_replies := filter (Not \<circ> expired now \<circ> snd) (pending_replies st), read_buf := []\<rparr>)"

definition route_reply :: "u32 \<Rightarrow> bytes \<Rightarrow> ('q, 'n) event_loop \<Rightarrow> ('q, 'n) event_loop" where
  "route_reply i data st = (case map_of (pending_replies st) i of
      None \<Rightarrow> st
    | Some p \<Rightarrow> answer (sender p) (decode_reply data)
                 (st\<lparr>pending_replies := AList.delete i (pending_replies st)\<rparr>))"

text \<open>Leaving the loop drops the command receiver and every pending sender.\<close>

definition shut_down :: "('q, 'n) event_loop \<Rightarrow> ('q, 'n) event_loop" where
  "shut_down st =
     drop_senders (map reply_tx (command_rx st) @ map (sender \<circ> snd) (pending_replies st))
       (st\<lparr>command_rx := [], pending_replies := [], chan := (chan st)\<lparr>producer := Gone\<rparr>\<rparr>)"

definition handle_packet :: "float_text \<Rightarrow> packet jdwp_result \<Rightarrow> ('q, 'n) event_loop \<Rightarrow> ('q, 'n) event_loop" where
  "handle_packet ft r st = (case r of
      Inl e \<Rightarrow> shut_down st
    | Inr (is_reply, i, data) \<Rightarrow>
        (if is_reply then route_reply i data st
         else (case parse_event_packet ft (drop HEADER_SIZE data) of
                 Inl e \<Rightarrow> st
               | Inr es \<Rightarrow> st\<lparr>chan := (chan st)\<lparr>producer := Sending es\<rparr>\<rparr>)))"

text \<open>
  Polling \<open>read_packet\<close>: it takes what the socket has until the packet is complete or known to be
  bad, and fails when the peer has closed the stream before that.
\<close>

datatype read_poll = NotReady bytes | ReadOk packet bytes | ReadFailed jdwp_error

definition poll_read :: "bool \<Rightarrow> bytes \<Rightarrow> bytes \<Rightarrow> read_poll" where
  "poll_read eof buf sock = (case read_packet (buf @ sock) of
      Inr (p, rest) \<Rightarrow> ReadOk p rest
    | Inl e \<Rightarrow> (if e = Io UnexpectedEof \<and> \<not> eof then NotReady (buf @ sock) else ReadFailed e))"

definition handle_read :: "float_text \<Rightarrow> ('q, 'n) event_loop \<Rightarrow> ('q, 'n) event_loop" where
  "handle_read ft st = (case poll_read (peer_closed st) (read_buf st) (socket st) of
      NotReady buf \<Rightarrow> st\<lparr>read_buf := buf, socket := []\<rparr>
    | ReadOk p rest \<Rightarrow> handle_packet ft (Inr p) (st\<lparr>read_buf := [], socket := rest\<rparr>)
    | ReadFailed e \<Rightarrow> handle_packet ft (Inl e) (st\<lparr>read_buf := []\<rparr>))"

section \<open>The handle\<close>

text \<open>
  \<open>EventLoopHandle::send_command\<close>: the request enters the channel while there is room, and the
  caller gets what its reply channel is resolved with.
\<close>

definition submit :: "command_packet \<Rightarrow> ('q, 'n) event_loop \<Rightarrow> (jdwp_error + ('q, 'n) event_loop) option" where
  "submit p st =
     (if producer (chan st) = Gone then Some (Inl (Protocol ''Event loop shut down''))
      else if length (command_rx st) < COMMAND_CAPACITY
      then Some (Inr (st\<lparr>command_rx := command_rx st @ [\<lparr>packet = p, reply_tx = length (submitted st)\<rparr>],
                        submitted := submitted st @ [p]\<rparr>))
      else None)"

fun reply_result :: "reply_outcome \<Rightarrow> reply_packet jdwp_result" where
  "reply_result (Answered r) = r"
| "reply_result Dropped = Inl (Protocol ''Reply channel closed'')"

section \<open>Interleavings\<close>

datatype loop_action =
    Submit command_packet
  | Arrive bytes
  | PeerCloses
  | DoCommand write_outcome nat
  | DoCleanup nat
  | DoRead
  | DoChan chan_action

definition selecting :: "('q, 'n) event_loop \<Rightarrow> bool" where
  "selecting st \<longleftrightarrow> producer (chan st) = Running"

fun own_action :: "chan_action \<Rightarrow> bool" where
  "own_action (Publish _) = False"
| "own_action Shutdown = False"
| "own_action _ = True"

fun loop_act ::
    "('q, 'n) tokio \<Rightarrow> float_text \<Rightarrow> loop_action \<Rightarrow> ('q, 'n) event_loop \<Rightarrow> ('q, 'n) event_loop option" where
  "loop_act tk ft (Submit p) st = (case submit p st of Some (Inr st') \<Rightarrow> Some st' | _ \<Rightarrow> None)"
| "loop_act tk ft (Arrive bs) st =
     (if peer_closed st then None else Some (st\<lparr>socket := socket st @ bs\<rparr>))"
| "loop_act tk ft PeerCloses st = Some (st\<lparr>peer_closed := True\<rparr>)"
| "loop_act tk ft (DoCommand w now) st =
     (if selecting st \<and> command_rx st \<noteq> [] then Some (handle_command w now st) else None)"
| "loop_act tk ft (DoCleanup now) st = (if selecting st then Some (handle_cleanup now st) else None)"
| "loop_act tk ft DoRead st = (if selecting st then Some (handle_read ft st) else None)"
| "loop_act tk ft (DoChan a) st =
     (if own_action a
      then (case chan_act tk a (chan st) of
              None \<Rightarrow> None
            | Some ch \<Rightarrow> Some (if producer ch = Gone \<and> producer (chan st) \<noteq> Gone
                              then shut_down (st\<lparr>chan := ch\<rparr>) else st\<lparr>chan := ch\<rparr>))
      else None)"

inductive loop_reach ::
    "('q, 'n) tokio \<Rightarrow> float_text \<Rightarrow> ('q, 'n) event_loop \<Rightarrow> ('q, 'n) event_loop \<Rightarrow> bool" for tk ft st where
  loop_reach_refl: "loop_reach tk ft st st"
| loop_reach_step: "loop_reach tk ft st st' \<Longrightarrow> loop_act tk ft a st' = Some st'' \<Longrightarrow> loop_reach tk ft st st''"

fun run_loop ::
    "('q, 'n) tokio \<Rightarrow> float_text \<Rightarrow> loop_action list \<Rightarrow> ('q, 'n) event_loop \<Rightarrow> ('q, 'n) event_loop option" where
  "run_loop tk ft [] st = Some st"
| "run_loop tk ft (a # as) st = Option.bind (loop_act tk ft a st) (run_loop tk ft as)"

lemma run_loop_reach: "run_loop tk ft as st = Some st' \<Longrightarrow> loop_reach tk ft st0 st \<Longrightarrow> loop_reach tk ft st0 st'"
proof (induction as arbitrary: st)
  case Nil
  then show ?case by simp
next
  case (Cons a as)
  then obtain s where "loop_act tk ft a st = Some s" "run_loop tk ft as s = Some st'"
    by (auto simp: Option.bind_eq_Some_conv)
  with Cons show ?case
    by (meson loop_reach_step)
qed

end
