(* ===== verification/ClientClaims.thy ===== *)
theory ClientClaims
  imports EventLoop VmOps RefOps ObjOps EventRequests
begin

text \<open>
  The properties of the JDWP client: strings, values, events and packets against their wire
  layouts, the handshake, packet ids, error replies, and the operations whose requests the JVM must
  read and whose replies the client must read.
\<close>

section \<open>Strings\<close>

text \<open>
  C15: A string written for the JVM (modified UTF-8) and read back with the reader of replies
  (strict UTF-8) survives exactly when it has neither NUL nor a character outside the basic
  multilingual plane; otherwise the reader rejects the whole reply.
\<close>

theorem string_survives_iff_bmp:
  assumes "valid_str s" and "length (mutf8 s) < 2 ^ 32"
  shows "(if \<forall>c \<in> set (chars s). bmp_char c
          then read_string (write_jdwp_string [] s @ r) = Inr (s, r)
          else (\<exists>e. read_string (write_jdwp_string [] s @ r) = Inl e))"
proof -
  have "read_string (write_jdwp_string [] s @ r) = (case from_utf8 (mutf8 s) of
      Inl e \<Rightarrow> Inl (Protocol (''Invalid UTF-8 in string: '' @ utf8_error_message e)) | Inr s \<Rightarrow> Inr (s, r))"
    using assms(2) by (simp add: read_string_def write_jdwp_string_def unat_u32_of_nat split: sum.split)
  note read = this
  show ?thesis
  proof (cases "\<forall>c \<in> set (chars s). bmp_char c")
    case True
    with from_utf8_mutf8(1) [OF assms(1)] read show ?thesis by simp
  next
    case False
    with from_utf8_mutf8(2) [OF assms(1)] obtain e where "from_utf8 (mutf8 s) = Inl e" by blast
    with False read show ?thesis by simp
  qed
qed

lemma chars_nul: "chars [CHR 0x00] = [0]"
  by code_simp

theorem string_survives_iff_bmp_witness:
  "\<exists>e. read_string (write_jdwp_string [] [CHR 0x00] @ []) = Inl e"
proof -
  have "utf8_scan 0 (bytes_of_str [CHR 0x00]) = Inr [0]"
    by code_simp
  then have "valid_str [CHR 0x00]" "length (mutf8 [CHR 0x00]) < 2 ^ 32"
    by (simp_all add: valid_str_def from_utf8_def mutf8_def chars_nul mutf8_char_nul)
  from string_survives_iff_bmp [OF this, of "[]"] show ?thesis
    by (simp add: chars_nul bmp_char_def)
qed

text \<open>
  The reader of strings accepts exactly the byte count of a UTF-8 string followed by its
  bytes, and consumes no more.
\<close>

theorem read_string_exact:
  "read_string buf = Inr (s, r) \<longleftrightarrow> string_ok s \<and> buf = put_string s @ r"
  using read_string_put read_string_sound by blast

section \<open>Events\<close>

text \<open>
  C10: A composite packet that holds the announced number of events of the kinds the client
  supports parses to exactly those events, in order; bytes after them are ignored.
\<close>

theorem events_parsed:
  assumes "\<forall>w \<in> set ws. wire_ok (snd w)" and "length ws < 2 ^ 31"
  shows "parse_event_packet tx (put_u8 sp @ put_u32 (word_of_nat (length ws)) @ concat (map wire_bytes ws) @ r)
    = Inr \<lparr>suspend_policy = sp, events = map (wire_event tx) ws\<rparr>"
  using parse_events_wire [OF assms(1), of tx 0 r] loop_count_of_nat [OF assms(2)]
  by (simp add: parse_packet_eq preturn_def)

definition demo_location :: location where
  "demo_location = \<lparr>type_tag = 1, class_id = 2, method_id = 3, loc_index = 4\<rparr>"

theorem events_parsed_witness:
  "\<forall>tx. parse_event_packet tx (put_u8 2 @ put_u32 1 @ wire_bytes (5, WBreakpoint 9 demo_location) @ [])
    = Inr \<lparr>suspend_policy = 2,
           events = [\<lparr>kind = EK_BREAKPOINT, request_id = 5, details = Breakpoint 9 demo_location\<rparr>]\<rparr>"
proof
  fix tx
  show "parse_event_packet tx (put_u8 2 @ put_u32 1 @ wire_bytes (5, WBreakpoint 9 demo_location) @ [])
    = Inr \<lparr>suspend_policy = 2,
           events = [\<lparr>kind = EK_BREAKPOINT, request_id = 5, details = Breakpoint 9 demo_location\<rparr>]\<rparr>"
    using events_parsed [of "[(5, WBreakpoint 9 demo_location)]" tx 2 "[]"]
    by (simp add: wire_event_def)
qed

text \<open>
  C38: An event of a kind the parser does not know ends the packet: the events before it
  are returned, it and every event after it are dropped, and the parse succeeds.
\<close>

theorem unknown_event_drops_rest:
  assumes "\<forall>w \<in> set ws. wire_ok (snd w)" and "\<not> supported_kind k"
    and "length ws < n" and "n < 2 ^ 31"
  shows "parse_event_packet tx (put_u8 sp @ put_u32 (word_of_nat n) @ concat (map wire_bytes ws)
      @ put_u8 k @ put_u32 rid @ r)
    = Inr \<lparr>suspend_policy = sp, events = map (wire_event tx) ws\<rparr>"
proof -
  obtain m where m: "n = length ws + Suc m"
    using assms(3) less_iff_Suc_add by auto
  have "parse_events tx n (concat (map wire_bytes ws) @ put_u8 k @ put_u32 rid @ r)
      = Inr (map (wire_event tx) ws, r)"
    unfolding m parse_events_wire [OF assms(1)] parse_events_unsupported [OF assms(2)] by simp
  then show ?thesis
    using loop_count_of_nat [OF assms(4)] by (simp add: parse_packet_eq)
qed

theorem unknown_event_drops_rest_witness:
  "\<forall>tx. parse_event_packet tx (put_u8 2 @ put_u32 (word_of_nat 2) @ concat (map wire_bytes [])
      @ put_u8 43 @ put_u32 7 @ wire_bytes (5, WBreakpoint 9 demo_location))
    = Inr \<lparr>suspend_policy = 2, events = []\<rparr>"
proof
  fix tx
  have "\<not> supported_kind 43" by (simp add: supported_kind_def)
  from unknown_event_drops_rest [of "[]", OF _ this, of 2 tx 2 7 "wire_bytes (5, WBreakpoint 9 demo_location)"]
  show "parse_event_packet tx (put_u8 2 @ put_u32 (word_of_nat 2) @ concat (map wire_bytes [])
      @ put_u8 43 @ put_u32 7 @ wire_bytes (5, WBreakpoint 9 demo_location))
    = Inr \<lparr>suspend_policy = 2, events = []\<rparr>"
    by simp
qed

section \<open>Values\<close>

text \<open>
  C23: A value written under its tag occupies the width of the tag and is read back as the same
  value; and whatever the reader returns for a tag is a value of that tag.
\<close>

theorem values_round_trip:
  "(value_tagged t v \<longrightarrow> length (write_to v []) = tag_width t
      \<and> read_value_by_tag t (write_to v [] @ r) = Inr (v, r))
   \<and> (read_value_by_tag t buf = Inr (v, r) \<longrightarrow> value_tagged t v)"
  using length_write_to read_value_put read_value_tagged by blast

theorem values_round_trip_witness:
  "length (write_to (VInt 7) []) = 4 \<and> read_value_by_tag 73 (write_to (VInt 7) [] @ [9]) = Inr (VInt 7, [9])"
  using values_round_trip [of 73 "VInt 7" "[9]" "[]"] by (simp add: tag_width_def)

text \<open>
  C32: The formatter inside the event parser and the general value reader agree: for every tag of
  the protocol they consume the same bytes, fail on the same buffers, and give the text that
  \<open>format_compact\<close> gives; for any other tag the event parser reads nothing and goes on while the
  value reader fails.
\<close>

theorem event_formatter_agrees:
  "if known_tag t then skip_and_format_value ft t = pmap (format_compact ft) (read_value_by_tag t)
   else skip_and_format_value ft t buf = Inr (''?tag='' @ show_unsigned t, buf)
        \<and> (\<exists>e. read_value_by_tag t buf = Inl e)"
  by (auto simp: skip_and_format_known read_value_unknown)
    (auto simp: skip_and_format_value_def tag_list_defs preturn_def)

section \<open>Packets\<close>

text \<open>
  C24: A command that fits the limit is encoded as one packet, from which a reader of packets gets
  back its id, and after the flags its command set, command and data; the encoder fails exactly
  when the length does not fit 32 bits.
\<close>

theorem command_framed:
  "(encode_command c = Inl (Protocol (''Packet too large to encode: '' @ show_nat (11 + length (cmd_data c)) @ '' bytes''))
      \<longleftrightarrow> 2 ^ 32 \<le> 11 + length (cmd_data c))
   \<and> (11 + length (cmd_data c) \<le> MAX_PACKET_SIZE \<longrightarrow>
      (\<exists>bs. encode_command c = Inr bs \<and> read_packet (bs @ r) = Inr ((False, cmd_id c, bs), r)
        \<and> drop 8 bs = 0 # command_set c # command c # cmd_data c))"
proof (intro conjI impI)
  assume len: "11 + length (cmd_data c) \<le> MAX_PACKET_SIZE"
  then obtain bs where bs: "encode_command c = Inr bs"
    by (auto simp: encode_command_def HEADER_SIZE_def MAX_PACKET_SIZE_def Let_def)
  then have "frame_ok (command_frame c bs)"
    using len length_encode_command [OF bs] by (intro frame_ok_command) (simp_all add: HEADER_SIZE_def)
  then have "read_packet (bs @ r) = Inr ((False, cmd_id c, bs), r)"
    using read_packet_frame [of "command_frame c bs" r] by (simp add: command_frame_def frame_bytes_def)
  moreover have "drop 8 bs = 0 # command_set c # command c # cmd_data c"
    using bs by (auto simp: encode_command_def Let_def drop_append put_u8_def split: if_splits)
  ultimately show "\<exists>bs. encode_command c = Inr bs \<and> read_packet (bs @ r) = Inr ((False, cmd_id c, bs), r)
        \<and> drop 8 bs = 0 # command_set c # command c # cmd_data c"
    using bs by blast
qed (auto simp: encode_command_def HEADER_SIZE_def Let_def)

theorem command_framed_witness:
  "\<exists>bs. encode_command \<lparr>cmd_id = 3, command_set = 1, command = 7, cmd_data = [5]\<rparr> = Inr bs
    \<and> drop 8 bs = [0, 1, 7, 5]"
  using command_framed [of "\<lparr>cmd_id = 3, command_set = 1, command = 7, cmd_data = [5]\<rparr>" "[]"]
  by (auto simp: MAX_PACKET_SIZE_def)

text \<open>
  A reply that fits the limit is read as one packet flagged as a reply, under its own id, and
  decoded to the reply that was sent.
\<close>

theorem reply_framed:
  assumes "11 + length (reply_data p) \<le> MAX_PACKET_SIZE"
  shows "\<exists>full. read_packet (reply_wire p @ r) = Inr ((True, reply_id p, full), r) \<and> decode_reply full = Inr p"
proof -
  have "frame_ok (reply_frame p)"
    using assms by (intro frame_ok_reply) (simp add: HEADER_SIZE_def)
  then show ?thesis
    using read_packet_frame [of "reply_frame p" r] decode_reply_wire [of p]
    by (simp add: reply_frame_def frame_bytes_def)
qed

theorem reply_framed_witness:
  "\<exists>full. decode_reply full = Inr \<lparr>reply_id = 3, error_code = 13, reply_data = [1]\<rparr>"
  using reply_framed [of "\<lparr>reply_id = 3, error_code = 13, reply_data = [1]\<rparr>" "[]"]
  by (auto simp: MAX_PACKET_SIZE_def)

section \<open>The connection\<close>

text \<open>
  The handshake succeeds exactly when the client could write and the peer's first fourteen
  bytes are the handshake string; it then has sent that string and consumed those bytes, and
  nothing else.
\<close>

theorem handshake_succeeds_iff:
  "handshake s = (Inr (), s') \<longleftrightarrow>
     write_error s = None
     \<and> (\<exists>rest. incoming s = bytes_of_str ''JDWP-Handshake'' @ rest
          \<and> s' = s\<lparr>outgoing := outgoing s @ bytes_of_str ''JDWP-Handshake'', incoming := rest\<rparr>)"
proof -
  have "(if length (incoming s) < length JDWP_HANDSHAKE then False
         else take (length JDWP_HANDSHAKE) (incoming s) = JDWP_HANDSHAKE)
      \<longleftrightarrow> (\<exists>rest. incoming s = JDWP_HANDSHAKE @ rest)"
    by (auto simp: not_less) (metis append_take_drop_id)
  then show ?thesis
    unfolding JDWP_HANDSHAKE_def [symmetric]
    by (auto simp: handshake_def ebind_def write_all_def read_exact_def efail_def ereturn_def
        split: option.splits if_splits)
qed

type_synonym exchange = "u8 \<times> u8 \<times> bytes"

fun run_exchanges :: "exchange list \<Rightarrow> 'w connection \<Rightarrow> u32 list \<times> 'w connection" where
  "run_exchanges [] c = ([], c)"
| "run_exchanges ((cs, cm, body) # xs) c =
     (let c' = snd (transact cs cm body (preturn ()) c)
      in case run_exchanges xs c' of (is, c'') \<Rightarrow> (cmd_id (request_packet c cs cm body) # is, c''))"

lemma run_exchanges_ids:
  "fst (run_exchanges xs c) = map (\<lambda>i. id_counter c + word_of_nat i) [0..<length xs]"
proof (induction xs arbitrary: c)
  case Nil
  then show ?case by simp
next
  case (Cons x xs)
  obtain cs cm body where x: "x = (cs, cm, body)" by (cases x)
  obtain w where w: "snd (transact cs cm body (preturn ()) c) = after_send c w"
    using transact_advances [of cs cm body "preturn ()" c] by blast
  have shift: "[0..<Suc (length xs)] = 0 # map Suc [0..<length xs]"
    by (simp only: map_Suc_upt upt_conv_Cons [of 0 "Suc (length xs)"] zero_less_Suc if_True)
  show ?case
    using Cons.IH [of "after_send c w"]
    by (simp add: x w Let_def case_prod_beta shift request_packet_def new_command_def after_send_def
        comp_def ac_simps del: upt_Suc)
qed

text \<open>
  Packet ids are fresh: of up to \<open>2 ^ 32\<close> operations in a row on one connection, whatever they
  are and however they end, no two send packets with the same id.
\<close>

theorem packet_ids_fresh:
  assumes "length xs \<le> 2 ^ 32"
  shows "distinct (fst (run_exchanges xs c))"
proof -
  have "inj_on (\<lambda>i. id_counter c + word_of_nat i) {0..<length xs}"
  proof (rule inj_onI)
    fix i j
    assume "i \<in> {0..<length xs}" "j \<in> {0..<length xs}"
      and eq: "id_counter c + word_of_nat i = id_counter c + word_of_nat j"
    with assms have "i < 2 ^ 32" "j < 2 ^ 32" "word_of_nat i = (word_of_nat j :: u32)" by auto
    then show "i = j"
      by (metis unat_u32_of_nat)
  qed
  then show ?thesis
    by (simp add: run_exchanges_ids distinct_map)
qed

definition demo_connection :: "reply_packet \<Rightarrow> unit connection" where
  "demo_connection r = \<lparr>loop_send = (\<lambda>p w. (Inr (r\<lparr>reply_id := cmd_id p\<rparr>), w)), id_counter = 1, peer = ()\<rparr>"

definition ok_reply :: "bytes \<Rightarrow> reply_packet" where
  "ok_reply d = \<lparr>reply_id = 0, error_code = 0, reply_data = d\<rparr>"

theorem packet_ids_fresh_witness:
  "distinct (fst (run_exchanges [(1, 1, []), (1, 9, []), (1, 8, [])] (demo_connection (ok_reply []))))"
  by (rule packet_ids_fresh) simp

text \<open>
  An error reply fails the operation with its code and the name the protocol gives the code,
  whatever its data; the connection moves on to the next id.
\<close>

theorem error_reply_reported:
  assumes "loop_send c (request_packet c cs cm body) (peer c) = (Inr reply, w)"
    and "error_code reply \<noteq> 0"
  shows "transact cs cm body p c
    = (Inl (JdwpErrorCode (error_code reply)
         (case map_of error_names (unat (error_code reply)) of Some m \<Rightarrow> m | None \<Rightarrow> ''UNKNOWN_ERROR'')),
       c\<lparr>id_counter := id_counter c + 1, peer := w\<rparr>)"
  using transact_error_reply [OF assms, of p] by (simp add: error_message_def after_send_def)

theorem error_reply_reported_witness:
  "fst (transact 11 6 [] read_u64 (demo_connection \<lparr>reply_id = 0, error_code = 13, reply_data = []\<rparr>))
    = Inl (JdwpErrorCode 13 ''THREAD_NOT_SUSPENDED'')"
proof -
  let ?c = "demo_connection \<lparr>reply_id = 0, error_code = 13, reply_data = []\<rparr>"
  have "loop_send ?c (request_packet ?c 11 6 []) (peer ?c)
      = (Inr \<lparr>reply_id = 1, error_code = 13, reply_data = []\<rparr>, ())"
    by (simp add: demo_connection_def request_packet_def new_command_def)
  from error_reply_reported [OF this, of read_u64] show ?thesis
    by (simp add: error_names_def)
qed

section \<open>Operations\<close>

text \<open>
  \<open>get_frames\<close> sends the thread and the range, and returns the frames of the reply in order,
  with their ids and locations.
\<close>

theorem frames_read:
  assumes "loop_send c (request_packet c 11 6 (put_u64 t @ put_u32 start @ put_u32 len)) (peer c)
      = (Inr \<lparr>reply_id = i, error_code = 0, reply_data = put_counted put_frame fs @ r\<rparr>, w)"
    and "length fs < 2 ^ 31"
  shows "get_frames t start len c = (Inr fs, after_send c w)"
proof -
  have "prun (read_counted read_frame) (put_counted put_frame fs @ r) = Inr fs"
    using read_frames_put [OF assms(2)] by (simp add: prun_def)
  with transact_reads [OF assms(1)] show ?thesis
    by (simp add: get_frames_def)
qed

theorem frames_read_witness:
  "fst (get_frames 5 0 1 (demo_connection (ok_reply
      (put_counted put_frame [\<lparr>fr_id = 8, fr_location = demo_location\<rparr>] @ []))))
    = Inr [\<lparr>fr_id = 8, fr_location = demo_location\<rparr>]"
proof -
  let ?fs = "[\<lparr>fr_id = 8, fr_location = demo_location\<rparr>]"
  let ?c = "demo_connection (ok_reply (put_counted put_frame ?fs @ []))"
  have "loop_send ?c (request_packet ?c 11 6 (put_u64 5 @ put_u32 0 @ put_u32 1)) (peer ?c)
      = (Inr \<lparr>reply_id = 1, error_code = 0, reply_data = put_counted put_frame ?fs @ []\<rparr>, ())"
    by (simp add: demo_connection_def ok_reply_def request_packet_def new_command_def)
  from frames_read [OF this] show ?thesis by simp
qed

text \<open>
  \<open>get_array_values\<close> returns the elements of the region: untagged values of the array's tag
  for a primitive array, each with its own tag for an object array.
\<close>

theorem array_region_read:
  assumes "loop_send c (request_packet c 13 2 (put_u64 a @ put_u32 start @ put_u32 len)) (peer c)
      = (Inr \<lparr>reply_id = i, error_code = 0,
              reply_data = put_u8 t @ put_counted (put_element t) vs @ r\<rparr>, w)"
    and "length vs < 2 ^ 31" and "\<forall>v \<in> set vs. element_ok t v"
  shows "get_array_values a start len c = (Inr vs, after_send c w)"
proof -
  have "prun read_array_region (put_u8 t @ put_counted (put_element t) vs @ r) = Inr vs"
    using read_array_region_put [OF assms(2,3)] by (simp add: prun_def)
  with transact_reads [OF assms(1)] show ?thesis
    by (simp add: get_array_values_def)
qed

theorem array_region_read_witness:
  "fst (get_array_values 5 0 2 (demo_connection (ok_reply (put_u8 73
      @ put_counted (put_element 73) [\<lparr>tag = 73, vdata = VInt 4\<rparr>, \<lparr>tag = 73, vdata = VInt 5\<rparr>] @ []))))
    = Inr [\<lparr>tag = 73, vdata = VInt 4\<rparr>, \<lparr>tag = 73, vdata = VInt 5\<rparr>]"
proof -
  let ?vs = "[\<lparr>tag = 73, vdata = VInt 4\<rparr>, \<lparr>tag = 73, vdata = VInt 5\<rparr>]"
  let ?d = "put_u8 73 @ put_counted (put_element 73) ?vs @ []"
  let ?c = "demo_connection (ok_reply ?d)"
  have "loop_send ?c (request_packet ?c 13 2 (put_u64 5 @ put_u32 0 @ put_u32 2)) (peer ?c)
      = (Inr \<lparr>reply_id = 1, error_code = 0, reply_data = ?d\<rparr>, ())"
    by (simp add: demo_connection_def ok_reply_def request_packet_def new_command_def)
  from array_region_read [OF this] show ?thesis
    by (simp add: element_ok_def object_tags_def)
qed

text \<open>
  C26: The bodies of \<open>InvokeMethod\<close> and \<open>SetValues\<close> are what the protocol prescribes: the JVM's
  reader gets back the target, every argument or slot with its tagged value in order, and the
  single-threaded option.
\<close>

theorem invocation_understood:
  assumes "\<forall>v \<in> set args. value_ok v" and "length args < 2 ^ 31"
    and "\<forall>p \<in> set slots. value_ok (snd p)" and "length slots < 2 ^ 31"
  shows "prun jvm_invoke_args (invoke_body ob t c m args single)
      = Inr (ob, t, c, m, args, if single then 1 else 0)
    \<and> prun jvm_set_values_args (set_frame_body t f slots) = Inr (t, f, slots)"
proof
  show "prun jvm_invoke_args (invoke_body ob t c m args single)
      = Inr (ob, t, c, m, args, if single then 1 else 0)"
    using read_values_put [OF assms(2,1)]
    by (simp add: invoke_body_eq jvm_invoke_args_def prun_def pbind_def preturn_def)
  show "prun jvm_set_values_args (set_frame_body t f slots) = Inr (t, f, slots)"
    using read_counted_put [OF slot_codec.wire_codec_axioms assms(3,4), of "[]"]
    by (simp add: set_frame_body_eq jvm_set_values_args_def prun_def pbind_def preturn_def)
qed

theorem invocation_understood_witness:
  "prun jvm_invoke_args (invoke_body 1 2 3 4 [\<lparr>tag = 73, vdata = VInt 5\<rparr>] True)
     = Inr (1, 2, 3, 4, [\<lparr>tag = 73, vdata = VInt 5\<rparr>], 1)"
  using invocation_understood [of "[\<lparr>tag = 73, vdata = VInt 5\<rparr>]" "[]" 1 2 3 4 True 0]
  by (simp add: value_ok_def)

text \<open>
  C25: The JVM reads each event request as the kind, suspend policy and modifier the client meant:
  a code location for a breakpoint, the thread with size and depth for a step, the exception class
  with its flags, the field for a watch.
\<close>

theorem event_requests_understood:
  "prun jvm_set_request (set_breakpoint_body c m ix sp)
      = Inr (2, suspend_code sp, [LocationOnly \<lparr>type_tag = 1, class_id = c, method_id = m, loc_index = ix\<rparr>])
   \<and> prun jvm_set_request (set_step_body t sz d sp)
      = Inr (1, suspend_code sp, [StepModifier t (step_size_code sz) (step_depth_code d)])
   \<and> prun jvm_set_request (set_exception_body c caught uncaught sp)
      = Inr (4, suspend_code sp, [ExceptionOnly c caught uncaught])
   \<and> prun jvm_set_request (set_field_watch_body c f sp) = Inr (21, suspend_code sp, [FieldOnly c f])"
proof (intro conjI)
  show "prun jvm_set_request (set_breakpoint_body c m ix sp)
      = Inr (2, suspend_code sp, [LocationOnly \<lparr>type_tag = 1, class_id = c, method_id = m, loc_index = ix\<rparr>])"
    using location_codec.get_put [of "\<lparr>type_tag = 1, class_id = c, method_id = m, loc_index = ix\<rparr>"]
    unfolding set_breakpoint_body_def EK_BREAKPOINT_def
    by (intro jvm_set_request_one) (simp add: read_modifier_def pbind_def pmap_def preturn_def put_location_def)
  show "prun jvm_set_request (set_step_body t sz d sp)
      = Inr (1, suspend_code sp, [StepModifier t (step_size_code sz) (step_depth_code d)])"
    unfolding set_step_body_def EK_SINGLE_STEP_def
    by (intro jvm_set_request_one) (simp add: read_modifier_def pbind_def pmap_def preturn_def)
  show "prun jvm_set_request (set_exception_body c caught uncaught sp)
      = Inr (4, suspend_code sp, [ExceptionOnly c caught uncaught])"
    unfolding set_exception_body_def EK_EXCEPTION_def
    by (intro jvm_set_request_one) (simp add: read_modifier_def pbind_def preturn_def bool_byte_def)
  show "prun jvm_set_request (set_field_watch_body c f sp) = Inr (21, suspend_code sp, [FieldOnly c f])"
    unfolding set_field_watch_body_def EK_FIELD_MODIFICATION_def
    by (intro jvm_set_request_one) (simp add: read_modifier_def pbind_def pmap_def preturn_def)
qed

text \<open>
  The class patterns of traces and class-prepare requests reach the JVM unchanged when they
  are free of NUL and supplementary characters.
\<close>

theorem class_pattern_understood:
  assumes "string_ok pat" and "\<forall>c \<in> set (chars pat). bmp_char c"
  shows "prun jvm_set_request (class_match_body k pat sp) = Inr (k, suspend_code sp, [ClassMatch pat])"
proof -
  have "mutf8 pat = bytes_of_str pat"
    using assms by (simp add: mutf8_bmp string_ok_def)
  then have b: "class_match_body k pat sp
      = put_u8 k @ put_u8 (suspend_code sp) @ put_u32 1 @ (put_u8 5 @ put_string pat)"
    by (simp add: class_match_body_def put_string_ascii)
  show ?thesis
    unfolding b using read_string_put [OF assms(1)]
    by (intro jvm_set_request_one) (simp add: read_modifier_def pbind_def pmap_def preturn_def)
qed

theorem class_pattern_understood_witness:
  "prun jvm_set_request (class_match_body 40 ''a*'' SuspendAll) = Inr (40, 2, [ClassMatch ''a*''])"
proof -
  have "utf8_scan 0 (bytes_of_str ''a*'') = Inr [97, 42]" by code_simp
  then have "string_ok ''a*''" "\<forall>c \<in> set (chars ''a*''). bmp_char c"
    by (simp_all add: string_ok_def valid_str_def from_utf8_def chars_def bmp_char_def)
  from class_pattern_understood [OF this, of 40 SuspendAll] show ?thesis by simp
qed

end
