(* ===== verification/ServerClaims.thy ===== *)
theory ServerClaims
  imports Conditions Trace ClientClaims
begin

text \<open>
  The properties of the debug server: the names and ids users write, the classes a pattern
  resolves to, conditional breakpoints, traces, and the session manager.
\<close>

section \<open>Ids, lines and names\<close>

text \<open>
  A thread id printed the way the server prints it, \<open>0x\<close> and lower-case hexadecimal, names
  that thread when it comes back as an argument.
\<close>

theorem thread_id_round_trip:
  assumes "arg_str api args ''thread_id'' = Some (''0x'' @ show_hex w)"
  shows "parse_thread_id api args = Some w"
  using assms by (rule parse_thread_id_printed)

definition demo_api :: "string json_api" where
  "demo_api = \<lparr>j_get = (\<lambda>j n. if n = ''thread_id'' then Some j else None), j_str = Some,
     j_u64 = (\<lambda>_. None), j_i64 = (\<lambda>_. None), j_f64 = (\<lambda>_. None), j_bool = (\<lambda>_. None),
     j_array = (\<lambda>_. None), j_is_null = (\<lambda>_. False), j_text = (\<lambda>s. s)\<rparr>"

theorem thread_id_round_trip_witness:
  "parse_thread_id demo_api (''0x'' @ show_hex (255 :: u64)) = Some 255"
  by (rule thread_id_round_trip) (simp add: arg_str_def demo_api_def)

text \<open>
  On a line table sorted by code index, the source line of a bytecode index is the line of
  the last entry that starts at or before it; there is none exactly when every entry starts after it.
\<close>

theorem source_line_correct:
  assumes "sorted (map line_code_index (lines lt))"
  shows "(resolve_source_line lt idx = None \<longleftrightarrow> (\<forall>e \<in> set (lines lt). idx < line_code_index e))
    \<and> (\<forall>n. resolve_source_line lt idx = Some n \<longrightarrow>
        (\<exists>e \<in> set (lines lt). line_number e = n \<and> line_code_index e \<le> idx
          \<and> (\<forall>e' \<in> set (lines lt). line_code_index e' \<le> idx \<longrightarrow> line_code_index e' \<le> line_code_index e)))"
  using resolve_source_line_sorted [OF assms] resolve_source_line_None by blast

definition demo_lines :: line_table where
  "demo_lines = \<lparr>lt_start = 0, lt_end = 9, lines = [\<lparr>line_code_index = 0, line_number = 10\<rparr>,
     \<lparr>line_code_index = 4, line_number = 11\<rparr>]\<rparr>"

theorem source_line_correct_witness:
  "resolve_source_line demo_lines 5 = Some 11 \<and>
    (\<exists>e \<in> set (lines demo_lines). line_number e = 11 \<and> line_code_index e \<le> 5)"
proof -
  have s: "sorted (map line_code_index (lines demo_lines))"
    by (simp add: demo_lines_def)
  have r: "resolve_source_line demo_lines 5 = Some 11"
    by (simp add: resolve_source_line_def demo_lines_def)
  with source_line_correct [OF s, of 5] show ?thesis by blast
qed

text \<open>
  C30: The two names the server shows for a class lead back to it: both the binary name and the
  name with dots for nested classes match the class's signature with the best score, and the binary
  name makes the exact signature one of the candidates that are looked up.
\<close>

theorem shown_names_resolve:
  assumes "CHR '';'' \<notin> set n" and "CHR ''.'' \<notin> set n"
    and "signature_to_binary_name (as_signature n) = Some b"
    and "signature_to_display_name (as_signature n) = Some d"
  shows "class_match_score (as_signature n) b = Some 0 \<and> class_match_score (as_signature n) d = Some 0
    \<and> as_signature n \<in> set (candidate_signatures b)"
proof -
  have b: "b = replace_char (CHR ''/'') (CHR ''.'') n"
    and d: "d = replace_char (CHR ''$'') (CHR ''.'') b"
    using assms(3,4) by simp_all
  have bs: "CHR '';'' \<notin> set b" "CHR ''/'' \<notin> set b"
    using assms(1) by (simp_all add: b set_replace_char set_replace_other)
  then have ds: "CHR '';'' \<notin> set d" "CHR ''/'' \<notin> set d"
    by (simp_all add: d set_replace_other)
  have "replace_char (CHR ''.'') (CHR ''/'') b = n"
    using assms(2) by (simp add: b replace_char_back)
  with bs have "as_signature n \<in> set (candidate_signatures b)"
    by (simp add: candidate_signatures_def not_signature)
  with bs ds b d show ?thesis
    by (simp add: class_match_score_def normalize_plain Let_def)
qed

theorem shown_names_resolve_witness:
  "class_match_score (as_signature ''a/O$I'') ''a.O.I'' = Some 0"
  using shown_names_resolve [of "''a/O$I''" "''a.O$I''" "''a.O.I''"]
  by (simp add: replace_char_def)

section \<open>Resolution of class patterns\<close>

lemma transact_parsed:
  assumes "transact cs cm body p c = (Inr x, c')"
  shows "\<exists>d. prun p d = Inr x"
proof -
  obtain r w where "loop_send c (request_packet c cs cm body) (peer c) = (r, w)"
    by (cases "loop_send c (request_packet c cs cm body) (peer c)")
  with assms show ?thesis
    by (auto simp: transact_eq split: sum.splits)
qed

lemma ptimes_all:
  assumes "\<And>b x r. p b = Inr (x, r) \<Longrightarrow> P x"
  shows "ptimes n p buf = Inr (xs, r) \<Longrightarrow> \<forall>x \<in> set xs. P x"
  by (induction n arbitrary: buf xs) (auto simp: pbind_Inr_iff preturn_def intro: assms)

lemma classes_by_signature_sig:
  assumes "classes_by_signature sig c = (Inr cs, c')"
  shows "\<forall>x \<in> set cs. ci_signature x = sig"
proof -
  from transact_parsed [OF assms [unfolded classes_by_signature_def]]
  obtain d where "prun (read_counted (read_class_by_signature sig)) d = Inr cs" by blast
  then obtain n m r where "ptimes (loop_count n) (read_class_by_signature sig) m = Inr (cs, r)"
    by (auto simp: prun_Inr_iff read_counted_def pbind_Inr_iff)
  moreover have "read_class_by_signature sig b = Inr (x, r) \<Longrightarrow> ci_signature x = sig" for b x r
    by (auto simp: read_class_by_signature_def pbind_Inr_iff preturn_def)
  ultimately show ?thesis
    using ptimes_all [of "read_class_by_signature sig" "\<lambda>x. ci_signature x = sig"] by blast
qed

lemma exact_matches_sigs:
  "exact_matches sigs s = (Inr cs, s') \<Longrightarrow> \<forall>c \<in> set cs. ci_signature c \<in> set sigs"
proof (induction sigs arbitrary: s cs s')
  case Nil
  then show ?case by (simp add: ereturn_def)
next
  case (Cons sig sigs)
  then obtain ex s1 rest s2 where
    e: "on_conn_err ''Failed to find class'' (classes_by_signature sig) s = (Inr ex, s1)"
    and r: "exact_matches sigs s1 = (Inr rest, s2)" and cs: "cs = ex @ rest"
    by (auto simp: ebind_Inr_iff ereturn_def)
  from e obtain c' where "classes_by_signature sig (conn s) = (Inr ex, c')"
    by (auto simp: on_conn_err_Inr)
  with classes_by_signature_sig Cons.IH [OF r] cs show ?case
    by fastforce
qed

text \<open>
  C31: A pattern resolves to each loaded class at most once, and only to classes that have one of
  the candidate signatures or match the pattern with some score.
\<close>

theorem resolution_sound:
  assumes "resolve_classes pattern s = (Inr cs, s')"
  shows "distinct (map type_id cs) \<and>
    (\<forall>c \<in> set cs. ci_signature c \<in> set (candidate_signatures pattern)
       \<or> class_match_score (ci_signature c) pattern \<noteq> None)"
proof -
  from assms obtain ms s1 where m: "exact_matches (candidate_signatures pattern) s = (Inr ms, s1)"
    and rest: "(if ms \<noteq> [] then ereturn (dedup_by type_id (sort_key type_id ms))
       else ebind (on_conn_err ''Failed to list loaded classes'' all_classes) (\<lambda>classes.
              ereturn (rank_classes pattern classes))) s1 = (Inr cs, s')"
    by (auto simp: resolve_classes_def ebind_Inr_iff)
  show ?thesis
  proof (cases "ms = []")
    case False
    with rest have cs: "cs = dedup_by type_id (sort_key type_id ms)"
      by (simp add: ereturn_def)
    then have "set cs \<subseteq> set ms"
      using set_dedup_by [of type_id "sort_key type_id ms"] by simp
    with exact_matches_sigs [OF m] exact_dedup(1) cs show ?thesis by blast
  next
    case True
    with rest obtain all where "cs = rank_classes pattern all"
      by (auto simp: ebind_Inr_iff ereturn_def)
    then show ?thesis
      using rank_classes_distinct rank_classes_match by blast
  qed
qed

definition demo_session :: "bytes \<Rightarrow> unit debug_session" where
  "demo_session d = new_session (demo_connection (ok_reply d))"

theorem resolution_sound_witness:
  "\<exists>cs s'. resolve_classes ''A'' (demo_session (put_u32 0)) = (Inr cs, s') \<and> distinct (map type_id cs)"
proof -
  have z: "read_counted p (put_u32 0) = Inr ([], [])" for p :: "(jdwp_error, class_info) parser"
    using read_counted_negative by (simp add: read_counted_def pbind_def loop_count_def preturn_def)
  have "\<exists>cs s'. resolve_classes ''A'' (demo_session (put_u32 0)) = (Inr cs, s')"
    by (simp add: resolve_classes_def candidate_signatures_def not_signature replace_char_def ebind_def
        ereturn_def on_conn_err_def demo_session_def new_session_def demo_connection_def ok_reply_def
        classes_by_signature_def all_classes_def transact_eq check_error_def is_error_def prun_def z
        after_send_def)
  then show ?thesis
    using resolution_sound by blast
qed

lemma sorted_ranked:
  "sorted (map fst (sort_key (\<lambda>(score, c). (score :: nat, type_id c)) xs))"
proof -
  let ?ys = "sort_key (\<lambda>(score, c). (score, type_id c)) xs"
  have "sorted (map (\<lambda>(score, c). (score, type_id c)) ?ys)" by simp
  then show ?thesis
    by (auto simp: sorted_map elim!: sorted_wrt_mono_rel [rotated])
qed

text \<open>
  When no class has the exact name, the matching classes come best score first, and every
  loaded class that matches is represented by its id.
\<close>

theorem ranking_sorted_complete:
  "sorted (map (\<lambda>c. the (class_match_score (ci_signature c) pattern)) (rank_classes pattern classes))
   \<and> (\<forall>c \<in> set classes. class_match_score (ci_signature c) pattern \<noteq> None \<longrightarrow>
        type_id c \<in> type_id ` set (rank_classes pattern classes))"
proof
  let ?scored = "List.map_filter (\<lambda>c. map_option (\<lambda>score. (score, c))
      (class_match_score (ci_signature c) pattern)) classes"
  let ?ys = "sort_key (\<lambda>(score, c). (score, type_id c)) ?scored"
  have eq: "map ((\<lambda>c. the (class_match_score (ci_signature c) pattern)) \<circ> snd) ?ys = map fst ?ys"
    by (rule map_cong) (auto simp: set_ranked)
  have "sorted (map (\<lambda>c. the (class_match_score (ci_signature c) pattern)) ([] @ map snd ?ys))"
    unfolding append_Nil map_map eq by (rule sorted_ranked)
  then show "sorted (map (\<lambda>c. the (class_match_score (ci_signature c) pattern)) (rank_classes pattern classes))"
    unfolding rank_classes_def by (rule keep_first_sorted)
qed (use rank_classes_complete in blast)

definition demo_class :: "u64 \<Rightarrow> string \<Rightarrow> class_info" where
  "demo_class i n = \<lparr>ref_type_tag = 1, type_id = i, ci_signature = as_signature n, status = 7\<rparr>"

theorem ranking_sorted_complete_witness:
  "2 \<in> type_id ` set (rank_classes ''A'' [demo_class 1 ''B'', demo_class 2 ''x/A''])"
proof -
  have "class_match_score (as_signature ''x/A'') ''A'' \<noteq> None"
    by (simp add: class_match_score_def Let_def normalize_plain replace_char_def simple_name_def)
  with ranking_sorted_complete [of "''A''" "[demo_class 1 ''B'', demo_class 2 ''x/A'']"]
  show ?thesis by (simp add: demo_class_def)
qed

section \<open>Conditional breakpoints\<close>

text \<open>
  A condition written with one comparison operator and no other operator character splits at
  that operator into the trimmed variable and the trimmed value, for each of the six operators; a
  text without operator characters is no condition.
\<close>

theorem condition_parsed:
  assumes "op \<in> {''=='', ''!='', ''>='', ''<='', ''>'', ''<''}"
    and "\<forall>c \<in> set (a @ b). c \<notin> set ''=!<>''" and "trim a \<noteq> []" and "trim b \<noteq> []"
  shows "parse_condition (a @ op @ b) = Some (trim a, op, trim b) \<and> parse_condition (a @ b) = None"
proof -
  have op: "op \<in> set condition_ops"
    using assms(1) by (auto simp: condition_ops_def)
  have "\<forall>c \<in> set a. \<not> op_char c" "\<forall>c \<in> set b. \<not> op_char c" "\<forall>c \<in> set (a @ b). \<not> op_char c"
    using assms(2) by (auto simp: op_char_def)
  with parse_condition_op [OF op _ _ assms(3,4)] parse_condition_none [of "a @ b"] show ?thesis by blast
qed

lemma trim_demo: "trim ''i '' = ''i''" "trim '' 5'' = ''5''"
  by code_simp+

theorem condition_parsed_witness:
  "parse_condition (''i '' @ ''>='' @ '' 5'') = Some (''i'', ''>='', ''5'')"
  using condition_parsed [of "''>=''" "''i ''" "'' 5''"] by (simp add: trim_demo)

text \<open>
  A stop is skipped only on evidence: if the frames, the variable table or the values cannot
  be read, if there is no frame or no variable of that name in scope, the stop is reported. A stop
  that is skipped had a value, and its comparison was false.
\<close>

theorem condition_fails_open:
  "(fst (eval_condition ft t name op expected c) \<longleftrightarrow>
     (\<exists>v. fst (condition_value t name c) = Some v
        \<and> \<not> condition_met op (format_compact ft (vdata v)) expected))
   \<and> ((\<exists>e. fst (get_frames t 0 1 c) = Inl e) \<or> fst (get_frames t 0 1 c) = Inr []
       \<longrightarrow> \<not> fst (eval_condition ft t name op expected c))"
proof
  show "fst (eval_condition ft t name op expected c) \<longleftrightarrow>
     (\<exists>v. fst (condition_value t name c) = Some v
        \<and> \<not> condition_met op (format_compact ft (vdata v)) expected)"
    by (auto simp: eval_condition_def split: prod.splits option.splits)
  have "condition_value t name c = (None, snd (get_frames t 0 1 c))"
    if "(\<exists>e. fst (get_frames t 0 1 c) = Inl e) \<or> fst (get_frames t 0 1 c) = Inr []"
    using that by (cases "get_frames t 0 1 c") (auto simp: condition_value_def)
  then show "(\<exists>e. fst (get_frames t 0 1 c) = Inl e) \<or> fst (get_frames t 0 1 c) = Inr []
       \<longrightarrow> \<not> fst (eval_condition ft t name op expected c)"
    by (auto simp: eval_condition_def)
qed

theorem condition_fails_open_witness:
  "\<forall>ft. \<not> fst (eval_condition ft 1 ''i'' ''=='' ''5''
      (demo_connection \<lparr>reply_id = 0, error_code = 13, reply_data = []\<rparr>))"
proof -
  let ?c = "demo_connection \<lparr>reply_id = 0, error_code = 13, reply_data = []\<rparr>"
  have "loop_send ?c (request_packet ?c 11 6 (put_u64 1 @ put_u32 0 @ put_u32 1)) (peer ?c)
      = (Inr \<lparr>reply_id = 1, error_code = 13, reply_data = []\<rparr>, ())"
    by (simp add: demo_connection_def request_packet_def new_command_def)
  then have "\<exists>e. fst (get_frames 1 0 1 ?c) = Inl e"
    by (simp add: get_frames_def transact_eq check_error_def is_error_def)
  then show ?thesis
    using condition_fails_open [of _ 1 "''i''" "''==''" "''5''" ?c] by blast
qed

definition ask_values :: "thread_id \<Rightarrow> frame \<Rightarrow> variable \<Rightarrow> bytes" where
  "ask_values t f v = put_u64 t @ put_u64 (fr_id f) @ put_u32 1 @ put_u32 (var_slot v) @ put_u8 (sig_byte (slot_of v))"

definition ask_variables :: "frame \<Rightarrow> bytes" where
  "ask_variables f = put_u64 (class_id (fr_location f)) @ put_u64 (method_id (fr_location f))"

lemma variable_table_read:
  assumes "loop_send c (request_packet c 6 2 (put_u64 r @ put_u64 m)) (peer c)
      = (Inr \<lparr>reply_id = i, error_code = 0, reply_data = put_u32 n @ put_counted put_variable vt\<rparr>, w)"
    and "length vt < 2 ^ 31" and "\<forall>v \<in> set vt. variable_ok v"
  shows "get_variable_table r m c = (Inr vt, after_send c w)"
proof -
  have "prun (pbind read_i32 (\<lambda>_. read_counted read_variable)) (put_u32 n @ put_counted put_variable vt) = Inr vt"
    using read_variables_put [OF assms(2,3), of "[]"] by (simp add: prun_def pbind_def)
  with transact_reads [OF assms(1)] show ?thesis
    by (simp add: get_variable_table_def)
qed

lemma frame_value_read:
  assumes "loop_send c (request_packet c 16 1 (ask_values t f v)) (peer c)
      = (Inr \<lparr>reply_id = i, error_code = 0, reply_data = put_counted put_value [x]\<rparr>, w)"
    and "value_ok x"
  shows "get_frame_values t (fr_id f) [slot_of v] c = (Inr [x], after_send c w)"
proof -
  have "prun (read_counted read_tagged_value) (put_counted put_value [x]) = Inr [x]"
    using read_values_put [of "[x]" "[]"] assms(2) by (simp add: prun_def)
  with transact_reads [OF assms(1)] show ?thesis
    by (simp add: get_frame_values_def ask_values_def slot_of_def)
qed

text \<open>
  End to end, on an \<open>int\<close> variable: if the JVM answers the three questions (top frame,
  variable table, value) and the named variable is in scope there, the stop is skipped exactly when
  the integer comparison is false, for each of the six operators.
\<close>

theorem int_condition_decides:
  assumes "loop_send c (request_packet c 11 6 (put_u64 t @ put_u32 0 @ put_u32 1)) (peer c)
      = (Inr \<lparr>reply_id = i1, error_code = 0, reply_data = put_counted put_frame [f]\<rparr>, w1)"
    and "c1 = after_send c w1"
    and "loop_send c1 (request_packet c1 6 2 (ask_variables f)) w1
      = (Inr \<lparr>reply_id = i2, error_code = 0, reply_data = put_u32 n @ put_counted put_variable vt\<rparr>, w2)"
    and "length vt < 2 ^ 31" and "\<forall>v \<in> set vt. variable_ok v"
    and "find_variable (loc_index (fr_location f)) name vt = Some v"
    and "c2 = after_send c1 w2"
    and "loop_send c2 (request_packet c2 16 1 (ask_values t f v)) w2
      = (Inr \<lparr>reply_id = i3, error_code = 0, reply_data = put_counted put_value [\<lparr>tag = 73, vdata = VInt x\<rparr>]\<rparr>, w3)"
    and "op \<in> set condition_ops" and "\<bar>j\<bar> < 2 ^ 53"
  shows "eval_condition ft t name op (show_int j) c = (\<not> int_cmp op (sint x) j, after_send c2 w3)"
proof -
  have "get_frames t 0 1 c = (Inr [f], c1)"
    using frames_read [of c t 0 1 i1 "[f]" "[]" w1] assms(1,2) by simp
  moreover have "get_variable_table (class_id (fr_location f)) (method_id (fr_location f)) c1 = (Inr vt, c2)"
    using variable_table_read [of c1 "class_id (fr_location f)" "method_id (fr_location f)" i2 n vt w2]
      assms(2-5,7) by (simp add: ask_variables_def after_send_def)
  moreover have "get_frame_values t (fr_id f) [slot_of v] c2 = (Inr [\<lparr>tag = 73, vdata = VInt x\<rparr>], after_send c2 w3)"
    using frame_value_read [of c2 t f v i3 "\<lparr>tag = 73, vdata = VInt x\<rparr>" w3] assms(7,8)
    by (simp add: after_send_def value_ok_def)
  ultimately have v: "condition_value t name c = (Some \<lparr>tag = 73, vdata = VInt x\<rparr>, after_send c2 w3)"
    using assms(6) by (simp add: condition_value_def)
  have "\<bar>sint x\<bar> < 2 ^ 53"
    using sint_lt [of x] sint_ge [of x] by simp
  from condition_met_int_cmp [OF assms(9) this assms(10)] v show ?thesis
    by (simp add: eval_condition_def show_signed_def)
qed

text \<open>A JVM with one frame, one variable and the value 7, answering by command set.\<close>

definition demo_frame_7 :: frame where
  "demo_frame_7 = \<lparr>fr_id = 8, fr_location = demo_location\<rparr>"

definition demo_variable :: variable where
  "demo_variable = \<lparr>code_index = 0, var_name = ''i'', var_signature = ''I'', var_length = 9, var_slot = 1\<rparr>"

definition demo_jvm :: "unit connection" where
  "demo_jvm = \<lparr>loop_send = (\<lambda>p w. (Inr \<lparr>reply_id = cmd_id p, error_code = 0, reply_data =
       (if command_set p = 11 then put_counted put_frame [demo_frame_7]
        else if command_set p = 6 then put_u32 0 @ put_counted put_variable [demo_variable]
        else put_counted put_value [\<lparr>tag = 73, vdata = VInt 7\<rparr>])\<rparr>, w)),
     id_counter = 1, peer = ()\<rparr>"

theorem int_condition_decides_witness:
  "\<forall>ft. fst (eval_condition ft 5 ''i'' ''>'' (show_int 9) demo_jvm) \<and> \<not> fst (eval_condition ft 5 ''i'' ''>'' (show_int 5) demo_jvm)"
proof -
  have s: "utf8_scan 0 (bytes_of_str ''i'') = Inr [105]" "utf8_scan 0 (bytes_of_str ''I'') = Inr [73]"
    by code_simp+
  have ok: "variable_ok demo_variable"
    by (simp add: variable_ok_def demo_variable_def string_ok_def valid_str_def from_utf8_def s)
  have found: "find_variable (loc_index (fr_location demo_frame_7)) ''i'' [demo_variable] = Some demo_variable"
    by (simp add: find_variable_def in_scope_def demo_variable_def demo_frame_7_def demo_location_def)
  note here = int_condition_decides [of demo_jvm 5 1 demo_frame_7 "()" "after_send demo_jvm ()" 2 0
      "[demo_variable]" "()" "''i''" demo_variable "after_send (after_send demo_jvm ()) ()" 3 7 "()" "''>''"]
  have "eval_condition ft 5 ''i'' ''>'' (show_int j) demo_jvm
      = (\<not> j < 7, after_send (after_send (after_send demo_jvm ()) ()) ())" if "\<bar>j\<bar> < 2 ^ 53" for ft j
    using here [of j ft] that ok found
    by (simp add: demo_jvm_def request_packet_def new_command_def after_send_def condition_ops_def int_cmp_def)
  then show ?thesis by simp
qed

text \<open>
  C39: But a \<open>long\<close> variable is compared through the text \<open>5L\<close>: against an integer literal
  \<open>==\<close> and every order comparison are false whatever the value, so such a breakpoint never stops,
  and \<open>!=\<close> is always true.
\<close>

theorem long_condition_never_met:
  assumes "op \<in> set condition_ops"
  shows "condition_met op (format_compact ft (VLong v)) (show_int j) \<longleftrightarrow> op = ''!=''"
  using condition_met_long [OF assms, of v j] by simp

theorem long_condition_never_met_witness:
  "\<forall>ft. \<not> condition_met ''=='' (format_compact ft (VLong 5)) (show_int 5)"
  using long_condition_never_met [of "''==''"] by (simp add: condition_ops_def)

section \<open>Traces\<close>

text \<open>
  C29: In detail mode a trace lists the calls of a thread as they nest: for the entry and exit
  events of any call tree, while the limit of calls is not reached, the calls are listed in the
  order of entry, each with its depth in the tree and each returned, and the thread's depth is back
  where it was.
\<close>

theorem trace_records_call_tree:
  assumes "\<not> aggregate tr" and "length (calls tr) + tree_size tree \<le> max_calls tr"
    and "unat (depth_of tr t) + tree_size tree < 2 ^ 32"
  shows "calls (trace_loop now (tree_events t tree) tr) = calls tr @ tree_calls t (depth_of tr t) tree
    \<and> depth_of (trace_loop now (tree_events t tree) tr) = depth_of tr"
proof -
  from tree_recorded [OF assms] obtain tr' where r: "recorded (tree_calls t (depth_of tr t) tree) tr tr'"
    and l: "trace_loop now (tree_events t tree @ []) tr = trace_loop now [] tr'" by blast
  then show ?thesis
    using recorded_fields [OF r] recorded_depth [OF r] by simp
qed

theorem trace_records_call_tree_witness:
  "calls (trace_loop 0 (tree_events 1 (CallTree 2 3 [CallTree 4 5 []])) (new_trace 1 2 False False 0))
    = tree_calls 1 0 (CallTree 2 3 [CallTree 4 5 []])"
  using trace_records_call_tree [of "new_trace 1 2 False False 0" "CallTree 2 3 [CallTree 4 5 []]" 1 0]
  by (simp add: new_trace_def TRACE_MAX_CALLS_def depth_of_def depth_in_def)

text \<open>
  A detail trace armed by the tool never holds more than 500 calls, whatever events arrive.
\<close>

theorem trace_bounded:
  "length (calls (trace_loop now rs (new_trace en ex args agg start))) \<le> 500"
  using trace_loop_bound [of now rs "new_trace en ex args agg start"]
  by (simp add: new_trace_def TRACE_MAX_CALLS_def)

text \<open>
  In aggregate mode the count of a method grows by the number of its entry events, modulo
  \<open>2 ^ 64\<close>.
\<close>

theorem aggregate_counts_entries:
  assumes "aggregate tr"
  shows "calls_of (trace_loop now rs tr) (c, m)
    = calls_of tr (c, m) + word_of_nat (length (filter (\<lambda>(t, c', m', e). e \<and> (c', m') = (c, m)) rs))"
  using aggregate_counts [OF assms, of now rs "(c, m)"] by (simp add: entries_of_def)

theorem aggregate_counts_entries_witness:
  "calls_of (trace_loop 0 [(1, 2, 3, True), (1, 2, 3, False), (4, 2, 3, True)] (new_trace 1 2 False True 0)) (2, 3) = 2"
  using aggregate_counts_entries [of "new_trace 1 2 False True 0" 0
      "[(1, 2, 3, True), (1, 2, 3, False), (4, 2, 3, True)]" 2 3]
  by (simp add: new_trace_def calls_of_def)

text \<open>An event set that mixes an event of a trace with a breakpoint.\<close>

definition demo_mixed :: event_set where
  "demo_mixed = \<lparr>suspend_policy = 2, events =
     [\<lparr>kind = EK_METHOD_ENTRY, request_id = 31, details = MethodEntry 1 demo_location\<rparr>,
      \<lparr>kind = EK_BREAKPOINT, request_id = 5, details = Breakpoint 1 demo_location\<rparr>]\<rparr>"

section \<open>Sessions\<close>

datatype session_op = Create nat | Remove string

fun apply_op :: "'w connection \<Rightarrow> session_op \<Rightarrow> 'w session_manager \<Rightarrow> 'w session_manager" where
  "apply_op c (Create ts) m = snd (create_session ts c m)"
| "apply_op c (Remove sid) m = remove_session sid m"

lemma manager_inv_ops: "manager_inv m \<Longrightarrow> manager_inv (fold (apply_op c) ops m)"
proof (induction ops arbitrary: m)
  case (Cons op ops)
  then show ?case
    by (cases op) (simp_all add: manager_inv_create manager_inv_remove)
qed simp

text \<open>
  However sessions are created, used and removed, the current session is one the manager still
  holds: if there is a current id, looking it up succeeds and gives a live address; a session just
  created is current, and removing the current session leaves none.
\<close>

theorem current_session_live:
  assumes "m = fold (apply_op c) ops new_manager"
  shows "(get_current_session_id m = None \<longleftrightarrow> get_current_session m = None)
    \<and> (\<forall>a. get_current_session m = Some a \<longrightarrow> a < length (store m))
    \<and> get_current_session (snd (create_session ts c m)) = Some (length (store m))
    \<and> (\<forall>sid. get_current_session_id m = Some sid \<longrightarrow> get_current_session (remove_session sid m) = None)"
proof -
  have inv: "manager_inv m"
    unfolding assms by (rule manager_inv_ops [OF manager_inv_new])
  then have "get_current_session_id m = None \<longleftrightarrow> get_current_session m = None"
    by (auto simp: manager_inv_def get_current_session_def get_current_session_id_def split: option.splits)
  moreover have "a < length (store m)" if "get_current_session m = Some a" for a
    using inv that map_of_SomeD
    by (fastforce simp: manager_inv_def get_current_session_def Option.bind_eq_Some_conv)
  moreover have "get_current_session (remove_session sid m) = None" if "get_current_session_id m = Some sid" for sid
    using that by (simp add: get_current_session_def get_current_session_id_def remove_session_fields)
  ultimately show ?thesis
    using current_after_create [of ts c m] by blast
qed

theorem current_session_live_witness:
  "get_current_session (snd (create_session 17 (demo_connection (ok_reply []))
      (fold (apply_op (demo_connection (ok_reply []))) [Create 16] new_manager))) = Some 1"
  using current_session_live [OF refl, of "demo_connection (ok_reply [])" "[Create 16]" 17]
  by (simp add: create_session_def new_manager_def Let_def)

end
