(* ===== verification/HandlerClaims.thy ===== *)
theory HandlerClaims
  imports Dispatch Ledger ServerClaims
begin

text \<open>
  The properties of the tool handlers: breakpoints and step requests against the requests armed in
  the JVM, tools that only look, values written into variables. The instances run against a small
  JVM that keeps the contract of \<open>Jvm\<close>: one class with one method of one line.
\<close>

section \<open>A JVM to run against\<close>

text \<open>Its state is the list of its requests; the next id is their number, while that is free.\<close>

definition stub_data :: "u8 \<Rightarrow> u8 \<Rightarrow> bytes" where
  "stub_data cs cm =
     (if cs = 1 \<and> cm = 2 then put_counted put_class_match [\<lparr>ref_type_tag = 1, type_id = 2, ci_signature = ''LA;'', status = 7\<rparr>]
      else if cs = 2 \<and> cm = 5
      then put_counted put_method_info [\<lparr>mi_id = 3, mi_name = ''m'', mi_signature = ''()V'', mi_mod_bits = 1\<rparr>]
      else if cs = 6 \<and> cm = 1
      then put_line_table \<lparr>lt_start = 0, lt_end = 9, lines = [\<lparr>line_code_index = 4, line_number = 7\<rparr>]\<rparr>
      else [])"

definition reply_with :: "u32 \<Rightarrow> u16 \<Rightarrow> bytes \<Rightarrow> reply_packet jdwp_result" where
  "reply_with i e d = Inr \<lparr>reply_id = i, error_code = e, reply_data = d\<rparr>"

definition stub_jvm ::
    "command_packet \<Rightarrow> (u8 \<times> i32) list \<Rightarrow> reply_packet jdwp_result \<times> (u8 \<times> i32) list" where
  "stub_jvm p w =
     (if command_set p \<noteq> CS_EVENT_REQUEST then (reply_with (cmd_id p) 0 (stub_data (command_set p) (command p)), w)
      else if command p = EV_SET
      then (let rid = word_of_nat (length w)
            in if rid \<in> snd ` set w then (reply_with (cmd_id p) 110 [], w)
               else (reply_with (cmd_id p) 0 (put_u32 rid), (hd (cmd_data p), rid) # w))
      else (reply_with (cmd_id p) 0 [], filter (\<lambda>x. x \<notin> cleared_request p) w))"

definition stub_conn :: "u32 \<Rightarrow> (u8 \<times> i32) list \<Rightarrow> (u8 \<times> i32) list connection" where
  "stub_conn i w = \<lparr>loop_send = stub_jvm, id_counter = i, peer = w\<rparr>"

lemma stub_contract: "jvm_contract stub_jvm set"
  by (auto simp: jvm_contract_def event_request_effect_def stub_jvm_def reply_with_def set_reply_def
      ok_def Let_def parser_defs intro: rev_image_eqI split: option.splits if_splits)

lemma stub_clears: "clears_succeed stub_jvm"
  by (auto simp: clears_succeed_def stub_jvm_def reply_with_def)

lemma stub_conn_send [simp]: "loop_send (stub_conn i w) = stub_jvm" "peer (stub_conn i w) = w"
  by (simp_all add: stub_conn_def)

lemma stub_reads:
  assumes "cs \<noteq> CS_EVENT_REQUEST" and "prun p (stub_data cs cm) = Inr x"
  shows "transact cs cm body p (stub_conn i w) = (Inr x, stub_conn (i + 1) w)"
proof -
  let ?c = "stub_conn i w"
  have "loop_send ?c (request_packet ?c cs cm body) (peer ?c)
      = (Inr \<lparr>reply_id = i, error_code = 0, reply_data = stub_data cs cm\<rparr>, w)"
    using assms(1) by (simp add: stub_jvm_def reply_with_def request_packet_def new_command_def stub_conn_def)
  from transact_reads [OF this assms(2)] show ?thesis
    by (simp add: after_send_def stub_conn_def)
qed

lemma stub_sets:
  assumes "word_of_nat (length w) \<notin> snd ` set w"
  shows "transact CS_EVENT_REQUEST EV_SET (k # body) read_i32 (stub_conn i w)
    = (Inr (word_of_nat (length w)), stub_conn (i + 1) ((k, word_of_nat (length w)) # w))"
proof -
  let ?c = "stub_conn i w"
  have "loop_send ?c (request_packet ?c CS_EVENT_REQUEST EV_SET (k # body)) (peer ?c)
      = (Inr \<lparr>reply_id = i, error_code = 0, reply_data = put_u32 (word_of_nat (length w))\<rparr>,
         (k, word_of_nat (length w)) # w)"
    using assms by (simp add: stub_jvm_def reply_with_def request_packet_def new_command_def stub_conn_def Let_def)
  from transact_reads [OF this, of read_i32 "word_of_nat (length w)"] show ?thesis
    by (simp add: after_send_def stub_conn_def prun_def)
qed


definition stub_class :: class_info where
  "stub_class = \<lparr>ref_type_tag = 1, type_id = 2, ci_signature = ''LA;'', status = 7\<rparr>"

definition stub_method :: method_info where
  "stub_method = \<lparr>mi_id = 3, mi_name = ''m'', mi_signature = ''()V'', mi_mod_bits = 1\<rparr>"

definition stub_lines :: line_table where
  "stub_lines = \<lparr>lt_start = 0, lt_end = 9, lines = [\<lparr>line_code_index = 4, line_number = 7\<rparr>]\<rparr>"

lemma stub_method_ok: "method_ok stub_method"
proof -
  have "valid_str ''m''" "valid_str ''()V''" by code_simp+
  then show ?thesis
    by (simp add: stub_method_def method_ok_def string_ok_def)
qed

lemma stub_calls:
  "classes_by_signature ''LA;'' (stub_conn i w) = (Inr [stub_class], stub_conn (i + 1) w)"
  "get_methods r (stub_conn i w) = (Inr [stub_method], stub_conn (i + 1) w)"
  "get_line_table r m (stub_conn i w) = (Inr stub_lines, stub_conn (i + 1) w)"
  "resume_all (stub_conn i w) = (Inr (), stub_conn (i + 1) w)"
proof -
  have "prun (read_counted (read_class_by_signature ''LA;'')) (stub_data 1 2) = Inr [stub_class]"
    using read_counted_put [OF class_match_codec.wire_codec_axioms, of "[stub_class]" "''LA;''" "[]"]
    by (simp add: stub_data_def stub_class_def prun_def)
  then show "classes_by_signature ''LA;'' (stub_conn i w) = (Inr [stub_class], stub_conn (i + 1) w)"
    unfolding classes_by_signature_def CS_VIRTUAL_MACHINE_def VM_CLASSES_BY_SIGNATURE_def
    by (intro stub_reads) (simp_all add: CS_EVENT_REQUEST_def)
  have "prun (read_counted read_method_info) (stub_data 2 5) = Inr [stub_method]"
    using read_methods_put [of "[stub_method]" "[]"] stub_method_ok
    by (simp add: stub_data_def stub_method_def prun_def)
  then show "get_methods r (stub_conn i w) = (Inr [stub_method], stub_conn (i + 1) w)"
    unfolding get_methods_def CS_REFERENCE_TYPE_def RT_METHODS_def
    by (intro stub_reads) (simp_all add: CS_EVENT_REQUEST_def)
  have "prun read_line_table (stub_data 6 1) = Inr stub_lines"
    using line_table_codec.get_put [of stub_lines "[]"]
    by (simp add: stub_data_def stub_lines_def prun_def)
  then show "get_line_table r m (stub_conn i w) = (Inr stub_lines, stub_conn (i + 1) w)"
    unfolding get_line_table_def CS_METHOD_def MC_LINE_TABLE_def
    by (intro stub_reads) (simp_all add: CS_EVENT_REQUEST_def)
  show "resume_all (stub_conn i w) = (Inr (), stub_conn (i + 1) w)"
    unfolding resume_all_def CS_VIRTUAL_MACHINE_def VM_RESUME_def
    by (intro stub_reads) (simp_all add: CS_EVENT_REQUEST_def prun_def preturn_def)
qed

lemma stub_places:
  assumes "word_of_nat (length w) \<notin> snd ` set w"
  shows "set_breakpoint c m ix sp (stub_conn i w)
      = (Inr (word_of_nat (length w)), stub_conn (i + 1) ((EK_BREAKPOINT, word_of_nat (length w)) # w))"
    and "set_step t sz d sp (stub_conn i w)
      = (Inr (word_of_nat (length w)), stub_conn (i + 1) ((EK_SINGLE_STEP, word_of_nat (length w)) # w))"
  using stub_sets [OF assms]
  unfolding set_breakpoint_def set_breakpoint_body_def set_step_def set_step_body_def put_u8_def
    append_Cons append_Nil by blast+

lemma stub_clear:
  "clear_event_request k rid (stub_conn i w) = (Inr (), stub_conn (i + 1) (filter (\<lambda>x. x \<noteq> (k, rid)) w))"
proof -
  let ?c = "stub_conn i w"
  let ?p = "request_packet ?c CS_EVENT_REQUEST EV_CLEAR (put_u8 k @ put_u32 rid)"
  have "loop_send ?c ?p (peer ?c)
      = (Inr \<lparr>reply_id = i, error_code = 0, reply_data = []\<rparr>, filter (\<lambda>x. x \<notin> cleared_request ?p) w)"
    by (simp add: stub_jvm_def reply_with_def EV_CLEAR_def EV_SET_def)
      (simp add: request_packet_def new_command_def stub_conn_def)
  from transact_reads [OF this, of "preturn ()" "()"] show ?thesis
    by (simp add: clear_event_request_def after_send_def stub_conn_def prun_def preturn_def cleared_request_body)
qed

text \<open>A first breakpoint, with a condition that parses or none, and one with a condition that does not.\<close>

definition stub_session :: "u32 \<Rightarrow> (u8 \<times> i32) list \<Rightarrow> (u8 \<times> i32) list debug_session" where
  "stub_session i w = new_session (stub_conn i w)"

lemma stub_session_fields [simp]:
  "conn (stub_session i w) = stub_conn i w" "breakpoints (stub_session i w) = []"
  "active_step (stub_session i w) = None" "(stub_session i w)\<lparr>conn := stub_conn j v\<rparr> = stub_session j v"
  by (simp_all add: stub_session_def new_session_def)

lemma stub_candidates: "candidate_signatures ''A'' = [''LA;'']"
  by code_simp

lemma stub_resolves:
  "resolve_classes ''A'' (stub_session i w) = (Inr [stub_class], stub_session (i + 1) w)"
  by (simp add: resolve_classes_def stub_candidates ebind_def on_conn_err_def stub_calls ereturn_def)

lemma stub_chooses:
  "choose_location None 7 [stub_class] (stub_session i w)
     = (Inr (Some (stub_class, stub_method, 4)), stub_session (2 + i) w)"
  by (simp add: ebind_def on_conn_err_def attempt_def ok_def stub_calls ereturn_def stub_lines_def)

lemma stub_breakpoint:
  "place_breakpoint ''A'' 7 None None (stub_session 1 [])
     = (Inr ''bp bp_0 at A:7 class=LA; method=m'',
        (stub_session 5 [(EK_BREAKPOINT, 0)])\<lparr>breakpoints := [(''bp_0'', new_breakpoint ''A'' 7 None ''m'' 0)]\<rparr>)"
proof -
  have 0: "show_signed (0 :: i32) = ''0''" "show_signed (7 :: i32) = ''7''"
    by code_simp+
  show ?thesis
    unfolding place_breakpoint_def
    by (simp add: stub_resolves stub_chooses stub_places ebind_def on_conn_err_def check_condition_def
        record_breakpoint_def eset_def ereturn_def new_breakpoint_def bp_key_def 0 del: choose_location.simps)
      (simp add: stub_class_def stub_method_def stub_session_def new_session_def)
qed


section \<open>Breakpoints\<close>



text \<open>
  C36: A condition that does not parse is found out after the request was set: where the call without
  a condition would have succeeded, the one with the bad condition is reported as failed and lists
  nothing, and the JVM has the same new breakpoint armed.
\<close>

theorem bad_condition_leaks:
  assumes "jvm_contract (loop_send (conn s)) armed" and "table_inv (breakpoints s)"
    and "place_breakpoint pattern line hint None s = (Inr msg, s1)" and "parse_condition cond = None"
  shows "\<exists>e s2 rid. place_breakpoint pattern line hint (Some cond) s = (Inl e, s2)
    \<and> breakpoints s2 = breakpoints s \<and> rid \<notin> bp_armed armed s
    \<and> bp_armed armed s2 = insert rid (bp_armed armed s)"
proof -
  from bad_condition_armed [OF assms(3,4)] obtain e s2 where
    "place_breakpoint pattern line hint (Some cond) s = (Inl e, s2)" "conn s2 = conn s1"
    "breakpoints s2 = breakpoints s" by blast
  with place_breakpoint_ledger [OF assms(1,2,3)] show ?thesis
    by (auto simp: bp_armed_def)
qed

theorem bad_condition_leaks_witness:
  "\<exists>e s2 rid. place_breakpoint ''A'' 7 None (Some ''x'') (stub_session 1 []) = (Inl e, s2)
    \<and> breakpoints s2 = [] \<and> bp_armed set s2 = {rid}"
proof -
  have "parse_condition ''x'' = None" by code_simp
  from bad_condition_leaks [OF _ _ stub_breakpoint this, of set] stub_contract show ?thesis
    by (fastforce simp: table_inv_nil bp_armed_def)
qed

section \<open>Steps\<close>

text \<open>
  C16: On a JVM that carries out the clearing, a successful step leaves exactly one step request armed,
  the one the session holds as its active step, whatever step was active before; breakpoints stay as
  they were.
\<close>

theorem step_arms_one:
  assumes "get_current_session m = Some a" and "a < length (store m)"
    and "jvm_contract (loop_send (conn (store m ! a))) armed" and "clears_succeed (loop_send (conn (store m ! a)))"
    and "steps_armed armed (store m ! a) \<subseteq> active_steps (store m ! a)"
    and "handle_step api args depth label m = (Inr msg, m')"
  shows "\<exists>rid. steps_armed armed (store m' ! a) = {rid} \<and> active_steps (store m' ! a) = {rid}
    \<and> bp_armed armed (store m' ! a) = bp_armed armed (store m ! a)
    \<and> breakpoints (store m' ! a) = breakpoints (store m ! a)"
proof -
  obtain r s where run: "run_step (parse_thread_id api args) depth label (store m ! a) = (r, s)" by force
  with assms(1,6) have "r = Inr msg" and m': "m' = m\<lparr>store := (store m)[a := s]\<rparr>"
    by (simp_all add: handle_step_def with_session_defs)
  from run_step_arms_one [OF assms(3-5)] run this(1) obtain rid where
    "steps_armed armed s = {rid}" "active_steps s = {rid}" "bp_armed armed s = bp_armed armed (store m ! a)"
    "breakpoints s = breakpoints (store m ! a)" by blast
  with m' assms(2) show ?thesis by simp
qed

text \<open>One session of the stub JVM, with the thread of the tool call selected.\<close>

definition stub_manager :: "(u8 \<times> i32) list debug_session \<Rightarrow> (u8 \<times> i32) list session_manager" where
  "stub_manager s = \<lparr>sessions = [(''s'', 0)], current = Some ''s'', store = [s], uuid_counter = 2, aborted = []\<rparr>"

lemma stub_manager_fields [simp]:
  "get_current_session (stub_manager s) = Some 0" "store (stub_manager s) = [s]"
  by (simp_all add: stub_manager_def get_current_session_def)

definition stub_stepping :: "(u8 \<times> i32) list debug_session" where
  "stub_stepping = (stub_session 1 [(EK_SINGLE_STEP, 7), (EK_BREAKPOINT, 3)])
     \<lparr>active_step := Some \<lparr>st_request_id = 7, st_thread_id = 5, st_depth = ''into''\<rparr>\<rparr>"

theorem step_arms_one_witness:
  "\<exists>msg m'. handle_step demo_api (''0x'' @ show_hex (5 :: u64)) StepOver ''over'' (stub_manager stub_stepping) = (Inr msg, m')
    \<and> (\<exists>rid. steps_armed set (store m' ! 0) = {rid}) \<and> bp_armed set (store m' ! 0) = {3}"
proof -
  have t: "parse_thread_id demo_api (''0x'' @ show_hex (5 :: u64)) = Some 5"
    by (rule parse_thread_id_printed) (simp add: arg_str_def demo_api_def)
  moreover have "\<exists>msg s. run_step (Some 5) StepOver ''over'' stub_stepping = (Inr msg, s)"
    by (simp add: run_step_def resolve_target_thread_def ereturn_def ebind_def drop_active_step_def
        stub_stepping_def on_conn_def clear_step_def stub_clear on_conn_err_def stub_places eset_def stub_calls)
  ultimately obtain msg m' where run: "handle_step demo_api (''0x'' @ show_hex (5 :: u64)) StepOver ''over'' (stub_manager stub_stepping) = (Inr msg, m')"
    by (auto simp: handle_step_def with_session_defs)
  have "conn stub_stepping = stub_conn 1 [(EK_SINGLE_STEP, 7), (EK_BREAKPOINT, 3)]"
    by (simp add: stub_stepping_def)
  then have "jvm_contract (loop_send (conn stub_stepping)) set" "clears_succeed (loop_send (conn stub_stepping))"
    using stub_contract stub_clears by simp_all
  moreover have "steps_armed set stub_stepping \<subseteq> active_steps stub_stepping"
    by (auto simp: steps_armed_def active_steps_def stub_stepping_def)
  moreover have "bp_armed set stub_stepping = {3}"
    by (auto simp: stub_stepping_def bp_armed_def)
  ultimately obtain rid where "steps_armed set (store m' ! 0) = {rid}" "bp_armed set (store m' ! 0) = {3}"
    using step_arms_one [OF _ _ _ _ _ run, of 0 set] by (metis length_Cons nth_Cons_0 stub_manager_fields zero_less_Suc)
  with run show ?thesis by blast
qed

section \<open>Values written into the program\<close>

text \<open>
  C17: What \<open>debug.set_value\<close> converts an argument to has the type of the variable (an object tag for
  a reference), so the command it sends is read back by the JVM as exactly that slot and value; every
  argument of \<open>debug.eval\<close> is a value with its own tag.
\<close>

theorem written_values_typed:
  assumes "parse_set_value api args sb s = (Inr x, s')"
  shows "value_tagged (tag x) (vdata x)
    \<and> (if sb = 0x4C \<or> sb = 0x73 then tag x \<in> set object_tags else tag x = sb)
    \<and> prun jvm_set_values_args (set_frame_body t f [(n, x)]) = Inr (t, f, [(n, x)])
    \<and> (eval_arg api arg u = (Inr y, u') \<longrightarrow> value_tagged (tag y) (vdata y))"
proof -
  from assms obtain raw q where "convert_value api raw sb q = (Inr x, s')"
    by (auto simp: parse_set_value_def ebind_Inr_iff)
  note x = convert_value_typed [OF this]
  have "prun jvm_set_values_args (set_frame_body t f [(n, x)]) = Inr (t, f, [(n, x)])"
    using read_counted_put [OF slot_codec.wire_codec_axioms, of "[(n, x)]" "[]"] x
    by (simp add: set_frame_body_eq jvm_set_values_args_def prun_def pbind_def preturn_def well_tagged_def value_ok_def)
  with x eval_arg_typed [of api arg u y u'] show ?thesis
    by (simp add: well_tagged_def)
qed

text \<open>Arguments that are integers.\<close>

definition int_api :: "int json_api" where
  "int_api = \<lparr>j_get = (\<lambda>j n. Some j), j_str = (\<lambda>_. None), j_u64 = (\<lambda>i. if i < 0 then None else Some (word_of_int i)),
     j_i64 = (\<lambda>i. Some (word_of_int i)), j_f64 = (\<lambda>_. None), j_bool = (\<lambda>_. None),
     j_array = (\<lambda>_. None), j_is_null = (\<lambda>_. False), j_text = (\<lambda>_. [])\<rparr>"

theorem written_values_typed_witness:
  "prun jvm_set_values_args (set_frame_body 5 8 [(1, \<lparr>tag = 73, vdata = VInt 42\<rparr>)])
     = Inr (5, 8, [(1, \<lparr>tag = 73, vdata = VInt 42\<rparr>)])"
proof -
  have "parse_set_value int_api 42 73 (stub_session 1 []) = (Inr \<lparr>tag = 73, vdata = VInt 42\<rparr>, stub_session 1 [])"
    by (simp add: parse_set_value_def convert_value_def int_api_def ebind_def eoption_def ereturn_def typed_def Let_def)
  from written_values_typed [OF this] show ?thesis by blast
qed

text \<open>
  C28: The number an integer variable gets is the one given exactly when it fits the variable's width;
  otherwise its low bits are written without an error.
\<close>

theorem written_integer_exact:
  assumes "int_width sb = Some w" and "arg_i64 api args ''value'' = Some v"
    and "parse_set_value api args sb s = (Inr x, s')"
  shows "(int_of_value (vdata x) = Some (sint v) \<longleftrightarrow> - (2 ^ (w - 1)) \<le> sint v \<and> sint v < 2 ^ (w - 1))
    \<and> int_of_value (vdata x) = Some (signed_take_bit (w - 1) (sint v))"
proof -
  from assms(2,3) obtain raw where raw: "j_get api args ''value'' = Some raw" "j_i64 api raw = Some v"
    and c: "convert_value api raw sb s = (Inr x, s')"
    by (auto simp: parse_set_value_def arg_i64_def ebind_Inr_iff eoption_def ereturn_def efail_def
        bind_eq_Some_conv split: option.splits)
  from converted_int_exact [OF assms(1) c raw(2)] converted_int [OF assms(1) c raw(2)] show ?thesis
    by (rule conjI)
qed

theorem written_integer_exact_witness:
  "fst (parse_set_value int_api 40000 0x53 (stub_session 1 [])) = Inr \<lparr>tag = 0x53, vdata = VShort 40000\<rparr>
    \<and> int_of_value (VShort 40000) \<noteq> Some 40000"
proof -
  have run: "parse_set_value int_api 40000 0x53 (stub_session 1 [])
      = (Inr \<lparr>tag = 0x53, vdata = VShort 40000\<rparr>, stub_session 1 [])"
    by (simp add: parse_set_value_def convert_value_def int_api_def ebind_def eoption_def ereturn_def typed_def Let_def)
  have "sint (40000 :: i64) = 40000" by code_simp
  with written_integer_exact [OF _ _ run, of 16 40000] run show ?thesis
    by (simp add: int_width_def arg_i64_def int_api_def)
qed

end
