(* ===== verification/LoopInvariants.thy ===== *)
theory LoopInvariants
  imports EventLoop
begin

text \<open>
  What every interleaving of the event loop keeps: each reply channel handed out is in exactly one
  place (the command queue, the pending map, or resolved), the map files each pending request
  under the id of its packet, a successful answer carries the id of the request it answers, and a
  loop that has ended holds nothing back. The event channel plays no part in it.
\<close>

section \<open>Pending requests as an association list\<close>

lemma mset_delete:
  "distinct (map fst al) \<Longrightarrow> map_of al k = Some v \<Longrightarrow>
     add_mset (f (k, v)) (mset (map f (AList.delete k al))) = mset (map f al)"
proof (induction al)
  case Nil
  then show ?case by simp
next
  case (Cons x al)
  show ?case
  proof (cases "fst x = k")
    case True
    with Cons.prems(1) have "k \<notin> fst ` set al"
      by (cases x) auto
    then have "AList.delete k al = al"
      by (rule AList.delete_id)
    moreover from True Cons.prems(2) have "v = snd x"
      by (cases x) simp
    ultimately show ?thesis
      using True by (cases x) simp
  next
    case False
    with Cons show ?thesis
      by (cases x) (auto simp: AList.delete_eq add_mset_commute)
  qed
qed

lemma mset_update:
  "distinct (map fst al) \<Longrightarrow>
     mset (map f (AList.update k v al)) + mset (map f (case map_of al k of Some q \<Rightarrow> [(k, q)] | None \<Rightarrow> []))
       = add_mset (f (k, v)) (mset (map f al))"
proof (induction al)
  case Nil
  then show ?case by simp
next
  case (Cons x al)
  then show ?case
    by (cases x) (auto simp: map_of_eq_None_iff [THEN iffD2] add_mset_commute split: option.splits)
qed

lemma set_update: "set (AList.update k v al) \<subseteq> insert (k, v) (set al)"
  by (induction al) auto

lemma mset_partition: "mset (map f (filter P xs)) + mset (map f (filter (Not \<circ> P) xs)) = mset (map f xs)"
  by (induction xs) auto

lemma add_mset_swap: "add_mset x U = add_mset y V \<Longrightarrow> add_mset x (R + (A + U)) = add_mset y (R + (A + V))"
  by (metis union_mset_add_mset_right)

lemma add_mset_move: "add_mset x U = V \<Longrightarrow> add_mset x (R + (U + A)) = R + (V + A)"
  by auto

section \<open>The invariant\<close>

definition tickets :: "('q, 'n) event_loop \<Rightarrow> nat list" where
  "tickets st = map reply_tx (command_rx st) @ map (sender \<circ> snd) (pending_replies st)
     @ map fst (answers st)"

definition conserved :: "('q, 'n) event_loop \<Rightarrow> bool" where
  "conserved st \<longleftrightarrow> mset (tickets st) = mset [0..<length (submitted st)]"

definition filed :: "('q, 'n) event_loop \<Rightarrow> bool" where
  "filed st \<longleftrightarrow> distinct (map fst (pending_replies st))
     \<and> (\<forall>(i, p) \<in> set (pending_replies st). cmd_id (submitted st ! sender p) = i)
     \<and> (\<forall>q \<in> set (command_rx st). submitted st ! reply_tx q = packet q)"

definition matching :: "('q, 'n) event_loop \<Rightarrow> bool" where
  "matching st \<longleftrightarrow> (\<forall>(t, out) \<in> set (answers st).
     \<forall>r. out = Answered (Inr r) \<longrightarrow> reply_id r = cmd_id (submitted st ! t))"

definition settled :: "('q, 'n) event_loop \<Rightarrow> bool" where
  "settled st \<longleftrightarrow> (producer (chan st) = Gone \<longrightarrow> command_rx st = [] \<and> pending_replies st = [])
     \<and> length (command_rx st) \<le> COMMAND_CAPACITY"

definition loop_inv :: "('q, 'n) event_loop \<Rightarrow> bool" where
  "loop_inv st \<longleftrightarrow> conserved st \<and> filed st \<and> matching st \<and> settled st"

lemmas loop_inv_defs = filed_def matching_def settled_def

lemma loop_inv_intro:
  "conserved st \<Longrightarrow> filed st \<Longrightarrow> matching st \<Longrightarrow> settled st \<Longrightarrow> loop_inv st"
  by (simp add: loop_inv_def)

lemma loop_inv_init: "loop_inv (spawn_event_loop tk bs)"
  by (simp add: loop_inv_def conserved_def loop_inv_defs spawn_event_loop_def tickets_def
      COMMAND_CAPACITY_def)

lemma ticket_bound: "conserved st \<Longrightarrow> t \<in> set (tickets st) \<Longrightarrow> t < length (submitted st)"
  unfolding conserved_def by (metis atLeastLessThan_iff set_mset_mset set_upt)

lemma tickets_distinct: "conserved st \<Longrightarrow> distinct (tickets st)"
  unfolding conserved_def by (metis distinct_upt mset_eq_imp_distinct_iff)

text \<open>The parts of the invariant do not depend on the bytes in flight.\<close>

lemma loop_inv_io [simp]:
  "loop_inv (st\<lparr>read_buf := b\<rparr>) = loop_inv st" "loop_inv (st\<lparr>socket := b\<rparr>) = loop_inv st"
  "loop_inv (st\<lparr>written := b\<rparr>) = loop_inv st" "loop_inv (st\<lparr>peer_closed := c\<rparr>) = loop_inv st"
  by (simp_all add: loop_inv_def conserved_def loop_inv_defs tickets_def)

section \<open>Each branch keeps it\<close>

lemma inv_shut_down:
  assumes "loop_inv st"
  shows "loop_inv (shut_down st)"
proof (rule loop_inv_intro)
  show "conserved (shut_down st)"
    using assms(1)
    by (simp add: loop_inv_def conserved_def shut_down_def drop_senders_def tickets_def comp_def ac_simps)
  show "filed (shut_down st)" "matching (shut_down st)" "settled (shut_down st)"
    using assms(1) by (auto simp: loop_inv_def loop_inv_defs shut_down_def drop_senders_def)
qed

lemma inv_take_command:
  assumes "loop_inv st" and "command_rx st = cmd # rest"
  shows "loop_inv (answer (reply_tx cmd) (Inl e) (st\<lparr>command_rx := rest\<rparr>))"
  using assms
  by (auto simp: loop_inv_def conserved_def loop_inv_defs answer_def tickets_def)

lemma inv_insert_pending:
  assumes "loop_inv st" and "command_rx st = cmd # rest" and "selecting st"
  shows "loop_inv (insert_pending (cmd_id (packet cmd)) \<lparr>sender = reply_tx cmd, sent_at = now\<rparr>
    (st\<lparr>command_rx := rest\<rparr>))" (is "loop_inv ?st")
proof (rule loop_inv_intro)
  let ?i = "cmd_id (packet cmd)" and ?p = "\<lparr>sender = reply_tx cmd, sent_at = now\<rparr>"
    and ?al = "pending_replies st"
  have inv: "conserved st" "filed st" "matching st" "settled st"
    using assms(1) by (simp_all add: loop_inv_def)
  have "mset (map (sender \<circ> snd) (AList.update ?i ?p ?al))
      + mset (map (sender \<circ> snd) (case map_of ?al ?i of Some q \<Rightarrow> [(?i, q)] | None \<Rightarrow> []))
      = add_mset (reply_tx cmd) (mset (map (sender \<circ> snd) ?al))"
    using mset_update [of ?al "sender \<circ> snd" ?i ?p] inv(2) by (simp add: filed_def)
  then have move: "add_mset (reply_tx cmd) (R + (A + mset (map (sender \<circ> snd) ?al)))
      = R + (A + (mset (map (sender \<circ> snd) (AList.update ?i ?p ?al))
          + mset (map (sender \<circ> snd) (case map_of ?al ?i of Some q \<Rightarrow> [(?i, q)] | None \<Rightarrow> []))))" for R A
    by simp
  have "mset (tickets st) = add_mset (reply_tx cmd) (mset (map reply_tx rest)
      + (mset (map fst (answers st)) + mset (map (sender \<circ> snd) ?al)))"
    by (simp add: tickets_def assms(2) ac_simps)
  also have "\<dots> = mset (tickets ?st)"
    unfolding move
    by (simp add: tickets_def insert_pending_def drop_senders_def ac_simps split: option.split)
  finally show "conserved ?st"
    using inv(1) by (simp add: conserved_def insert_pending_def drop_senders_def)
  show "filed ?st"
    using inv(2) assms(2)
    by (auto simp: filed_def insert_pending_def drop_senders_def AList.distinct_update
        dest: set_update [THEN subsetD] split: option.splits)
  show "matching ?st" "settled ?st"
    using inv assms
    by (auto simp: matching_def settled_def selecting_def insert_pending_def drop_senders_def
        split: option.splits)
qed

lemma inv_handle_command:
  assumes "loop_inv st" and "selecting st"
  shows "loop_inv (handle_command w now st)"
proof (cases "command_rx st")
  case Nil
  with assms show ?thesis by (simp add: handle_command_def)
next
  case (Cons cmd rest)
  have io: "answer t e (st\<lparr>command_rx := r, read_buf := [], written := x\<rparr>)
      = (answer t e (st\<lparr>command_rx := r\<rparr>))\<lparr>read_buf := [], written := x\<rparr>"
    "answer t e (st\<lparr>command_rx := r, read_buf := []\<rparr>) = (answer t e (st\<lparr>command_rx := r\<rparr>))\<lparr>read_buf := []\<rparr>"
    "insert_pending i p (st\<lparr>command_rx := r, read_buf := [], written := x\<rparr>)
      = (insert_pending i p (st\<lparr>command_rx := r\<rparr>))\<lparr>read_buf := [], written := x\<rparr>" for t e i p r x
    by (simp_all add: answer_def insert_pending_def drop_senders_def)
  show ?thesis
    using inv_take_command [OF assms(1) Cons] inv_insert_pending [OF assms(1) Cons assms(2)]
    by (simp add: handle_command_def Cons Let_def io split: sum.splits write_outcome.splits)
qed

lemma inv_handle_cleanup:
  assumes "loop_inv st"
  shows "loop_inv (handle_cleanup now st)"
proof (rule loop_inv_intro)
  have inv: "conserved st" "filed st" "matching st" "settled st"
    using assms by (simp_all add: loop_inv_def)
  show "conserved (handle_cleanup now st)"
    using inv(1) mset_partition [of "sender \<circ> snd" "expired now \<circ> snd" "pending_replies st"]
    by (simp add: conserved_def tickets_def handle_cleanup_def drop_senders_def comp_def ac_simps)
  show "filed (handle_cleanup now st)" "matching (handle_cleanup now st)"
    "settled (handle_cleanup now st)"
    using inv by (auto simp: loop_inv_defs handle_cleanup_def drop_senders_def distinct_map_filter)
qed

lemma inv_route_reply:
  assumes "loop_inv st" and "frame_ok (True, i, data)"
  shows "loop_inv (route_reply i data st)"
proof (cases "map_of (pending_replies st) i")
  case None
  with assms show ?thesis by (simp add: route_reply_def)
next
  case (Some p)
  let ?st = "route_reply i data st"
  have inv: "conserved st" "filed st" "matching st" "settled st"
    using assms by (simp_all add: loop_inv_def)
  show ?thesis
  proof (rule loop_inv_intro)
    show "conserved ?st"
      using inv(1,2) mset_delete [of "pending_replies st" i p "sender \<circ> snd"] Some
      by (auto simp: conserved_def tickets_def filed_def route_reply_def answer_def add_mset_move)
    show "filed ?st"
      using inv(2) Some AList.distinct_delete [of "pending_replies st" i]
      by (auto simp: filed_def route_reply_def answer_def AList.delete_eq)
    have "cmd_id (submitted st ! sender p) = i"
      using inv(2) map_of_SomeD [OF Some] by (auto simp: filed_def)
    then show "matching ?st"
      using inv(3) Some decode_reply_id [OF assms(2)]
      by (auto simp: matching_def route_reply_def answer_def)
    show "settled ?st"
      using inv Some by (auto simp: settled_def route_reply_def answer_def)
  qed
qed

lemma inv_handle_packet:
  assumes "loop_inv st" and "selecting st" and "\<And>p. r = Inr p \<Longrightarrow> frame_ok p"
  shows "loop_inv (handle_packet ft r st)"
proof (cases r)
  case (Inl e)
  with assms(1) show ?thesis
    by (simp add: handle_packet_def inv_shut_down)
next
  case (Inr p)
  obtain b i data where p: "p = (b, i, data)" by (cases p)
  show ?thesis
  proof (cases b)
    case True
    with assms Inr p show ?thesis by (auto simp: handle_packet_def inv_route_reply)
  next
    case False
    with Inr p assms show ?thesis
      by (auto simp: handle_packet_def loop_inv_def conserved_def loop_inv_defs tickets_def
          selecting_def split: sum.splits)
  qed
qed

lemma poll_read_ok: "poll_read eof buf sock = ReadOk p rest \<Longrightarrow> frame_ok p \<and> buf @ sock = frame_bytes p @ rest"
  by (auto simp: poll_read_def split: sum.splits if_splits dest: read_packet_sound)

lemma inv_handle_read:
  assumes "loop_inv st" and "selecting st"
  shows "loop_inv (handle_read ft st)"
proof (cases "poll_read (peer_closed st) (read_buf st) (socket st)")
  case (NotReady b)
  with assms show ?thesis by (simp add: handle_read_def)
next
  case (ReadOk p rest)
  then have "frame_ok p"
    using poll_read_ok by blast
  with assms ReadOk show ?thesis
    by (auto simp: handle_read_def selecting_def intro!: inv_handle_packet)
next
  case (ReadFailed e)
  with assms show ?thesis
    by (auto simp: handle_read_def selecting_def intro!: inv_handle_packet)
qed

lemma inv_submit:
  assumes "loop_inv st" and "submit p st = Some (Inr st')"
  shows "loop_inv st'"
proof -
  have inv: "conserved st" "filed st" "matching st" "settled st"
    using assms by (simp_all add: loop_inv_def)
  have st': "st' = st\<lparr>command_rx := command_rx st @ [\<lparr>packet = p, reply_tx = length (submitted st)\<rparr>],
      submitted := submitted st @ [p]\<rparr>" "length (command_rx st) < COMMAND_CAPACITY"
      "producer (chan st) \<noteq> Gone"
    using assms(2) by (auto simp: submit_def split: if_splits)
  have "reply_tx q < length (submitted st)" if "q \<in> set (command_rx st)" for q
    using ticket_bound [OF inv(1), of "reply_tx q"] that by (simp add: tickets_def)
  moreover have "sender q < length (submitted st)" if "(i, q) \<in> set (pending_replies st)" for i q
    using ticket_bound [OF inv(1), of "sender q"] that by (force simp: tickets_def)
  moreover have "t < length (submitted st)" if "(t, out) \<in> set (answers st)" for t out
    using ticket_bound [OF inv(1), of t] that by (force simp: tickets_def)
  ultimately show ?thesis
    using inv st' by (fastforce simp: loop_inv_def conserved_def tickets_def loop_inv_defs nth_append)
qed

lemma inv_chan:
  assumes "loop_inv st" and "chan_act tk a (chan st) = Some ch" and "own_action a"
  shows "loop_inv (if producer ch = Gone \<and> producer (chan st) \<noteq> Gone
                   then shut_down (st\<lparr>chan := ch\<rparr>) else st\<lparr>chan := ch\<rparr>)"
proof -
  have stays: "producer ch = Gone" if "producer (chan st) = Gone"
    using that assms(2,3) by (cases a) (auto simp: chan_defs split: if_splits option.splits consumer.splits prod.splits)
  show ?thesis
  proof (cases "producer ch = Gone \<and> producer (chan st) \<noteq> Gone")
    case True
    have "loop_inv (shut_down st)" "shut_down (st\<lparr>chan := ch\<rparr>) = (shut_down st)\<lparr>chan := ch\<rparr>"
      using inv_shut_down [OF assms(1)] True by (simp_all add: shut_down_def drop_senders_def)
    moreover have "producer (chan (shut_down st)) = Gone"
      by (simp add: shut_down_def drop_senders_def)
    ultimately show ?thesis
      using True by (auto simp: loop_inv_def conserved_def loop_inv_defs tickets_def)
  next
    case False
    with assms(1) stays show ?thesis
      by (auto simp: loop_inv_def conserved_def loop_inv_defs tickets_def)
  qed
qed

lemma inv_act: "loop_inv st \<Longrightarrow> loop_act tk ft a st = Some st' \<Longrightarrow> loop_inv st'"
proof (cases a)
  case (DoChan c)
  assume "loop_inv st" "loop_act tk ft a st = Some st'"
  with DoChan inv_chan [of st tk c] show ?thesis
    by (auto split: if_splits option.splits)
qed (auto split: if_splits option.splits sum.splits
      intro: inv_submit inv_handle_command inv_handle_cleanup inv_handle_read)

lemma inv_reach: "loop_reach tk ft st st' \<Longrightarrow> loop_inv st \<Longrightarrow> loop_inv st'"
  by (induction rule: loop_reach.induct) (auto intro: inv_act)

section \<open>Reassembly of packets\<close>

text \<open>
  The read branch taken as long as it is ready, on a buffer and the bytes the socket holds: the
  packets it yields and what stays in the buffer of the unfinished \<open>read_packet\<close>. \<open>feed\<close> repeats
  it for the pieces in which the bytes arrive.
\<close>

lemma frame_nonempty: "frame_ok p \<Longrightarrow> frame_bytes p \<noteq> []"
  by (auto simp: frame_ok_def frame_bytes_def HEADER_SIZE_def split: prod.splits)

function drain :: "bytes \<Rightarrow> bytes \<Rightarrow> packet list \<times> bytes" where
  "drain buf sock = (case poll_read False buf sock of
      ReadOk p rest \<Rightarrow> (case drain [] rest of (ps, b) \<Rightarrow> (p # ps, b))
    | NotReady b \<Rightarrow> ([], b)
    | ReadFailed e \<Rightarrow> ([], buf @ sock))"
  by pat_completeness auto

termination drain
proof (relation "measure (\<lambda>(b, s). length b + length s)")
  fix buf sock p rest
  assume "poll_read False buf sock = ReadOk p rest"
  from poll_read_ok [OF this] have "frame_bytes p \<noteq> []" "length (buf @ sock) = length (frame_bytes p @ rest)"
    using frame_nonempty by auto
  then show "(([], rest), (buf, sock)) \<in> measure (\<lambda>(b, s). length b + length s)"
    by (cases "frame_bytes p") auto
qed simp

declare drain.simps [simp del]

fun feed :: "bytes \<Rightarrow> bytes list \<Rightarrow> packet list \<times> bytes" where
  "feed buf [] = ([], buf)"
| "feed buf (c # cs) = (case drain buf c of (ps, b) \<Rightarrow> case feed b cs of (qs, b') \<Rightarrow> (ps @ qs, b'))"

text \<open>A header that is rejected stays rejected, whatever follows.\<close>

lemma read_packet_bad:
  assumes "read_packet buf = Inl e" and "e \<noteq> Io UnexpectedEof"
  shows "read_packet (buf @ t) = Inl e"
  using assms
  by (auto simp: read_packet_def take_exact_def pbind_def pfail_def preturn_def Let_def split: if_splits)

lemma drain_frames:
  "buf @ c @ rest = concat (map frame_bytes ps) \<Longrightarrow> \<forall>p \<in> set ps. frame_ok p \<Longrightarrow>
     \<exists>ps1 ps2 b e. drain buf c = (ps1, b) \<and> ps = ps1 @ ps2
       \<and> b @ rest = concat (map frame_bytes ps2) \<and> read_packet b = Inl e"
proof (induction ps arbitrary: buf c)
  case Nil
  then have "buf = []" "c = []" "rest = []" by auto
  moreover have "read_packet [] = Inl (Io UnexpectedEof)"
    by (simp add: read_packet_def take_exact_def pbind_def HEADER_SIZE_def)
  ultimately show ?case
    by (simp add: drain.simps [of "[]" "[]"] poll_read_def)
next
  case (Cons p ps)
  have whole: "read_packet ((buf @ c) @ rest) = Inr (p, concat (map frame_bytes ps))"
    using Cons.prems read_packet_frame [of p] by simp
  show ?case
  proof (cases "read_packet (buf @ c)")
    case (Inl e)
    then have "e = Io UnexpectedEof"
      using whole read_packet_bad [OF Inl, of rest] by (cases "e = Io UnexpectedEof") auto
    with Inl have "drain buf c = ([], buf @ c)"
      by (simp add: drain.simps [of buf c] poll_read_def)
    with Inl Cons.prems show ?thesis
      by (intro exI [of _ "[]"] exI [of _ "p # ps"] exI [of _ "buf @ c"]) simp
  next
    case (Inr x)
    obtain q r where x: "x = (q, r)" by (cases x)
    with Inr whole packet_codec.extend have q: "q = p" "r @ rest = concat (map frame_bytes ps)"
      by fastforce+
    then obtain ps1 ps2 b e where IH: "drain [] r = (ps1, b)" "ps = ps1 @ ps2"
      "b @ rest = concat (map frame_bytes ps2)" "read_packet b = Inl e"
      using Cons.IH [of "[]" r] Cons.prems(2) by auto
    have "drain buf c = (p # ps1, b)"
      using Inr by (simp add: drain.simps [of buf c] poll_read_def x q IH(1))
    with IH show ?thesis
      by (intro exI [of _ "p # ps1"] exI [of _ ps2] exI [of _ b]) simp
  qed
qed

lemma feed_frames:
  "buf @ concat cs = concat (map frame_bytes ps) \<Longrightarrow> \<forall>p \<in> set ps. frame_ok p \<Longrightarrow>
     read_packet buf = Inl e \<Longrightarrow> feed buf cs = (ps, [])"
proof (induction cs arbitrary: buf ps e)
  case Nil
  have "ps = []"
  proof (cases ps)
    case (Cons p qs)
    with Nil read_packet_frame [of p] show ?thesis by auto
  qed simp
  with Nil show ?case by simp
next
  case (Cons c cs)
  from Cons.prems drain_frames [of buf c "concat cs" ps]
  obtain ps1 ps2 b e' where d: "drain buf c = (ps1, b)" "ps = ps1 @ ps2"
    "b @ concat cs = concat (map frame_bytes ps2)" "read_packet b = Inl e'"
    by auto
  from Cons.IH [OF d(3) _ d(4)] Cons.prems(2) d(2) have "feed b cs = (ps2, [])" by auto
  with d show ?case by simp
qed

end
