(* ===== verification/Board.thy ===== *)
theory Board
  imports LoopInvariants
begin

text \<open>
  What the event loop promises its callers, as an abstract machine: a board of the requests asked so
  far and the outcome of each, which once there never changes. Every action of the loop, whatever
  happens on the socket, comes to steps of the board.
\<close>

section \<open>The board\<close>

record board =
  asked :: "command_packet list"
  outcome :: "nat \<Rightarrow> reply_outcome option"

definition answers_packet :: "command_packet \<Rightarrow> reply_outcome \<Rightarrow> bool" where
  "answers_packet p out \<longleftrightarrow> (case out of Answered (Inr r) \<Rightarrow> reply_id r = cmd_id p | _ \<Rightarrow> True)"

inductive board_step :: "board \<Rightarrow> board \<Rightarrow> bool" where
  ask: "board_step b (b\<lparr>asked := asked b @ [p]\<rparr>)"
| resolve: "t < length (asked b) \<Longrightarrow> outcome b t = None \<Longrightarrow> answers_packet (asked b ! t) out \<Longrightarrow>
    board_step b (b\<lparr>outcome := (outcome b)(t \<mapsto> out)\<rparr>)"

definition board_of :: "('q, 'n) event_loop \<Rightarrow> board" where
  "board_of st = \<lparr>asked = submitted st, outcome = map_of (answers st)\<rparr>"

text \<open>An outcome is final and belongs to a request asked.\<close>

lemma board_final: "board_step\<^sup>*\<^sup>* b b' \<Longrightarrow> outcome b t = Some out \<Longrightarrow> outcome b' t = Some out"
  by (induction rule: rtranclp_induct) (auto elim!: board_step.cases)

section \<open>Every action only adds\<close>

definition adds_answers :: "('q, 'n) event_loop \<Rightarrow> ('q, 'n) event_loop \<Rightarrow> bool" where
  "adds_answers st st' \<longleftrightarrow> submitted st' = submitted st \<and> (\<exists>xs. answers st' = answers st @ xs)"

lemma adds_refl [simp]: "adds_answers st st"
  by (simp add: adds_answers_def)

lemma adds_changes [simp]:
  "adds_answers st (answer t r u) \<longleftrightarrow> adds_answers st u \<or> submitted u = submitted st \<and> (\<exists>xs. answers u @ [(t, Answered r)] = answers st @ xs)"
  "adds_answers st (u\<lparr>command_rx := c\<rparr>) = adds_answers st u" "adds_answers st (u\<lparr>read_buf := bs\<rparr>) = adds_answers st u"
  "adds_answers st (u\<lparr>written := bs\<rparr>) = adds_answers st u" "adds_answers st (u\<lparr>socket := bs\<rparr>) = adds_answers st u"
  "adds_answers st (u\<lparr>chan := ch\<rparr>) = adds_answers st u" "adds_answers st (u\<lparr>peer_closed := b\<rparr>) = adds_answers st u"
  "adds_answers st (u\<lparr>pending_replies := ps\<rparr>) = adds_answers st u"
  by (auto simp: adds_answers_def answer_def)

lemma adds_drop: "adds_answers st u \<Longrightarrow> adds_answers st (drop_senders ts u)"
  by (auto simp: adds_answers_def drop_senders_def)

lemma adds_shut_down: "adds_answers st u \<Longrightarrow> adds_answers st (shut_down u)"
  by (simp add: shut_down_def adds_drop)

lemma adds_command: "adds_answers st (handle_command w now st)"
  by (auto simp: handle_command_def Let_def insert_pending_def intro!: adds_drop
      split: list.split sum.split write_outcome.split option.split)

lemma adds_packet: "adds_answers st u \<Longrightarrow> adds_answers st (handle_packet ft r u)"
  by (auto simp: handle_packet_def route_reply_def adds_shut_down split: sum.split option.split)

lemma adds_read: "adds_answers st (handle_read ft st)"
  by (auto simp: handle_read_def intro: adds_packet split: read_poll.split)

lemma loop_act_adds:
  assumes "loop_act tk ft a st = Some st'"
  shows "adds_answers st st' \<or> (\<exists>p. submitted st' = submitted st @ [p] \<and> answers st' = answers st)"
proof (cases a)
  case (Submit p)
  with assms show ?thesis
    by (auto simp: submit_def split: if_splits)
next
  case (DoCleanup now)
  with assms show ?thesis
    by (auto simp: handle_cleanup_def intro: adds_drop split: if_splits)
next
  case (DoChan c)
  with assms show ?thesis
    by (auto intro: adds_shut_down split: if_splits option.splits)
qed (use assms in \<open>auto simp: adds_command adds_read split: if_splits\<close>)

section \<open>The refinement\<close>

lemma map_of_fresh: "t \<notin> fst ` set xs \<Longrightarrow> map_of (xs @ [(t, out)]) = (map_of xs)(t \<mapsto> out)"
proof -
  assume "t \<notin> fst ` set xs"
  then have "map_of xs t = None" by (simp add: map_of_eq_None_iff)
  then show ?thesis
    by (auto simp: fun_eq_iff map_add_def split: option.split)
qed

lemma answers_are_steps:
  assumes "distinct (map fst (ys @ xs))" and "\<forall>(t, out) \<in> set xs. t < length ps \<and> answers_packet (ps ! t) out"
  shows "board_step\<^sup>*\<^sup>* \<lparr>asked = ps, outcome = map_of ys\<rparr> \<lparr>asked = ps, outcome = map_of (ys @ xs)\<rparr>"
  using assms
proof (induction xs rule: rev_induct)
  case Nil
  then show ?case by simp
next
  case (snoc x xs)
  obtain t out where x: "x = (t, out)" by force
  with snoc.prems have fresh: "t \<notin> fst ` set (ys @ xs)"
    and ok: "t < length ps" "answers_packet (ps ! t) out" by auto
  have step: "board_step \<lparr>asked = ps, outcome = map_of (ys @ xs)\<rparr> \<lparr>asked = ps, outcome = (map_of (ys @ xs))(t \<mapsto> out)\<rparr>"
    using resolve [of t "\<lparr>asked = ps, outcome = map_of (ys @ xs)\<rparr>" out] fresh ok
    by (simp add: map_of_eq_None_iff del: map_of_append)
  have steps: "board_step\<^sup>*\<^sup>* \<lparr>asked = ps, outcome = map_of ys\<rparr> \<lparr>asked = ps, outcome = map_of (ys @ xs)\<rparr>"
    using snoc by simp
  have "map_of (ys @ xs @ [x]) = (map_of (ys @ xs))(t \<mapsto> out)"
    using map_of_fresh [OF fresh, of out] x by simp
  with rtranclp.rtrancl_into_rtrancl [OF steps step] show ?case
    by (simp only:)
qed

lemma inv_answers:
  assumes "loop_inv st"
  shows "distinct (map fst (answers st)) \<and> (\<forall>(t, out) \<in> set (answers st).
    t < length (submitted st) \<and> answers_packet (submitted st ! t) out)"
proof -
  have c: "conserved st" and m: "matching st"
    using assms by (simp_all add: loop_inv_def)
  have "distinct (map fst (answers st))"
    using tickets_distinct [OF c] by (simp add: tickets_def)
  moreover have "t < length (submitted st)" if "(t, out) \<in> set (answers st)" for t out
    using ticket_bound [OF c, of t] that by (force simp: tickets_def)
  ultimately show ?thesis
    using m by (auto simp: matching_def answers_packet_def split: reply_outcome.split sum.split)
qed

lemma act_refines_board:
  assumes "loop_inv st'" and "loop_act tk ft a st = Some st'"
  shows "board_step\<^sup>*\<^sup>* (board_of st) (board_of st')"
  using loop_act_adds [OF assms(2)]
proof
  assume "adds_answers st st'"
  then obtain xs where "submitted st' = submitted st" "answers st' = answers st @ xs"
    by (auto simp: adds_answers_def)
  with inv_answers [OF assms(1)] answers_are_steps [of "answers st" xs "submitted st"] show ?thesis
    by (simp add: board_of_def)
next
  assume "\<exists>p. submitted st' = submitted st @ [p] \<and> answers st' = answers st"
  then obtain p where "submitted st' = submitted st @ [p]" "answers st' = answers st" by blast
  with ask [of "board_of st" p] show ?thesis
    by (simp add: board_of_def)
qed

lemma reach_refines_board:
  "loop_reach tk ft st st' \<Longrightarrow> loop_inv st \<Longrightarrow> board_step\<^sup>*\<^sup>* (board_of st) (board_of st')"
proof (induction rule: loop_reach.induct)
  case loop_reach_refl
  then show ?case by simp
next
  case (loop_reach_step st' a st'')
  then have "loop_inv st''"
    by (meson inv_reach loop_reach.loop_reach_step)
  from act_refines_board [OF this loop_reach_step.hyps(2)] loop_reach_step show ?case
    by (meson rtranclp_trans)
qed

end
