(* ===== verification/Delivery.thy ===== *)
theory Delivery
  imports Board
begin

text \<open>
  What the event loop does with the bytes and the events that come in: the event sets of the packets
  it reads against those its consumers get, the loop standing still on a full channel, and what an
  interrupted read loses. What is read and what is delivered are functions of a run.
\<close>

section \<open>Packets read and events delivered along a run\<close>

definition packets_in :: "loop_action \<Rightarrow> ('q, 'n) event_loop \<Rightarrow> packet list" where
  "packets_in a st = (case (a, poll_read (peer_closed st) (read_buf st) (socket st)) of
     (DoRead, ReadOk p _) \<Rightarrow> [p] | _ \<Rightarrow> [])"

text \<open>The result of \<open>recv_event\<close> when it finds an event, and of \<open>try_recv_event\<close>.\<close>

definition events_out :: "('q, 'n) tokio \<Rightarrow> loop_action \<Rightarrow> ('q, 'n) event_loop \<Rightarrow> event_set list" where
  "events_out tk a st = (case a of
     DoChan RecvTry \<Rightarrow> (case map_option consumer (recv_try tk (chan st)) of
         Some (Returned (Some e)) \<Rightarrow> [e] | _ \<Rightarrow> [])
   | DoChan TryRecvEvent \<Rightarrow> (case fst (try_recv_event tk (chan st)) of Some e \<Rightarrow> [e] | None \<Rightarrow> [])
   | _ \<Rightarrow> [])"

fun packets_read ::
    "('q, 'n) tokio \<Rightarrow> float_text \<Rightarrow> loop_action list \<Rightarrow> ('q, 'n) event_loop \<Rightarrow> packet list" where
  "packets_read tk ft [] st = []"
| "packets_read tk ft (a # as) st = (case loop_act tk ft a st of
     None \<Rightarrow> [] | Some st' \<Rightarrow> packets_in a st @ packets_read tk ft as st')"

fun events_received ::
    "('q, 'n) tokio \<Rightarrow> float_text \<Rightarrow> loop_action list \<Rightarrow> ('q, 'n) event_loop \<Rightarrow> event_set list" where
  "events_received tk ft [] st = []"
| "events_received tk ft (a # as) st = (case loop_act tk ft a st of
     None \<Rightarrow> [] | Some st' \<Rightarrow> events_out tk a st @ events_received tk ft as st')"

text \<open>The event sets that packets carry; replies, and packets that do not parse, carry none.\<close>

definition carried :: "float_text \<Rightarrow> packet \<Rightarrow> event_set list" where
  "carried ft = (\<lambda>(is_reply, i, data). if is_reply then []
     else (case parse_event_packet ft (drop HEADER_SIZE data) of Inl _ \<Rightarrow> [] | Inr es \<Rightarrow> [es]))"

definition event_sets :: "float_text \<Rightarrow> packet list \<Rightarrow> event_set list" where
  "event_sets ft ps = concat (map (carried ft) ps)"

lemma event_sets_simps [simp]:
  "event_sets ft [] = []" "event_sets ft (ps @ qs) = event_sets ft ps @ event_sets ft qs"
  "event_sets ft (p # ps) = carried ft p @ event_sets ft ps"
  by (simp_all add: event_sets_def)

text \<open>The event in the hands of \<open>publish_event\<close>, and the events under way.\<close>

definition in_flight :: "('q, 'n) event_channel \<Rightarrow> event_set list" where
  "in_flight ch = (case producer ch of Sending es \<Rightarrow> [es] | _ \<Rightarrow> [])"

definition under_way :: "('q \<Rightarrow> event_set list) \<Rightarrow> ('q, 'n) event_loop \<Rightarrow> event_set list" where
  "under_way contents st = contents (queue (chan st)) @ in_flight (chan st)"

lemma in_flight_producer [simp]:
  "in_flight (ch\<lparr>producer := Running\<rparr>) = []" "in_flight (ch\<lparr>producer := Gone\<rparr>) = []"
  "in_flight (ch\<lparr>producer := Notifying\<rparr>) = []" "in_flight (ch\<lparr>producer := Sending es\<rparr>) = [es]"
  "in_flight (ch\<lparr>queue := q\<rparr>) = in_flight ch" "in_flight (ch\<lparr>notify := n\<rparr>) = in_flight ch"
  "in_flight (ch\<lparr>consumer := c\<rparr>) = in_flight ch" "in_flight (ch\<lparr>rx_open := b\<rparr>) = in_flight ch"
  by (simp_all add: in_flight_def)

lemma chan_of_steps [simp]:
  "chan (handle_command w now st) = chan st" "chan (handle_cleanup now st) = chan st"
  "chan (route_reply i data st) = chan st" "chan (shut_down st) = (chan st)\<lparr>producer := Gone\<rparr>"
  by (auto simp: handle_command_def handle_cleanup_def route_reply_def shut_down_def insert_pending_def
      drop_senders_def answer_def Let_def split: list.split sum.split write_outcome.split option.split)

lemma no_events_out [simp]:
  "(\<And>c. a \<noteq> DoChan c) \<Longrightarrow> events_out tk a st = []" "a \<noteq> DoRead \<Longrightarrow> packets_in a st = []"
  by (auto simp: events_out_def packets_in_def split: loop_action.split)

section \<open>One action\<close>

text \<open>
  What was under way and what an action reads is what it delivers and what is under way afterwards;
  only a closed receiver loses the event in the producer's hands, and then the loop has ended.
\<close>

definition passed_on ::
    "('q \<Rightarrow> event_set list) \<Rightarrow> event_set list \<Rightarrow> event_set list \<Rightarrow> ('q, 'n) event_loop \<Rightarrow> ('q, 'n) event_loop \<Rightarrow> bool" where
  "passed_on contents new out st st' \<longleftrightarrow> (\<exists>lost. under_way contents st @ new = out @ under_way contents st' @ lost
     \<and> (lost \<noteq> [] \<longrightarrow> \<not> rx_open (chan st') \<and> producer (chan st') = Gone))"

lemma passed_on_all:
  "under_way contents st @ new = out @ under_way contents st' \<Longrightarrow> passed_on contents new out st st'"
  by (auto simp: passed_on_def)

lemma read_passes_on:
  assumes "selecting st"
  shows "passed_on contents (event_sets ft (packets_in DoRead st)) [] st (handle_read ft st)"
  using assms
  by (intro passed_on_all)
    (auto simp: handle_read_def handle_packet_def packets_in_def carried_def under_way_def in_flight_def
      selecting_def split: read_poll.split sum.split)

lemma chan_passes_on:
  assumes q: "mpsc_contract tk contents capacity" and act: "chan_act tk c (chan st) = Some ch" and "own_action c"
  shows "passed_on contents [] (events_out tk (DoChan c) st) st (st\<lparr>chan := ch\<rparr>)"
proof (cases c)
  case PublishSend
  with act have "publish_send tk (chan st) = Some ch" by simp
  then consider es where "producer (chan st) = Sending es" "\<not> rx_open (chan st)" "ch = (chan st)\<lparr>producer := Gone\<rparr>"
    | es q where "producer (chan st) = Sending es" "mpsc_send tk es (queue (chan st)) = Some q"
        "ch = (chan st)\<lparr>queue := q, producer := Notifying\<rparr>"
    by (auto simp: publish_send_def split: producer.splits if_splits option.splits)
  then show ?thesis
  proof cases
    case (1 es)
    then show ?thesis
      using PublishSend by (auto simp: passed_on_def events_out_def under_way_def in_flight_def [of "chan st"])
  next
    case (2 es q)
    from mpsc_send_room [OF assms(1) 2(2)] 2 PublishSend show ?thesis
      by (intro passed_on_all) (auto simp: events_out_def under_way_def in_flight_def [of "chan st"])
  qed
next
  case RecvTry
  with act mpsc_recv_head [OF q, of "queue (chan st)"] show ?thesis
    by (intro passed_on_all)
      (auto simp: events_out_def under_way_def recv_try_def split: if_splits option.splits)
next
  case TryRecvEvent
  with act mpsc_recv_head [OF q, of "queue (chan st)"] show ?thesis
    by (intro passed_on_all) (auto simp: events_out_def under_way_def try_recv_event_def split: option.splits)
qed (use act assms(3) in \<open>auto intro!: passed_on_all simp: events_out_def under_way_def publish_notify_def
    recv_subscribe_def in_flight_def split: if_splits consumer.splits prod.splits\<close>)

lemma act_passes_on:
  assumes "mpsc_contract tk contents capacity" and "loop_act tk ft a st = Some st'"
  shows "passed_on contents (event_sets ft (packets_in a st)) (events_out tk a st) st st'"
proof (cases a)
  case DoRead
  with assms(2) read_passes_on [of st contents ft] show ?thesis
    by (auto split: if_splits)
next
  case (DoChan c)
  with assms(2) obtain ch where ch: "chan_act tk c (chan st) = Some ch" "own_action c"
    and st': "st' = (if producer ch = Gone \<and> producer (chan st) \<noteq> Gone then shut_down (st\<lparr>chan := ch\<rparr>) else st\<lparr>chan := ch\<rparr>)"
    by (auto split: if_splits option.splits)
  have "chan st' = ch"
    using st' by auto
  with chan_passes_on [OF assms(1) ch] DoChan show ?thesis
    by (simp add: passed_on_def under_way_def)
qed (use assms(2) in \<open>auto intro!: passed_on_all simp: under_way_def selecting_def submit_def split: if_splits\<close>)

section \<open>Whole runs\<close>

lemma chan_ends:
  assumes "chan_act tk c ch = Some ch'"
  shows "producer ch = Gone \<Longrightarrow> producer ch' = Gone" "\<not> rx_open ch \<Longrightarrow> \<not> rx_open ch'"
  using assms by (cases c; auto simp: chan_defs split: if_splits option.splits prod.splits consumer.splits producer.splits)+

lemma read_keeps_receiver [simp]: "rx_open (chan (handle_read ft st)) = rx_open (chan st)"
  by (auto simp: handle_read_def handle_packet_def split: read_poll.split sum.split)

lemma read_keeps_stream [simp]: "peer_closed (handle_read ft st) = peer_closed st"
  by (auto simp: handle_read_def handle_packet_def route_reply_def answer_def shut_down_def drop_senders_def
      split: read_poll.split sum.split option.split)

lemma loop_ends:
  assumes "loop_act tk ft a st = Some st'"
  shows "producer (chan st) = Gone \<Longrightarrow> producer (chan st') = Gone" "\<not> rx_open (chan st) \<Longrightarrow> \<not> rx_open (chan st')"
  using assms by (cases a; auto simp: selecting_def submit_def split: if_splits option.splits dest: chan_ends)+

lemma gone_reads_nothing:
  "producer (chan st) = Gone \<Longrightarrow> packets_read tk ft as st = []"
proof (induction as arbitrary: st)
  case (Cons a as)
  show ?case
  proof (cases "loop_act tk ft a st")
    case (Some st')
    with Cons.prems have "a \<noteq> DoRead"
      by (auto simp: selecting_def)
    with Some Cons.IH [of st'] loop_ends(1) [OF Some Cons.prems] show ?thesis by simp
  qed simp
qed simp

lemma run_ends:
  assumes "run_loop tk ft as st = Some st'"
  shows "producer (chan st) = Gone \<Longrightarrow> producer (chan st') = Gone" "\<not> rx_open (chan st) \<Longrightarrow> \<not> rx_open (chan st')"
  using assms by (induction as arbitrary: st) (auto simp: Option.bind_eq_Some_conv dest: loop_ends)

lemma run_passes_on:
  assumes "mpsc_contract tk contents capacity"
  shows "run_loop tk ft as st = Some st' \<Longrightarrow>
    passed_on contents (event_sets ft (packets_read tk ft as st)) (events_received tk ft as st) st st'"
proof (induction as arbitrary: st)
  case Nil
  then show ?case by (simp add: passed_on_all)
next
  case (Cons a as)
  then obtain u where u: "loop_act tk ft a st = Some u" "run_loop tk ft as u = Some st'"
    by (auto simp: Option.bind_eq_Some_conv)
  obtain l where l: "under_way contents st @ event_sets ft (packets_in a st) = events_out tk a st @ under_way contents u @ l"
    "l \<noteq> [] \<longrightarrow> \<not> rx_open (chan u) \<and> producer (chan u) = Gone"
    using act_passes_on [OF assms u(1)] by (auto simp: passed_on_def)
  obtain k where k: "under_way contents u @ event_sets ft (packets_read tk ft as u)
      = events_received tk ft as u @ under_way contents st' @ k"
    "k \<noteq> [] \<longrightarrow> \<not> rx_open (chan st') \<and> producer (chan st') = Gone"
    using Cons.IH [OF u(2)] by (auto simp: passed_on_def)
  have "l @ event_sets ft (packets_read tk ft as u) = event_sets ft (packets_read tk ft as u) @ l"
    using l(2) gone_reads_nothing [of u tk ft as] by (cases "l = []") auto
  then have "under_way contents st @ event_sets ft (packets_in a st) @ event_sets ft (packets_read tk ft as u)
      = events_out tk a st @ events_received tk ft as u @ under_way contents st' @ k @ l"
    using l(1) k(1) by (metis append.assoc)
  moreover have "k @ l \<noteq> [] \<longrightarrow> \<not> rx_open (chan st') \<and> producer (chan st') = Gone"
    using k(2) l(2) run_ends [OF u(2)] by auto
  ultimately show ?case
    using u(1) by (auto simp: passed_on_def)
qed

text \<open>The channel holds no more than its capacity.\<close>

definition within ::
    "('q \<Rightarrow> event_set list) \<Rightarrow> ('q \<Rightarrow> nat) \<Rightarrow> ('q, 'n) event_channel \<Rightarrow> bool" where
  "within contents capacity ch \<longleftrightarrow> capacity (queue ch) = EVENT_CAPACITY \<and> length (contents (queue ch)) \<le> EVENT_CAPACITY"

lemma chan_within:
  assumes q: "mpsc_contract tk contents capacity" and "chan_act tk c ch = Some ch'" and "within contents capacity ch"
  shows "within contents capacity ch'"
proof (cases c)
  case PublishSend
  with assms(2,3) mpsc_send_room [OF q] show ?thesis
    by (fastforce simp: within_def publish_send_def split: producer.splits if_splits option.splits)
next
  case RecvTry
  with assms(2,3) mpsc_recv_head [OF q, of "queue ch"] show ?thesis
    by (auto simp: within_def recv_try_def split: if_splits option.splits)
next
  case TryRecvEvent
  with assms(2,3) mpsc_recv_head [OF q, of "queue ch"] show ?thesis
    by (auto simp: within_def try_recv_event_def split: option.splits)
qed (use assms(2,3) in \<open>auto simp: within_def publish_notify_def recv_subscribe_def
    split: if_splits consumer.splits prod.splits\<close>)

lemma within_producer [simp]: "within contents capacity (ch\<lparr>producer := p\<rparr>) = within contents capacity ch"
  by (simp add: within_def)

lemma within_read: "within contents capacity (chan (handle_read ft st)) = within contents capacity (chan st)"
  by (auto simp: handle_read_def handle_packet_def split: read_poll.split sum.split)

lemma run_within:
  assumes "mpsc_contract tk contents capacity"
  shows "run_loop tk ft as st = Some st' \<Longrightarrow> within contents capacity (chan st) \<Longrightarrow> within contents capacity (chan st')"
proof (induction as arbitrary: st)
  case (Cons a as)
  then obtain u where u: "loop_act tk ft a st = Some u" "run_loop tk ft as u = Some st'"
    by (auto simp: Option.bind_eq_Some_conv)
  have "within contents capacity (chan u)"
    using u(1) Cons.prems(2)
    by (cases a) (auto simp: within_read submit_def dest: chan_within [OF assms] split: if_splits option.splits)
  with Cons.IH [OF u(2)] show ?case .
qed simp

section \<open>A full channel\<close>

text \<open>The actions that take an event out of the channel or drop its receiver.\<close>

fun takes_event :: "loop_action \<Rightarrow> bool" where
  "takes_event (DoChan a) = (a \<in> {RecvTry, TryRecvEvent, DropReceiver})"
| "takes_event _ = False"

definition blocked_on :: "('q, 'n) tokio \<Rightarrow> event_set \<Rightarrow> ('q, 'n) event_loop \<Rightarrow> bool" where
  "blocked_on tk es st \<longleftrightarrow> producer (chan st) = Sending es \<and> rx_open (chan st) \<and> mpsc_send tk es (queue (chan st)) = None"

definition untouched :: "('q, 'n) event_loop \<Rightarrow> ('q, 'n) event_loop \<Rightarrow> bool" where
  "untouched st st' \<longleftrightarrow> answers st' = answers st \<and> pending_replies st' = pending_replies st
     \<and> written st' = written st \<and> queue (chan st') = queue (chan st)"

lemma blocked_act:
  assumes "blocked_on tk es st" and "\<not> takes_event a" and "loop_act tk ft a st = Some st'"
  shows "blocked_on tk es st' \<and> untouched st st'"
proof (cases a)
  case (DoChan c)
  with assms show ?thesis
    by (cases c) (auto simp: blocked_on_def untouched_def chan_defs split: if_splits consumer.splits prod.splits)
next
  case (Submit p)
  with assms show ?thesis
    by (auto simp: blocked_on_def untouched_def submit_def split: if_splits)
qed (use assms in \<open>auto simp: blocked_on_def untouched_def selecting_def split: if_splits\<close>)

lemma blocked_run:
  "blocked_on tk es st \<Longrightarrow> list_all (Not \<circ> takes_event) as \<Longrightarrow> run_loop tk ft as st = Some st' \<Longrightarrow>
     blocked_on tk es st' \<and> untouched st st'"
proof (induction as arbitrary: st)
  case (Cons a as)
  then obtain s where s: "loop_act tk ft a st = Some s" "run_loop tk ft as s = Some st'"
    by (auto simp: Option.bind_eq_Some_conv)
  with Cons blocked_act [of tk es st a ft s] show ?case by (auto simp: untouched_def)
qed (simp add: untouched_def)

section \<open>An interrupted read\<close>

text \<open>A proper prefix of a packet is not enough to read it.\<close>

lemma read_packet_short:
  assumes "frame_ok p" and "frame_bytes p = a @ b" and "b \<noteq> []"
  shows "read_packet a = Inl (Io UnexpectedEof)"
proof (cases "read_packet a")
  case (Inl e)
  have "e = Io UnexpectedEof"
  proof (rule ccontr)
    assume "e \<noteq> Io UnexpectedEof"
    from read_packet_bad [OF Inl this, of b] read_packet_frame [OF assms(1), of "[]"] assms(2) show False by simp
  qed
  with Inl show ?thesis by simp
next
  case (Inr x)
  obtain q r where x: "x = (q, r)" by (cases x)
  have "read_packet (a @ b) = Inr (q, r @ b)"
    using packet_codec.extend [of a q r b] Inr x by simp
  with read_packet_frame [OF assms(1), of "[]"] assms(2,3) show ?thesis by simp
qed

lemma poll_short:
  assumes "frame_ok p" and "frame_bytes p = a @ b" and "b \<noteq> []"
  shows "poll_read False [] a = NotReady a" "poll_read False a b = ReadOk p []"
  using read_packet_short [OF assms] read_packet_frame [OF assms(1), of "[]"] assms(2)
  by (simp_all add: poll_read_def)

lemma run_loop_append: "run_loop tk ft (as @ bs) st = Option.bind (run_loop tk ft as st) (run_loop tk ft bs)"
  by (induction as arbitrary: st) (auto split: Option.bind_splits)

lemma read_in_pieces:
  assumes "frame_ok p" and "frame_bytes p = a @ b" and "b \<noteq> []"
    and "selecting st" and "\<not> peer_closed st" and "read_buf st = []" and "socket st = []"
  shows "run_loop tk ft [Arrive a, DoRead] st = Some (st\<lparr>read_buf := a\<rparr>)"
    and "run_loop tk ft [Arrive a, DoRead, Arrive b, DoRead] st = Some (handle_packet ft (Inr p) st)"
proof -
  have same: "st\<lparr>read_buf := [], socket := []\<rparr> = st"
    using assms(6,7) by simp
  have sel: "selecting (st\<lparr>socket := x, read_buf := y\<rparr>)" "selecting (st\<lparr>socket := x\<rparr>)"
    "selecting (st\<lparr>read_buf := y\<rparr>)" "selecting (st\<lparr>read_buf := y, socket := x\<rparr>)" for x y
    using assms(4) by (simp_all add: selecting_def)
  show first: "run_loop tk ft [Arrive a, DoRead] st = Some (st\<lparr>read_buf := a\<rparr>)"
    using assms(5-7) sel poll_short [OF assms(1-3)] by (simp add: handle_read_def)
  have "run_loop tk ft [Arrive b, DoRead] (st\<lparr>read_buf := a\<rparr>) = Some (handle_packet ft (Inr p) st)"
    using assms(5-7) sel poll_short [OF assms(1-3)] by (simp add: handle_read_def same)
  with first run_loop_append [of tk ft "[Arrive a, DoRead]" "[Arrive b, DoRead]" st]
  show "run_loop tk ft [Arrive a, DoRead, Arrive b, DoRead] st = Some (handle_packet ft (Inr p) st)"
    by simp
qed

text \<open>Another branch of the \<open>select!\<close> then leaves the loop as if the bytes had never come.\<close>

lemma other_branch_drops:
  "handle_cleanup now (st\<lparr>read_buf := b\<rparr>) = handle_cleanup now st"
  "command_rx st \<noteq> [] \<Longrightarrow> handle_command w now (st\<lparr>read_buf := b\<rparr>) = handle_command w now st"
  by (auto simp: handle_cleanup_def handle_command_def drop_senders_def insert_pending_def answer_def Let_def
      neq_Nil_conv split: sum.split write_outcome.split option.split)

end
