(* ===== verification/LoopClaims.thy ===== *)
theory LoopClaims
  imports Delivery
begin

text \<open>
  The properties of the event loop and its event channel: what becomes of every request, which
  reply answers which request, reassembly of the packet stream, wake-ups and order of events, the
  clean-up of lost replies, and the places where the loop loses bytes, strands its consumer or
  stands still.
\<close>

section \<open>Small runs\<close>

definition no_floats :: float_text where
  "no_floats = \<lparr>f32_text = (\<lambda>_. []), f64_text = (\<lambda>_. [])\<rparr>"

definition demo_command :: command_packet where
  "demo_command = \<lparr>cmd_id = 7, command_set = 1, command = 1, cmd_data = []\<rparr>"

definition demo_reply :: reply_packet where
  "demo_reply = \<lparr>reply_id = 7, error_code = 0, reply_data = [1, 2]\<rparr>"

text \<open>One request, whose answer arrives; then the peer closes the stream with another pending.\<close>

definition demo_answered :: "loop_action list" where
  "demo_answered = [Submit demo_command, DoCommand Written 0, Arrive (reply_wire demo_reply), DoRead]"

definition demo_closed :: "loop_action list" where
  "demo_closed = demo_answered @ [Submit demo_command, DoCommand Written 5, PeerCloses, DoRead]"

definition demo_state :: "loop_action list \<Rightarrow> (nat \<times> event_set list, bool \<times> bool) event_loop" where
  "demo_state as = (case run_loop list_tokio no_floats as (spawn_event_loop list_tokio []) of
     Some st \<Rightarrow> st | None \<Rightarrow> spawn_event_loop list_tokio [])"

text \<open>Evaluating a run: the reads go through the codec of packets.\<close>

lemma poll_reply:
  "frame_ok (reply_frame r) \<Longrightarrow> poll_read eof [] (reply_wire r) = ReadOk (True, reply_id r, reply_wire r) []"
  using read_packet_frame [of "reply_frame r" "[]"]
  by (simp add: poll_read_def reply_frame_def frame_bytes_def)

lemma poll_read_append: "poll_read eof a b = poll_read eof [] (a @ b)"
  by (simp add: poll_read_def split: sum.split)

lemma poll_eof: "poll_read True [] [] = ReadFailed (Io UnexpectedEof)"
  by (simp add: poll_read_def read_packet_def take_exact_def pbind_def HEADER_SIZE_def)

lemma demo_frame: "frame_ok (reply_frame demo_reply)"
  by (rule frame_ok_reply) (simp add: demo_reply_def HEADER_SIZE_def MAX_PACKET_SIZE_def)

lemmas demo_defs = demo_answered_def demo_closed_def spawn_event_loop_def new_channel_def
  submit_def COMMAND_CAPACITY_def selecting_def handle_command_def encode_command_def HEADER_SIZE_def
  insert_pending_def drop_senders_def answer_def handle_read_def handle_packet_def route_reply_def
  shut_down_def Let_def demo_command_def poll_reply [OF demo_frame] poll_eof decode_reply_wire
  demo_reply_def [THEN arg_cong [where f = reply_id]]

lemma demo_reach:
  "run_loop list_tokio no_floats as (spawn_event_loop list_tokio []) \<noteq> None \<Longrightarrow>
     loop_reach list_tokio no_floats (spawn_event_loop list_tokio []) (demo_state as)"
  by (auto simp: demo_state_def intro: run_loop_reach loop_reach_refl)

lemma demo_runs:
  "run_loop list_tokio no_floats demo_answered (spawn_event_loop list_tokio []) \<noteq> None"
  "run_loop list_tokio no_floats demo_closed (spawn_event_loop list_tokio []) \<noteq> None"
  "answers (demo_state demo_answered) = [(0, Answered (Inr demo_reply))]"
  "answers (demo_state demo_closed) = [(0, Answered (Inr demo_reply)), (1, Dropped)]"
  "producer (chan (demo_state demo_closed)) = Gone"
  "submitted (demo_state demo_answered) = [demo_command]"
  by (simp_all add: demo_state_def demo_defs)

section \<open>Requests and replies\<close>

text \<open>
  C1: Whatever the interleaving of callers, event loop, JVM and event consumer, every request that
  was handed to the loop is in exactly one place (queued, pending, or resolved), so its caller is
  resolved at most once; and once the loop has ended every caller has been resolved.
\<close>

theorem requests_resolved_once:
  assumes "loop_reach tk ft (spawn_event_loop tk bs) st"
  shows "distinct (tickets st) \<and> set (tickets st) = {..<length (submitted st)}
    \<and> (producer (chan st) = Gone \<longrightarrow> set (map fst (answers st)) = {..<length (submitted st)})"
proof -
  have inv: "loop_inv st"
    by (rule inv_reach [OF assms loop_inv_init])
  then have c: "mset (tickets st) = mset [0..<length (submitted st)]"
    and s: "settled st"
    by (simp_all add: loop_inv_def conserved_def)
  have "set (tickets st) = {..<length (submitted st)}"
    using mset_eq_setD [OF c] by (simp add: lessThan_atLeast0)
  moreover have "producer (chan st) = Gone \<longrightarrow> set (map fst (answers st)) = set (tickets st)"
    using s by (simp add: settled_def tickets_def)
  ultimately show ?thesis
    using tickets_distinct [of st] c by (simp add: conserved_def)
qed

theorem requests_resolved_once_witness:
  "distinct (tickets (demo_state demo_closed))
    \<and> set (map fst (answers (demo_state demo_closed))) = {..<length (submitted (demo_state demo_closed))}"
  using requests_resolved_once [OF demo_reach [OF demo_runs(2)]] demo_runs(5) by blast

text \<open>
  C2: A caller that gets a reply gets the reply to its own request: the id of the reply is the id
  of the packet it submitted, in every reachable state of the loop.
\<close>

theorem reply_answers_own_request:
  assumes "loop_reach tk ft (spawn_event_loop tk bs) st" and "(t, Answered (Inr r)) \<in> set (answers st)"
  shows "t < length (submitted st) \<and> reply_id r = cmd_id (submitted st ! t)"
proof -
  have inv: "loop_inv st"
    by (rule inv_reach [OF assms(1) loop_inv_init])
  have "t \<in> set (tickets st)"
    using assms(2) by (force simp: tickets_def)
  then have "t < length (submitted st)"
    using inv ticket_bound [of st t] by (simp add: loop_inv_def)
  with inv assms(2) show ?thesis
    by (auto simp: loop_inv_def matching_def)
qed

theorem reply_answers_own_request_witness:
  "(0, Answered (Inr demo_reply)) \<in> set (answers (demo_state demo_answered))
    \<and> reply_id demo_reply = cmd_id (submitted (demo_state demo_answered) ! 0)"
  using reply_answers_own_request [OF demo_reach [OF demo_runs(1)], of 0 demo_reply]
  by (simp add: demo_runs)

text \<open>
  C3: The event loop refines a board of requests: from any reachable state, whatever the socket, the
  timer and the callers do, what happens comes to asking new requests and giving a request without an
  outcome its one outcome, a reply only with the request's own id. An outcome never changes, and once
  the loop has ended every request asked has one.
\<close>

theorem loop_refines_board:
  assumes "loop_reach tk ft (spawn_event_loop tk bs) st" and "loop_reach tk ft st st'"
  shows "board_of (spawn_event_loop tk bs) = \<lparr>asked = [], outcome = Map.empty\<rparr>
    \<and> board_step\<^sup>*\<^sup>* (board_of st) (board_of st')
    \<and> (outcome (board_of st) t = Some out \<longrightarrow> outcome (board_of st') t = Some out)
    \<and> (producer (chan st') = Gone \<and> n < length (asked (board_of st')) \<longrightarrow> outcome (board_of st') n \<noteq> None)"
proof -
  have inv: "loop_inv st"
    by (rule inv_reach [OF assms(1) loop_inv_init])
  note steps = reach_refines_board [OF assms(2) inv]
  have inv': "loop_inv st'"
    by (rule inv_reach [OF assms(2) inv])
  have "outcome (board_of st') n \<noteq> None" if "producer (chan st') = Gone" "n < length (asked (board_of st'))"
  proof -
    have "n \<in> set (tickets st')"
      using inv' that(2) unfolding loop_inv_def conserved_def board_of_def
      by (metis atLeastLessThan_iff board.select_convs(1) le0 set_mset_mset set_upt)
    with inv' that(1) show ?thesis
      by (simp add: loop_inv_def settled_def tickets_def board_of_def map_of_eq_None_iff)
  qed
  with steps board_final [OF steps] show ?thesis
    by (auto simp: board_of_def spawn_event_loop_def)
qed

theorem loop_refines_board_witness:
  "board_step\<^sup>*\<^sup>* (board_of (spawn_event_loop list_tokio [])) (board_of (demo_state demo_answered))
    \<and> outcome (board_of (demo_state demo_answered)) 0 = Some (Answered (Inr demo_reply))"
  using loop_refines_board [OF loop_reach_refl demo_reach [OF demo_runs(1)], THEN conjunct2, THEN conjunct1]
  by (rule conjI) (simp add: board_of_def demo_runs)

text \<open>
  The clean-up tick drops exactly the pending requests older than 30 seconds: each of their
  callers is resolved with an error, every other request stays pending, and nothing else is
  answered.
\<close>

theorem cleanup_exact:
  "pending_replies (handle_cleanup now st)
     = filter (\<lambda>(i, p). now - sent_at p \<le> 30 * 10 ^ 9) (pending_replies st)
   \<and> answers (handle_cleanup now st)
     = answers st @ map (\<lambda>(i, p). (sender p, Dropped))
         (filter (\<lambda>(i, p). 30 * 10 ^ 9 < now - sent_at p) (pending_replies st))"
  by (simp add: handle_cleanup_def drop_senders_def expired_def REPLY_TIMEOUT_def comp_def
      case_prod_unfold not_less)

text \<open>
  C8: The read side of the loop is indifferent to how TCP cuts the stream: if the bytes of a
  sequence of well-formed packets arrive in any pieces and nothing else wakes the loop in between,
  exactly those packets come out, in order, and no byte is left over.
\<close>

theorem packets_reassembled:
  assumes "\<forall>p \<in> set ps. frame_ok p" and "concat pieces = concat (map frame_bytes ps)"
  shows "feed [] pieces = (ps, [])"
proof (rule feed_frames)
  show "[] @ concat pieces = concat (map frame_bytes ps)" using assms(2) by simp
  show "read_packet [] = Inl (Io UnexpectedEof)"
    by (simp add: read_packet_def take_exact_def pbind_def HEADER_SIZE_def)
qed (rule assms(1))

theorem packets_reassembled_witness:
  "feed [] [take 5 (reply_wire demo_reply), drop 5 (reply_wire demo_reply) @ take 2 (reply_wire demo_reply),
       drop 2 (reply_wire demo_reply)]
     = ([reply_frame demo_reply, reply_frame demo_reply], [])"
  by (rule packets_reassembled)
    (simp_all add: demo_frame frame_bytes_def, simp add: reply_frame_def)

text \<open>
  C33: But when another branch of the \<open>select!\<close> runs while a packet is incomplete, what was read of it
  is lost. For any packet cut anywhere: uninterrupted, its two pieces are read as the packet; with a
  clean-up tick or a command in between, the loop goes on as if the first piece had never come, so
  that the second is read as the start of a packet.
\<close>

theorem tick_loses_partial_packet:
  assumes "frame_ok p" and "frame_bytes p = a @ b" and "b \<noteq> []"
    and "selecting st" and "\<not> peer_closed st" and "read_buf st = []" and "socket st = []"
  shows "run_loop tk ft [Arrive a, DoRead, Arrive b, DoRead] st = Some (handle_packet ft (Inr p) st)
    \<and> run_loop tk ft [Arrive a, DoRead, DoCleanup now, Arrive b, DoRead] st
      = run_loop tk ft [DoCleanup now, Arrive b, DoRead] st
    \<and> (command_rx st \<noteq> [] \<longrightarrow> run_loop tk ft [Arrive a, DoRead, DoCommand w now, Arrive b, DoRead] st
      = run_loop tk ft [DoCommand w now, Arrive b, DoRead] st)"
proof -
  have "run_loop tk ft ([Arrive a, DoRead] @ bs) st = run_loop tk ft bs (st\<lparr>read_buf := a\<rparr>)" for bs
    using read_in_pieces(1) [OF assms, of tk ft] by (simp only: run_loop_append Option.bind.simps)
  from this [of "[DoCleanup now, Arrive b, DoRead]"] this [of "[DoCommand w now, Arrive b, DoRead]"]
  show ?thesis
    using read_in_pieces(2) [OF assms] assms(4) other_branch_drops [where st = st and b = a]
    by (simp add: selecting_def)
qed

text \<open>
  A reply cut after five bytes, on a loop that waits for it: the request is answered, or with the tick
  stays unanswered, the rest of the reply in the buffer.
\<close>

theorem tick_loses_partial_packet_witness:
  "\<exists>st. pending_replies st = [(7, \<lparr>sender = 0, sent_at = 0\<rparr>)]
    \<and> map_option answers (run_loop list_tokio no_floats [Arrive (take 5 (reply_wire demo_reply)), DoRead,
        Arrive (drop 5 (reply_wire demo_reply)), DoRead] st) = Some [(0, Answered (Inr demo_reply))]
    \<and> map_option (\<lambda>u. (answers u, read_buf u)) (run_loop list_tokio no_floats
        [Arrive (take 5 (reply_wire demo_reply)), DoRead, DoCleanup (10 * 10 ^ 9),
         Arrive (drop 5 (reply_wire demo_reply)), DoRead] st) = Some ([], drop 5 (reply_wire demo_reply))"
proof (intro exI conjI)
  let ?st = "demo_state [Submit demo_command, DoCommand Written 0]"
  show st: "pending_replies ?st = [(7, \<lparr>sender = 0, sent_at = 0\<rparr>)]"
    by (simp add: demo_state_def demo_defs)
  have ready: "selecting ?st" "\<not> peer_closed ?st" "read_buf ?st = []" "socket ?st = []" "answers ?st = []"
    by (simp_all add: demo_state_def demo_defs)
  have cut: "frame_bytes (reply_frame demo_reply) = take 5 (reply_wire demo_reply) @ drop 5 (reply_wire demo_reply)"
    "drop 5 (reply_wire demo_reply) \<noteq> []"
    by (simp_all add: frame_bytes_def reply_frame_def length_reply_wire HEADER_SIZE_def)
  note here = tick_loses_partial_packet [OF demo_frame cut ready(1-4), of list_tokio no_floats "10 * 10 ^ 9"]
  from here st ready(5) show "map_option answers (run_loop list_tokio no_floats
      [Arrive (take 5 (reply_wire demo_reply)), DoRead, Arrive (drop 5 (reply_wire demo_reply)), DoRead] ?st)
      = Some [(0, Answered (Inr demo_reply))]"
    by (simp add: handle_packet_def reply_frame_def route_reply_def answer_def decode_reply_wire
        demo_reply_def [THEN arg_cong [where f = reply_id]])
  have "poll_read False [] (drop 5 (reply_wire demo_reply)) = NotReady (drop 5 (reply_wire demo_reply))"
    by (simp add: poll_read_def read_packet_def take_exact_def pbind_def HEADER_SIZE_def
        length_reply_wire demo_reply_def)
  then have "map_option (\<lambda>u. (answers u, read_buf u)) (run_loop list_tokio no_floats
      [DoCleanup (10 * 10 ^ 9), Arrive (drop 5 (reply_wire demo_reply)), DoRead] ?st)
      = Some ([], drop 5 (reply_wire demo_reply))"
    using ready st by (simp add: handle_cleanup_def drop_senders_def handle_read_def selecting_def expired_def REPLY_TIMEOUT_def)
  with here show "map_option (\<lambda>u. (answers u, read_buf u)) (run_loop list_tokio no_floats
      [Arrive (take 5 (reply_wire demo_reply)), DoRead, DoCleanup (10 * 10 ^ 9),
       Arrive (drop 5 (reply_wire demo_reply)), DoRead] ?st) = Some ([], drop 5 (reply_wire demo_reply))"
    by (simp del: run_loop.simps)
qed

section \<open>Events\<close>

text \<open>
  C11: No wake-up is lost: with a \<open>Notify\<close> and a channel that do as tokio documents, in every
  interleaving of \<open>publish_event\<close>, \<open>recv_event\<close> and \<open>try_recv_event\<close>, whenever the consumer is parked
  and an event waits, the producer is about to notify it; and a consumer that found the channel empty
  and has not yet parked is covered by a stored permit or by that notification.
\<close>

theorem no_lost_wakeup:
  assumes "mpsc_contract tk contents capacity" and "notify_contract tk permit waits"
    and "chan_steps tk (new_channel tk) ch" and "contents (queue ch) \<noteq> []"
  shows "(consumer ch = Parked \<longrightarrow> producer ch = Notifying)
    \<and> (consumer ch = Subscribing \<longrightarrow> permit (notify ch) \<or> producer ch = Notifying)"
  using wakeup_inv_steps [OF assms(1,2,3) wakeup_inv_new [OF assms(1,2)]] assms(4)
  by (auto simp: wakeup_inv_def)

definition demo_event :: event_set where
  "demo_event = \<lparr>suspend_policy = 2, events = []\<rparr>"

text \<open>The race of the regression test: the event is published between the lock and the subscription.\<close>

definition demo_race :: "(nat \<times> event_set list, bool \<times> bool) event_channel" where
  "demo_race = \<lparr>queue = (256, [demo_event]), notify = (True, False), rx_open = True, producer = Running,
     consumer = Subscribing\<rparr>"

lemma demo_race_reach: "chan_steps list_tokio (new_channel list_tokio) demo_race"
  by (rule run_chan_steps [of _ "[CallRecv, RecvTry, Publish demo_event, PublishSend, PublishNotify]" "new_channel list_tokio"])
    (simp_all add: chan_defs new_channel_def demo_race_def EVENT_CAPACITY_def list_tokio_def chan_steps_refl)

theorem no_lost_wakeup_witness:
  "snd (queue demo_race) \<noteq> [] \<and> consumer demo_race = Subscribing
    \<and> (fst (notify demo_race) \<or> producer demo_race = Notifying)"
proof -
  have q: "snd (queue demo_race) \<noteq> []" "consumer demo_race = Subscribing"
    by (simp_all add: demo_race_def)
  with no_lost_wakeup [OF list_tokio_mpsc list_tokio_notify demo_race_reach q(1)] show ?thesis by simp
qed

text \<open>
  C12: From the socket to the consumer no event is lost, duplicated or overtaken: after any run of the
  loop, the event sets its consumers have got, those in the channel and the one being published are, in
  this order, the event sets carried by the packets it has read; only once the receiver was dropped can
  the last ones be missing, and then the loop has ended. At most 256 wait in the channel.
\<close>

theorem events_in_order:
  assumes "mpsc_contract tk contents capacity" and "run_loop tk ft as (spawn_event_loop tk bs) = Some st"
  shows "length (contents (queue (chan st))) \<le> 256
    \<and> (\<exists>lost. event_sets ft (packets_read tk ft as (spawn_event_loop tk bs))
        = events_received tk ft as (spawn_event_loop tk bs) @ contents (queue (chan st)) @ in_flight (chan st) @ lost
      \<and> (lost \<noteq> [] \<longrightarrow> \<not> rx_open (chan st) \<and> producer (chan st) = Gone))"
proof -
  have "within contents capacity (chan (spawn_event_loop tk bs))" "under_way contents (spawn_event_loop tk bs) = []"
    using assms(1) by (simp_all add: spawn_event_loop_def new_channel_def within_def under_way_def in_flight_def
        mpsc_contract_def)
  with run_within [OF assms] run_passes_on [OF assms] show ?thesis
    by (auto simp: within_def passed_on_def under_way_def EVENT_CAPACITY_def)
qed

text \<open>An event packet without events, read, published and received.\<close>

definition demo_packet :: packet where
  "demo_packet = (False, 0, put_u32 16 @ put_u32 0 @ [0, 64, 100] @ put_u8 2 @ put_u32 0)"

definition demo_delivery :: "loop_action list" where
  "demo_delivery = [Arrive (frame_bytes demo_packet), DoRead, DoChan PublishSend, DoChan PublishNotify, DoChan TryRecvEvent]"

lemma demo_packet_read: "poll_read False [] (frame_bytes demo_packet) = ReadOk demo_packet []"
proof -
  have "frame_ok demo_packet"
    by (simp add: frame_ok_def demo_packet_def HEADER_SIZE_def MAX_PACKET_SIZE_def put_u8_def REPLY_FLAG_def drop_append
        nth_append)
  from read_packet_frame [OF this, of "[]"] show ?thesis
    by (simp add: poll_read_def)
qed

lemma demo_packet_parsed: "carried no_floats demo_packet = [demo_event]"
proof -
  have "parse_event_packet no_floats [2, 0, 0, 0, 0] = Inr demo_event"
    by code_simp
  moreover have "drop HEADER_SIZE (snd (snd demo_packet)) = [2, 0, 0, 0, 0]"
    by (simp add: demo_packet_def HEADER_SIZE_def put_u8_def drop_append) code_simp
  ultimately show ?thesis
    by (simp add: carried_def demo_packet_def)
qed

theorem events_in_order_witness:
  "\<exists>st. run_loop list_tokio no_floats demo_delivery (spawn_event_loop list_tokio []) = Some st
    \<and> event_sets no_floats (packets_read list_tokio no_floats demo_delivery (spawn_event_loop list_tokio []))
      = events_received list_tokio no_floats demo_delivery (spawn_event_loop list_tokio [])"
proof -
  have parsed: "parse_event_packet no_floats (drop HEADER_SIZE (snd (snd demo_packet))) = Inr demo_event"
    using demo_packet_parsed by (auto simp: carried_def demo_packet_def split: sum.splits)
  obtain st where run: "run_loop list_tokio no_floats demo_delivery (spawn_event_loop list_tokio []) = Some st"
    and out: "contents = snd \<Longrightarrow> contents (queue (chan st)) @ in_flight (chan st) = []" "rx_open (chan st)" for contents
    using demo_packet_read parsed
    by (auto simp: demo_delivery_def spawn_event_loop_def new_channel_def selecting_def handle_read_def handle_packet_def
        demo_packet_def chan_defs list_tokio_def in_flight_def EVENT_CAPACITY_def)
  from events_in_order [OF list_tokio_mpsc run] run out show ?thesis by auto
qed

text \<open>
  A call of \<open>recv_event\<close> returns the oldest waiting event if there is one and \<open>None\<close> if the
  channel is empty and the loop has ended; otherwise it parks with no permit left behind.
\<close>

theorem recv_event_outcome:
  assumes "mpsc_contract tk contents capacity" and "notify_contract tk permit waits" and "\<not> waits (notify ch)"
  shows "(case contents (queue ch) of
      e # es \<Rightarrow> \<exists>q. recv_event tk ch = Some (ch\<lparr>queue := q, consumer := Returned (Some e)\<rparr>) \<and> contents q = es
    | [] \<Rightarrow> if producer ch = Gone then recv_event tk ch = Some (ch\<lparr>consumer := Returned None\<rparr>)
            else \<exists>n. recv_event tk ch = Some (ch\<lparr>notify := n, consumer := Parked\<rparr>) \<and> \<not> permit n)"
proof (cases "mpsc_try_recv tk (queue ch)")
  case None
  then have "contents (queue ch) = []"
    using mpsc_recv_empty [OF assms(1)] by blast
  with None recv_event_gone recv_event_park [OF assms(2,3) None] show ?thesis by auto
next
  case (Some x)
  obtain e q where "x = (e, q)" by (cases x)
  with Some mpsc_recv_head [OF assms(1)] recv_event_item show ?thesis by (fastforce split: list.split)
qed

definition demo_stranded :: "(nat \<times> event_set list, bool \<times> bool) event_channel" where
  "demo_stranded = (new_channel list_tokio)\<lparr>notify := (False, True), producer := Gone, consumer := Parked\<rparr>"

text \<open>
  But a consumer already parked when the loop ends is never woken: such a state is reachable,
  and from it no sequence of steps moves the consumer. \<open>recv_event\<close> then never returns the \<open>None\<close>
  its documentation promises.
\<close>

theorem parked_consumer_stranded:
  "chan_steps list_tokio (new_channel list_tokio) demo_stranded \<and> producer demo_stranded = Gone
    \<and> (\<forall>ch. chan_steps list_tokio demo_stranded ch \<longrightarrow> consumer ch = Parked)"
proof -
  have "chan_steps list_tokio (new_channel list_tokio) demo_stranded"
    by (rule run_chan_steps [of _ "[CallRecv, RecvTry, RecvSubscribe, Shutdown]" "new_channel list_tokio"])
      (simp_all add: chan_defs new_channel_def demo_stranded_def list_tokio_def chan_steps_refl)
  moreover have "stranded demo_stranded"
    by (simp add: stranded_def demo_stranded_def)
  ultimately show ?thesis
    using stranded_steps [of list_tokio demo_stranded] by (auto simp: stranded_def)
qed

text \<open>
  C34: When the loop reads an event packet while the event channel is full, it stands still: until an
  event is taken from the channel or its receiver is dropped, no request is answered or expires and no
  command is written, whatever else happens. Taking one event lets it go on. A consumer that awaits a
  reply before it takes the next event therefore waits for ever.
\<close>

theorem full_channel_blocks_replies:
  assumes "mpsc_contract tk contents capacity"
    and "selecting st" and "rx_open (chan st)" and "capacity (queue (chan st)) = EVENT_CAPACITY"
    and "length (contents (queue (chan st))) = EVENT_CAPACITY"
    and "poll_read (peer_closed st) (read_buf st) (socket st) = ReadOk p rest" and "carried ft p = [es]"
    and "list_all (Not \<circ> takes_event) as" and "run_loop tk ft (DoRead # as) st = Some st'"
  shows "answers st' = answers st \<and> pending_replies st' = pending_replies st \<and> written st' = written st
    \<and> publish_send tk (chan st') = None \<and> publish_send tk (snd (try_recv_event tk (chan st'))) \<noteq> None"
proof -
  let ?u = "handle_read ft st"
  have u: "?u = st\<lparr>read_buf := [], socket := rest, chan := (chan st)\<lparr>producer := Sending es\<rparr>\<rparr>"
    using assms(6,7)
    by (auto simp: handle_read_def handle_packet_def carried_def split: prod.splits sum.splits if_splits)
  have "mpsc_send tk es (queue (chan st)) = None"
    using mpsc_send_full [OF assms(1)] assms(4,5) by simp
  then have "blocked_on tk es ?u"
    using assms(3) u by (simp add: blocked_on_def)
  moreover have "run_loop tk ft as ?u = Some st'"
    using assms(2,9) by simp
  ultimately have st': "blocked_on tk es st'" "untouched ?u st'"
    using blocked_run assms(8) by blast+
  then have q: "queue (chan st') = queue (chan st)"
    by (simp add: untouched_def u)
  have "contents (queue (chan st')) \<noteq> []"
    using assms(5) q by (auto simp: EVENT_CAPACITY_def)
  then obtain e k where k: "mpsc_try_recv tk (queue (chan st')) = Some (e, k)"
    using mpsc_recv_empty [OF assms(1)] by fastforce
  have "length (contents k) < capacity k"
    using mpsc_recv_head [OF assms(1) k] q assms(4,5) by simp
  then have "mpsc_send tk es k \<noteq> None"
    using mpsc_send_full [OF assms(1)] by (simp add: not_le)
  with k st' u show ?thesis
    by (auto simp: blocked_on_def untouched_def publish_send_def try_recv_event_def)
qed

text \<open>A full channel, a request waiting, and an event packet followed by the reply to the request.\<close>

definition demo_full :: "(nat \<times> event_set list, bool \<times> bool) event_loop" where
  "demo_full = (spawn_event_loop list_tokio (frame_bytes demo_packet))
     \<lparr>chan := (new_channel list_tokio)\<lparr>queue := (256, replicate 256 demo_event)\<rparr>,
      submitted := [demo_command], pending_replies := [(7, \<lparr>sender = 0, sent_at = 0\<rparr>)]\<rparr>"

theorem full_channel_blocks_replies_witness:
  "\<exists>st'. run_loop list_tokio no_floats [DoRead, Arrive (reply_wire demo_reply)] demo_full = Some st'
     \<and> answers st' = [] \<and> map fst (pending_replies st') = [7]"
proof -
  have full: "selecting demo_full" "rx_open (chan demo_full)" "fst (queue (chan demo_full)) = EVENT_CAPACITY"
    "length (snd (queue (chan demo_full))) = EVENT_CAPACITY"
    "poll_read (peer_closed demo_full) (read_buf demo_full) (socket demo_full) = ReadOk demo_packet []"
    by (simp_all add: demo_full_def spawn_event_loop_def new_channel_def selecting_def EVENT_CAPACITY_def demo_packet_read)
  obtain st' where run: "run_loop list_tokio no_floats [DoRead, Arrive (reply_wire demo_reply)] demo_full = Some st'"
    using full(1) by (auto simp: demo_full_def spawn_event_loop_def)
  from full_channel_blocks_replies [OF list_tokio_mpsc full demo_packet_parsed _ run] run show ?thesis
    by (simp add: demo_full_def spawn_event_loop_def)
qed

end
