(* ===== verification/McpClaims.thy ===== *)
theory McpClaims
  imports HandlerClaims LoopClaims Phases
begin

text \<open>
  The properties of the server as a whole: the session manager against an optional session, at most
  one session however the server is driven, the listener's phases among tool calls, the message loop's
  answers, the routing of tool calls, and the tools that only look.
\<close>

section \<open>The manager as an optional session\<close>

definition on_option ::
    "string \<Rightarrow> ('w debug_session, string, 'a) eff \<Rightarrow> 'w debug_session option
     \<Rightarrow> (string + 'a) \<times> 'w debug_session option" where
  "on_option none body v = (case v of
      None \<Rightarrow> (Inl none, None)
    | Some s \<Rightarrow> (case body s of (r, s) \<Rightarrow> (r, Some s)))"

lemma drop_current_store [simp]: "length (store (drop_current m)) = length (store m)"
  by (simp add: drop_current_def remove_session_fields split: option.split)

lemma connect_session_view:
  assumes "single m"
  shows "single (snd (connect_session d ts host port t m))
    \<and> (case d host port t of
         Inl e \<Rightarrow> view (snd (connect_session d ts host port t m)) = None
           \<and> fst (connect_session d ts host port t m) = Inl (''Failed to connect: '' @ error_text e)
       | Inr c \<Rightarrow> \<exists>s msg. view (snd (connect_session d ts host port t m)) = Some s
           \<and> opened (length (store m)) c s \<and> fst (connect_session d ts host port t m) = Inr msg)"
proof (cases "d host port t")
  case (Inl e)
  with drop_current_view [OF assms] show ?thesis
    by (simp add: connect_session_def view_def get_current_session_def)
next
  case (Inr c)
  with drop_current_view [OF assms] open_session_view [of "drop_current m" ts host port c] show ?thesis
    by (auto simp: connect_session_def)
qed

text \<open>
  C4: The session manager, with its map of sessions and its store, behaves as an optional session:
  a tool run under the lock of the current session is the tool run on that session, or the error text
  without one; disconnecting leaves none and fails exactly without one; attaching leaves a fresh
  session on the new connection, or none when connecting fails, whatever session was there before.
\<close>

theorem server_refines_optional_session:
  assumes "single m"
  shows "(fst (with_session_or none body m), view (snd (with_session_or none body m))) = on_option none body (view m)
    \<and> single (snd (with_session_or none body m))
    \<and> view (snd (handle_disconnect m)) = None \<and> single (snd (handle_disconnect m))
    \<and> (fst (handle_disconnect m) = Inl ''No active debug session to disconnect'' \<longleftrightarrow> view m = None)
    \<and> single (snd (connect_session d ts host port t m))
    \<and> (case d host port t of
         Inl e \<Rightarrow> view (snd (connect_session d ts host port t m)) = None
       | Inr c \<Rightarrow> \<exists>s. view (snd (connect_session d ts host port t m)) = Some s \<and> opened (length (store m)) c s)"
proof -
  have "(fst (with_session_or none body m), view (snd (with_session_or none body m))) = on_option none body (view m)"
    using with_session_view [OF assms, of none body]
    by (cases "view m") (auto simp: on_option_def split: prod.splits)
  moreover have "view (snd (handle_disconnect m)) = None \<and> single (snd (handle_disconnect m))
      \<and> (fst (handle_disconnect m) = Inl ''No active debug session to disconnect'' \<longleftrightarrow> view m = None)"
    using drop_current_view [OF assms] view_None [OF assms] assms
    by (auto simp: disconnect_drops get_current_session_id_def view_def get_current_session_def split: option.split)
  ultimately show ?thesis
    using with_session_view [OF assms] connect_session_view [OF assms, of d ts host port t]
    by (auto split: sum.splits)
qed

theorem server_refines_optional_session_witness:
  "single (stub_manager stub_stepping) \<and> view (snd (handle_disconnect (stub_manager stub_stepping))) = None"
proof -
  have "single (stub_manager stub_stepping)"
    by (simp add: single_def stub_manager_def)
  with server_refines_optional_session [OF this, of "[]" "ereturn ()" "\<lambda>_ _ _. Inl ConnectionClosed" 0 "[]" 0 0]
  show ?thesis by blast
qed

section \<open>At most one session\<close>

definition one_session :: "'w session_manager \<Rightarrow> 'w session_manager \<Rightarrow> bool" where
  "one_session m m' \<longleftrightarrow> (single m \<longrightarrow> single m')"

lemma one_session_bind [keeps_intros]:
  "keeps one_session m \<Longrightarrow> (\<And>x. keeps one_session (f x)) \<Longrightarrow> keeps one_session (ebind m f)"
  by (rule keeps_bind) (simp add: one_session_def)

lemma one_session_pure [keeps_intros]:
  "keeps one_session (ereturn x)" "keeps one_session (efail e)" "keeps one_session (eoption e v)"
  "keeps one_session (eresult r)"
  by (simp_all add: keeps_def one_session_def ereturn_def efail_def eoption_def eresult_def)

lemma one_session_body [keeps_intros]:
  "keeps one_session (with_session_or none body)" "keeps one_session (with_session body)"
  using with_session_view by (auto simp: keeps_def one_session_def with_session_def)

lemma one_session_disconnect [keeps_intros]: "keeps one_session handle_disconnect"
  using drop_current_view
  by (auto simp: keeps_def one_session_def disconnect_drops split: option.split)

lemma one_session_attach [keeps_intros]: "keeps one_session (handle_attach api d ts args)"
  using connect_session_view [THEN conjunct1]
  by (auto simp: keeps_def one_session_def handle_attach_def Let_def efail_def)

lemma one_session_trace [keeps_intros]: "keeps one_session (handle_trace api now args)"
  using one_session_body(2)
  by (auto simp: keeps_def one_session_def handle_trace_def split: option.split)

lemmas tool_handlers = total_def handle_set_breakpoint_def handle_list_breakpoints_def
  handle_clear_breakpoint_def handle_continue_def handle_step_into_def handle_step_over_def
  handle_step_out_def handle_step_def handle_get_stack_def handle_get_variable_def
  handle_select_thread_def handle_list_threads_def handle_pause_def handle_get_last_event_def
  handle_wait_for_event_def handle_inspect_def handle_find_class_def handle_list_methods_def
  handle_exception_breakpoint_def handle_eval_def handle_set_value_def handle_snapshot_def
  handle_vm_info_def handle_watch_def handle_trace_result_def handle_wait_for_class_def Let_def

lemma one_session_routes: "\<forall>(n, h) \<in> set (tool_routes api ft w args). keeps one_session h"
  unfolding tool_routes_def tool_handlers
  by (simp add: keeps_intros)


lemma one_session_run: "keeps one_session (run_tool api ft w name args)"
  using one_session_routes [of api ft w args]
  by (auto simp: run_tool_def intro: keeps_intros split: option.split dest!: map_of_SomeD)

lemma one_session_call: "single m \<Longrightarrow> single (snd (handle_call_tool sv ft w params m))"
proof -
  assume m: "single m"
  have "single m'" if "run_tool api ft w name args m = (r, m')" for api name args r m'
    using keeps_run [OF one_session_run that] m by (simp add: one_session_def)
  with m show ?thesis
    by (auto simp: handle_call_tool_def split: sum.split option.split prod.splits)
qed

lemma one_session_line: "single m \<Longrightarrow> single (snd (answer_line sv b w raw m))"
  using one_session_call [of m sv "floats b" w]
  by (auto simp: answer_line_def handle_request_def Let_def split: option.split sum.split prod.splits)
    (metis snd_conv)+

text \<open>The listener task only changes sessions, not which there are.\<close>

definition same_sessions :: "'w session_manager \<Rightarrow> 'w session_manager \<Rightarrow> bool" where
  "same_sessions m m' \<longleftrightarrow> sessions m' = sessions m \<and> current m' = current m \<and> length (store m') = length (store m)"

lemma same_sessions_refl [simp]: "same_sessions m m"
  by (simp add: same_sessions_def)

lemma same_sessions_trans: "same_sessions a b \<Longrightarrow> same_sessions b c \<Longrightarrow> same_sessions a c"
  by (simp add: same_sessions_def)

lemma same_sessions_single: "same_sessions m m' \<Longrightarrow> single m \<Longrightarrow> single m'"
  by (auto simp: same_sessions_def single_def split: option.splits)

lemma same_sessions_changes [simp]:
  "same_sessions m (snd (on_own a f u)) \<longleftrightarrow> same_sessions m u"
  "same_sessions m (on_session b g u) \<longleftrightarrow> same_sessions m u"
  by (simp_all add: same_sessions_def on_own_def on_session_def split: prod.split)

lemma collect_sessions [simp]: "same_sessions m (snd (collect_trace_events n l es u)) \<longleftrightarrow> same_sessions m u"
  by (simp add: collect_trace_events_def same_sessions_def split_beta split: option.split)

lemma phase_sessions: "same_sessions m (snd (listener_phase ft a p m))"
  by (cases p) (simp_all add: Let_def split_beta split: option.split)

text \<open>
  The server at work: lines of input are answered, and listener tasks receive and take their phases in
  between, each at its own place. A task may go on after it was aborted, so that nothing rests on when
  the abort takes effect. While a tool waits the tasks go on; what that does to the session is the
  schedule of \<open>Waiting\<close>, and where it takes the tasks is left open here, up to the phases there are.
\<close>

record 'w server =
  manager :: "'w session_manager"
  tasks :: "nat \<Rightarrow> task_place"

inductive task_step ::
    "float_text \<Rightarrow> task_place \<times> 'w debug_session \<Rightarrow> task_place \<times> 'w debug_session \<Rightarrow> bool" for ft where
  receiving: "task_step ft (Receiving, s) (received ev, s)"
| advancing: "session_phase ft p s = ps \<Longrightarrow> task_step ft (p, s) ps"

definition task_runs :: "float_text \<Rightarrow> 'w debug_session \<Rightarrow> task_place \<Rightarrow> task_place \<Rightarrow> bool" where
  "task_runs ft s p p' \<longleftrightarrow> (\<exists>s'. (task_step ft)\<^sup>*\<^sup>* (p, s) (p', s'))"

inductive server_step :: "'j serde \<Rightarrow> build \<Rightarrow> 'w server \<Rightarrow> 'w server \<Rightarrow> bool" for sv b where
  line: "answer_line sv b w raw (manager v) = (x, m) \<Longrightarrow> \<forall>a. task_runs (floats b) (ss a :: 'w debug_session) (tasks v a) (t a) \<Longrightarrow>
    server_step sv b v (v\<lparr>manager := m, tasks := t\<rparr>)"
| event: "tasks v a = Receiving \<Longrightarrow> server_step sv b v (v\<lparr>tasks := (tasks v)(a := received ev)\<rparr>)"
| phase: "listener_phase (floats b) a (tasks v a) (manager v) = (p, m) \<Longrightarrow>
    server_step sv b v (v\<lparr>manager := m, tasks := (tasks v)(a := p)\<rparr>)"

inductive_cases server_stepE: "server_step sv b v v'"

definition starting :: "'w server" where
  "starting = \<lparr>manager = new_manager, tasks = (\<lambda>_. Receiving)\<rparr>"

lemma task_runs_refl [simp]: "task_runs ft s p p"
  by (auto simp: task_runs_def)

lemma place_ok_steps: "(task_step ft)\<^sup>*\<^sup>* ps qs \<Longrightarrow> place_ok (fst ps) \<Longrightarrow> place_ok (fst qs)"
  by (induction rule: rtranclp_induct) (auto elim!: task_step.cases dest: place_ok_session)

lemma place_ok_runs: "task_runs ft s p p' \<Longrightarrow> place_ok p \<Longrightarrow> place_ok p'"
  by (auto simp: task_runs_def dest: place_ok_steps)

lemma places_step: "server_step sv b v v' \<Longrightarrow> \<forall>a. place_ok (tasks v a) \<Longrightarrow> \<forall>a. place_ok (tasks v' a)"
  by (elim server_stepE) (auto dest: place_ok_next place_ok_runs)

lemma places_reach: "(server_step sv b)\<^sup>*\<^sup>* v v' \<Longrightarrow> \<forall>a. place_ok (tasks v a) \<Longrightarrow> \<forall>a. place_ok (tasks v' a)"
  by (induction rule: rtranclp_induct) (simp_all add: places_step)

lemma single_step: "server_step sv b v v' \<Longrightarrow> single (manager v) \<Longrightarrow> single (manager v')"
proof (erule server_stepE)
  show "single (manager v')" if "single (manager v)" "v' = v\<lparr>manager := m, tasks := t\<rparr>"
    "answer_line sv b w raw (manager v) = (x, m)" for w raw x m t
    using that one_session_line [of "manager v" sv b w raw] by simp
  show "single (manager v')" if "single (manager v)" "v' = v\<lparr>manager := m, tasks := (tasks v)(a := p)\<rparr>"
    "listener_phase (floats b) a (tasks v a) (manager v) = (p, m)" for a p m
    using that same_sessions_single [OF phase_sessions [of "manager v" "floats b" a "tasks v a"]] by simp
qed simp

lemma single_reach: "(server_step sv b)\<^sup>*\<^sup>* v v' \<Longrightarrow> single (manager v) \<Longrightarrow> single (manager v')"
  by (induction rule: rtranclp_induct) (simp_all add: single_step)

text \<open>
  C13: However lines of input and the phases of listener tasks follow each other, the server never holds
  more than one session, and the one it holds is the current one.
\<close>

theorem at_most_one_session:
  assumes "(server_step sv b)\<^sup>*\<^sup>* starting v" and "m = manager v"
  shows "length (sessions m) \<le> 1 \<and> (current m = None \<longleftrightarrow> sessions m = [])
    \<and> (\<forall>(sid, a) \<in> set (sessions m). current m = Some sid \<and> get_current_session m = Some a \<and> a < length (store m))"
proof -
  have "single m"
    using single_reach [OF assms(1)] assms(2) by (simp add: starting_def single_new)
  then show ?thesis
    by (rule single_cases) (auto simp: get_current_session_def)
qed

text \<open>A JSON of texts: a text is a request when it starts with \<open>r\<close>, and its own id.\<close>

definition text_serde :: "string serde" where
  "text_serde = \<lparr>accessors = demo_api\<lparr>j_get := (\<lambda>v n. if starts_with v ''r'' then Some v else None)\<rparr>,
     from_str = (\<lambda>l. if starts_with l ''?'' then None else Some l),
     to_string = (\<lambda>r. ''reply to '' @ rs_id r),
     as_request = (\<lambda>v. if v = ''r'' then Inl ''no method'' else Inr \<lparr>rq_jsonrpc = ''2.0'', rq_id = v,
       rq_method = (if v = ''r1'' then ''tools/list'' else ''tools/call''), rq_params = None\<rparr>),
     as_initialize = (\<lambda>_. Inl ''no initialize''), as_call = (\<lambda>v. Inr \<lparr>call_name = v, call_arguments = v\<rparr>),
     to_value = (\<lambda>_. ''value''), empty_object = ''debug.pause'', null_value = ''null''\<rparr>"

definition text_build :: build where
  "text_build = \<lparr>package_version = ''0.0.0'', agent_instructions = [],
     floats = no_floats\<rparr>"

definition calm :: "(u8 \<times> i32) list surroundings" where
  "calm = \<lparr>dial = (\<lambda>_ _ _. Inl ConnectionClosed), timestamp = 0, clock = 0, schedule = (Receiving, [])\<rparr>"

theorem at_most_one_session_witness:
  "length (sessions (snd (answer_line text_serde text_build calm ''r2'' new_manager))) \<le> 1"
proof -
  obtain x m where run: "answer_line text_serde text_build calm ''r2'' new_manager = (x, m)" by force
  have "(server_step text_serde text_build)\<^sup>*\<^sup>* starting (starting\<lparr>manager := m\<rparr>)"
    using run server_step.line [of text_serde text_build calm "''r2''" starting x m "\<lambda>_. new_session (stub_conn 1 [])" "tasks starting"]
    by (intro r_into_rtranclp) (simp add: starting_def)
  from at_most_one_session [OF this refl] run show ?thesis by simp
qed

text \<open>
  C35: However tool calls and listener tasks interleave, a phase of a listener leaves the breakpoints
  and the selected thread of every session alone, and forgets an active step only when the event set it
  is handling holds a step event of that very request; the step another tool call has armed meanwhile
  stays. The last event changes only to the set the task is handling, with the next sequence number.
\<close>

theorem listener_respects_tools:
  assumes "tasks v0 = (\<lambda>_. Receiving)" and "(server_step sv b)\<^sup>*\<^sup>* v0 v"
    and "listener_phase (floats b) a (tasks v a) (manager v) = (p, m')"
    and "s = store (manager v) ! i" and "s' = store m' ! i"
  shows "breakpoints s' = breakpoints s \<and> selected_thread_id s' = selected_thread_id s
    \<and> (active_step s' \<noteq> active_step s \<longrightarrow> active_step s' = None \<and>
        (\<exists>es st. active_step s = Some st \<and> tasks v a = Recording es (Some (st_request_id st))
           \<and> step_seen es (st_request_id st)))
    \<and> (last_event s' \<noteq> last_event s \<or> last_event_seq s' \<noteq> last_event_seq s \<longrightarrow>
        (\<exists>es. tasks v a = Storing es \<and> last_event s' = Some es \<and> last_event_seq s' = last_event_seq s + 1))"
proof -
  have "place_ok (tasks v a)"
    using places_reach [OF assms(2)] assms(1) by simp
  with listener_phase_effect [of "tasks v a" "manager v" i "floats b" a] assms(3-5) show ?thesis
    by (auto simp: phase_effect_def user_part_def)
qed

text \<open>The step event of request 7 on the JVM of \<open>stub_stepping\<close>, whose active step that is.\<close>

definition stepped :: event_set where
  "stepped = \<lparr>suspend_policy = 1, events = [\<lparr>kind = EK_SINGLE_STEP, request_id = 7, details = Step 5 demo_location\<rparr>]\<rparr>"

definition stub_server :: "(u8 \<times> i32) list debug_session \<Rightarrow> task_place \<Rightarrow> (u8 \<times> i32) list server" where
  "stub_server s p = \<lparr>manager = stub_manager s, tasks = (\<lambda>_. Receiving)(0 := p)\<rparr>"

lemma stub_phase:
  "listener_phase no_floats 0 p (stub_manager s) = (p', stub_manager s') \<Longrightarrow>
     server_step text_serde text_build (stub_server s p) (stub_server s' p')"
  using server_step.phase [of text_build 0 "stub_server s p" p' "stub_manager s'" text_serde]
  by (simp add: stub_server_def text_build_def)

theorem listener_respects_tools_witness:
  "\<exists>s p. (server_step text_serde text_build)\<^sup>*\<^sup>* (stub_server stub_stepping Receiving) (stub_server s p)
    \<and> active_step s \<noteq> None \<and> active_step (store (snd (listener_phase no_floats 0 p (stub_manager s))) ! 0) = None
    \<and> step_seen stepped 7"
proof -
  let ?s = "stub_stepping\<lparr>conn := stub_conn 2 [(EK_BREAKPOINT, 3)]\<rparr>" and ?p = "Recording stepped (Some 7)"
  let ?v = "stub_server ?s ?p"
  have "server_step text_serde text_build (stub_server stub_stepping Receiving)
      (stub_server stub_stepping (Received 0 0 stepped))"
    using server_step.event [of "stub_server stub_stepping Receiving" 0 text_serde text_build "(0, 0, Some stepped)"]
    by (simp add: stub_server_def received_def)
  moreover have "server_step text_serde text_build \<dots> (stub_server stub_stepping (Looking stepped))"
    by (rule stub_phase) (simp add: collect_trace_events_def collect_trace_def stub_stepping_def stub_session_def
        new_session_def stub_manager_def get_current_session_def)
  moreover have "server_step text_serde text_build \<dots> (stub_server stub_stepping (Clearing stepped 7))"
    by (rule stub_phase) (simp add: step_to_clear_def stub_stepping_def stepped_def is_step_of_def)
  moreover have "server_step text_serde text_build \<dots> ?v"
    by (rule stub_phase) (simp add: on_own_def clear_step_def stub_clear stub_stepping_def stub_session_def
        new_session_def stub_manager_def)
  ultimately have reach: "(server_step text_serde text_build)\<^sup>*\<^sup>* (stub_server stub_stepping Receiving) ?v"
    by (meson rtranclp.rtrancl_into_rtrancl rtranclp.rtrancl_refl)
  obtain p' m' where run: "listener_phase (floats text_build) 0 (tasks ?v 0) (manager ?v) = (p', m')" by force
  moreover have "active_step (store m' ! 0) \<noteq> active_step (store (manager ?v) ! 0)"
    using run by (auto simp: stub_server_def stub_manager_def Let_def on_session_def forget_step_def stub_stepping_def get_current_session_def)
  ultimately show ?thesis
    using listener_respects_tools [OF _ reach run refl refl, of 0] reach
    by (intro exI [of _ ?s] exI [of _ ?p]) (auto simp: stub_server_def text_build_def stub_stepping_def stub_manager_def)
qed

section \<open>Answers of the message loop\<close>

definition expects_answer :: "'j serde \<Rightarrow> string \<Rightarrow> bool" where
  "expects_answer sv raw \<longleftrightarrow> trim raw \<noteq> [] \<and> (case from_str sv (trim raw) of
      None \<Rightarrow> True | Some v \<Rightarrow> j_get (accessors sv) v ''id'' \<noteq> None)"

definition answers_line :: "'j serde \<Rightarrow> string \<Rightarrow> 'j json_rpc_response \<Rightarrow> bool" where
  "answers_line sv raw r \<longleftrightarrow> (rs_result r = None \<longleftrightarrow> rs_error r \<noteq> None) \<and> (case from_str sv (trim raw) of
      None \<Rightarrow> rs_id r = null_value sv \<and> rs_error r = Some (rpc_error PARSE_ERROR ''Parse error'')
    | Some v \<Rightarrow> (case as_request sv v of
        Inl _ \<Rightarrow> rs_id r = null_value sv \<and> rs_error r = Some (rpc_error INVALID_REQUEST ''Invalid request'')
      | Inr rq \<Rightarrow> rs_id r = rq_id rq))"

lemma response_fields [simp]:
  "rs_id (response i x) = i" "rs_result (response i x) = None \<longleftrightarrow> rs_error (response i x) \<noteq> None"
  "rs_error (response i (Inl e)) = Some e"
  by (simp_all add: response_def split: sum.split)

lemma handle_request_id: "handle_request sv b w rq m = (Some r, m') \<Longrightarrow>
    rs_id r = rq_id rq \<and> (rs_result r = None \<longleftrightarrow> rs_error r \<noteq> None)"
  by (auto simp: handle_request_def split: if_splits prod.splits)

lemma answer_line_answers:
  "answer_line sv b w raw m = (Reply r, m') \<Longrightarrow> expects_answer sv raw \<and> answers_line sv raw r"
  by (auto simp: answer_line_def expects_answer_def answers_line_def Let_def dest: handle_request_id
      split: if_splits option.splits sum.splits prod.splits)

lemma answer_line_silent: "answer_line sv b w raw m = (Silent, m') \<Longrightarrow> \<not> expects_answer sv raw \<and> m' = m"
  by (auto simp: answer_line_def expects_answer_def Let_def split: if_splits option.splits sum.splits prod.splits)

definition input_lines :: "('w surroundings \<times> read_outcome) list \<Rightarrow> string list" where
  "input_lines inputs = List.map_filter (\<lambda>(w, i). case i of ReadLine l \<Rightarrow> Some l | _ \<Rightarrow> None) inputs"

text \<open>
  C5: While the server runs, the responses on its output answer, one each and in order, the lines of
  input that expect one: a line that does not parse gets a parse error with a null id, one with an id
  that is not a request an invalid-request error with a null id, every request one response with its
  own id, holding either a result or an error; empty lines and notifications get none.
\<close>

theorem every_request_answered_once:
  assumes "message_loop sv b inputs (o', m) = (Reading, o2, m')"
  shows "\<exists>rs. out_text o2 = out_text o' @ concat (map (\<lambda>r. to_string sv r @ nl) rs)
    \<and> list_all2 (answers_line sv) (filter (expects_answer sv) (input_lines inputs)) rs"
  using assms
proof (induction inputs arbitrary: o' m)
  case Nil
  then show ?case by (simp add: input_lines_def List.map_filter_simps)
next
  case (Cons i inputs)
  obtain w inp where i: "i = (w, inp)" by force
  with Cons.prems obtain raw where raw: "inp = ReadLine raw" by (cases inp) auto
  obtain a u where au: "answer_line sv b w raw m = (a, u)" by force
  have lines: "input_lines (i # inputs) = raw # input_lines inputs"
    by (simp add: i raw input_lines_def List.map_filter_simps)
  show ?case
  proof (cases a)
    case Silent
    with Cons.prems i raw au have "message_loop sv b inputs (o', u) = (Reading, o2, m')" by simp
    from Cons.IH [OF this] answer_line_silent [of sv b w raw m u] au Silent lines show ?thesis by simp
  next
    case (Reply r)
    with Cons.prems i raw au have w: "out_error o' = None"
      and rest: "message_loop sv b inputs (o'\<lparr>out_text := out_text o' @ to_string sv r @ nl\<rparr>, u) = (Reading, o2, m')"
      by (auto simp: write_line_def split: option.splits)
    from Cons.IH [OF rest] obtain rs where
      "out_text o2 = out_text o' @ concat (map (\<lambda>r. to_string sv r @ nl) (r # rs))"
      "list_all2 (answers_line sv) (filter (expects_answer sv) (input_lines inputs)) rs" by auto
    moreover have "expects_answer sv raw" "answers_line sv raw r"
      using answer_line_answers au Reply by blast+
    ultimately show ?thesis
      using lines by (intro exI [of _ "r # rs"]) simp
  next
    case Panic
    with Cons.prems i raw au show ?thesis by simp
  qed
qed

theorem every_request_answered_once_witness:
  "\<exists>o2 rs. message_loop text_serde text_build [(calm, ReadLine ''?''), (calm, ReadLine ''note''), (calm, ReadLine ''r1'')]
      (\<lparr>out_text = [], out_error = None\<rparr>, new_manager) = (Reading, o2, new_manager)
    \<and> out_text o2 = concat (map (\<lambda>r. to_string text_serde r @ nl) rs) \<and> length rs = 2"
proof -
  let ?inputs = "[(calm, ReadLine ''?''), (calm, ReadLine ''note''), (calm, ReadLine ''r1'')]"
  have t: "trim ''?'' = ''?''" "trim ''note'' = ''note''" "trim ''r1'' = ''r1''"
    by code_simp+
  have "\<exists>o2. message_loop text_serde text_build ?inputs (\<lparr>out_text = [], out_error = None\<rparr>, new_manager)
      = (Reading, o2, new_manager)"
    by (simp add: answer_line_def t text_serde_def starts_with_def write_line_def handle_request_def Let_def)
  then obtain o2 where run: "message_loop text_serde text_build ?inputs (\<lparr>out_text = [], out_error = None\<rparr>, new_manager)
      = (Reading, o2, new_manager)" by blast
  have "filter (expects_answer text_serde) (input_lines ?inputs) = [''?'', ''r1'']"
    by (simp add: expects_answer_def input_lines_def List.map_filter_simps t text_serde_def starts_with_def)
  with every_request_answered_once [OF run] obtain rs where
    "out_text o2 = concat (map (\<lambda>r. to_string text_serde r @ nl) rs)" "length rs = 2"
    by (auto dest!: list_all2_lengthD)
  with run show ?thesis by blast
qed

section \<open>Routing\<close>

text \<open>
  C21: The tools the server lists are exactly those it routes, each once and in the same order, and
  the arguments a listed tool requires are among those its schema declares; any other name is
  answered with an error and changes nothing.
\<close>

theorem tools_routed:
  "map tool_name get_tools = map fst (tool_routes api ft w args)
    \<and> distinct (map tool_name get_tools)
    \<and> (\<forall>t \<in> set get_tools. set (tool_required t) \<subseteq> tp_name ` set (tool_properties t))
    \<and> (name \<notin> tool_name ` set get_tools \<longrightarrow> run_tool api ft w name args m = (Inl (''Unknown tool: '' @ name), m))"
proof -
  have names: "map tool_name get_tools = map fst (tool_routes api ft w args)"
    by (simp add: tool_list_defs tool_routes_def)
  have "map_of (tool_routes api ft w args) name = None" if "name \<notin> tool_name ` set get_tools"
    using that names by (metis list.set_map map_of_eq_None_iff)
  moreover have "distinct (map tool_name get_tools)"
    by (simp add: tool_list_defs)
  ultimately show ?thesis
    using names required_declared by (simp add: run_tool_def efail_def)
qed

theorem tools_routed_witness:
  "run_tool demo_api no_floats calm ''debug.kill'' ''5'' new_manager = (Inl ''Unknown tool: debug.kill'', new_manager)"
proof -
  have "''debug.kill'' \<notin> tool_name ` set get_tools"
    by (simp add: tool_list_defs)
  with tools_routed [of demo_api no_floats calm "''5''" "''debug.kill''" new_manager] show ?thesis by simp
qed

section \<open>Tools that only look\<close>

definition looking_tools :: "string list" where
  "looking_tools = [''debug.list_breakpoints'', ''debug.get_stack'', ''debug.get_variable'', ''debug.list_threads'',
     ''debug.get_last_event'', ''debug.inspect'', ''debug.find_class'', ''debug.list_methods'', ''debug.snapshot'',
     ''debug.vm_info'']"

definition looked :: "'w session_manager \<Rightarrow> 'w session_manager \<Rightarrow> bool" where
  "looked m m' \<longleftrightarrow> sessions m' = sessions m \<and> current m' = current m \<and> aborted m' = aborted m
     \<and> uuid_counter m' = uuid_counter m \<and> length (store m') = length (store m)
     \<and> (\<forall>b. reads (store m ! b) (store m' ! b))"

lemma looked_pure [keeps_intros]:
  "keeps looked (eoption e v)" "keeps looked (efail e)" "keeps looked (eresult r)"
  "keeps looked (ereturn x)"
  by (simp_all add: keeps_def looked_def eoption_def efail_def eresult_def ereturn_def)

lemma looked_bind [keeps_intros]:
  "keeps looked m \<Longrightarrow> (\<And>x. keeps looked (f x)) \<Longrightarrow> keeps looked (ebind m f)"
  by (rule keeps_bind) (auto simp: looked_def intro: reads_trans)

lemma looked_tool: "looking_tool t \<Longrightarrow> keeps looked (with_session t)"
  using looking_tool.manager_kept looking_tool.session_kept
  unfolding keeps_def looked_def by (metis prod.collapse)

lemmas looking_axioms = list_breakpoints.looking_tool_axioms last_event.looking_tool_axioms
  list_threads.looking_tool_axioms vm_info.looking_tool_axioms get_stack.looking_tool_axioms
  get_variable.looking_tool_axioms inspect.looking_tool_axioms snapshot.looking_tool_axioms
  find_class.looking_tool_axioms list_methods.looking_tool_axioms

lemma looked_run:
  assumes "name \<in> set looking_tools"
  shows "keeps looked (run_tool api ft w name args)"
proof -
  have "keeps looked (run_tool api ft w ''debug.list_breakpoints'' args)"
    "keeps looked (run_tool api ft w ''debug.get_stack'' args)"
    "keeps looked (run_tool api ft w ''debug.get_variable'' args)"
    "keeps looked (run_tool api ft w ''debug.list_threads'' args)"
    "keeps looked (run_tool api ft w ''debug.get_last_event'' args)"
    "keeps looked (run_tool api ft w ''debug.inspect'' args)"
    "keeps looked (run_tool api ft w ''debug.find_class'' args)"
    "keeps looked (run_tool api ft w ''debug.list_methods'' args)"
    "keeps looked (run_tool api ft w ''debug.snapshot'' args)"
    "keeps looked (run_tool api ft w ''debug.vm_info'' args)"
    by (simp_all add: run_tool_def tool_routes_def tool_handlers keeps_intros looked_tool looking_axioms)
  with assms show ?thesis
    unfolding looking_tools_def by auto
qed

text \<open>
  C20: A tool that only looks (listing, stack, variable, threads, last event, inspect, classes, methods,
  snapshot, version) changes no entry of the manager and, in whatever session, nothing but the
  connection and the cache of class signatures; what it sends are commands that ask, so whatever
  those leave alone in the JVM (what is suspended, which requests are armed, every variable) is left
  alone by the tool.
\<close>

theorem looking_tools_look:
  assumes "name \<in> set looking_tools" and "run_tool api ft w name args m = (r, m')"
  shows "sessions m' = sessions m \<and> current m' = current m \<and> aborted m' = aborted m
    \<and> (\<exists>c sigs. store m' ! b = (store m ! b)\<lparr>conn := c, class_signatures := sigs\<rparr>
        \<and> loop_send c = loop_send (conn (store m ! b))
        \<and> sends_only asking (loop_send c) (peer (conn (store m ! b))) (peer c)
        \<and> ((\<forall>p w. asking p \<longrightarrow> f (snd (loop_send c p w)) = f w) \<longrightarrow> f (peer c) = f (peer (conn (store m ! b)))))"
proof -
  have l: "looked m m'"
    by (rule keeps_run [OF looked_run [OF assms(1)] assms(2)])
  then obtain c sigs where "store m' ! b = (store m ! b)\<lparr>conn := c, class_signatures := sigs\<rparr>"
    and send: "loop_send c = loop_send (conn (store m ! b))"
    and sent: "sends_only asking (loop_send c) (peer (conn (store m ! b))) (peer c)"
    unfolding looked_def reads_def asks_def by metis
  moreover have "f (peer c) = f (peer (conn (store m ! b)))" if "\<forall>p w. asking p \<longrightarrow> f (snd (loop_send c p w)) = f w"
    using sends_only_keeps [OF sent] that by blast
  ultimately show ?thesis
    using l unfolding looked_def by blast
qed

theorem looking_tools_look_witness:
  "\<exists>r m'. run_tool demo_api no_floats calm ''debug.find_class'' ''A'' (stub_manager stub_stepping) = (r, m')
     \<and> current m' = Some ''s'' \<and> active_step (store m' ! 0) = active_step stub_stepping"
proof -
  obtain r m' where run: "run_tool demo_api no_floats calm ''debug.find_class'' ''A'' (stub_manager stub_stepping) = (r, m')"
    by force
  have "''debug.find_class'' \<in> set looking_tools"
    by (simp add: looking_tools_def)
  from looking_tools_look [OF this run, of 0 set] have "current m' = current (stub_manager stub_stepping)"
    and "active_step (store m' ! 0) = active_step stub_stepping" by auto
  with run show ?thesis
    by (simp add: stub_manager_def)
qed

end
