(* ===== verification/EvalSafety.thy ===== *)
theory EvalSafety
  imports HandlerClaims LoopClaims
begin

text \<open>
  What \<open>debug.eval\<close> may make the JVM run: \<open>transmits P\<close> relates two states of a session between which only
  commands in \<open>P\<close> were sent, \<open>eval_command\<close> are those of an evaluation, among them the invocations of
  methods the JVM itself listed under an allowed name.
\<close>

section \<open>Commands a session sends\<close>

definition transmits :: "(command_packet \<Rightarrow> bool) \<Rightarrow> 'w connection \<Rightarrow> 'w connection \<Rightarrow> bool" where
  "transmits P c c' \<longleftrightarrow> loop_send c' = loop_send c \<and> sends_only P (loop_send c) (peer c) (peer c')"

definition listed :: "'w connection \<Rightarrow> string \<Rightarrow> nat \<Rightarrow> u64 \<Rightarrow> u64 \<Rightarrow> bool" where
  "listed c name n cid mid \<longleftrightarrow> (\<exists>c' c'' ms mi. transmits (\<lambda>_. True) c c' \<and> get_methods cid c' = (Inr ms, c'')
     \<and> mi \<in> set ms \<and> mi_name mi = name \<and> mi_id mi = mid \<and> match_sig n (mi_signature mi) = Some True)"

inductive eval_command :: "'w connection \<Rightarrow> string \<Rightarrow> command_packet \<Rightarrow> bool" for c name where
  ask: "asking p \<Longrightarrow> eval_command c name p"
| create: "command_set p = CS_VIRTUAL_MACHINE \<Longrightarrow> command p = VM_CREATE_STRING \<Longrightarrow> eval_command c name p"
| invoke: "command_set p = CS_OBJECT_REFERENCE \<Longrightarrow> command p = OR_INVOKE_METHOD \<Longrightarrow>
    cmd_data p = invoke_body ob t cid mid args b \<Longrightarrow> nm \<in> {name, ''toString''} - set BLOCKED_METHODS \<Longrightarrow>
    listed c nm (length args) cid mid \<Longrightarrow> eval_command c name p"

lemma transmits_refl [simp]: "transmits P c c"
  by (simp add: transmits_def sent_none)

lemma transmits_trans: "transmits P a b \<Longrightarrow> transmits P b c \<Longrightarrow> transmits P a c"
  by (auto simp: transmits_def intro: sends_only_trans)

lemma sends_only_mono: "sends_only P send w w' \<Longrightarrow> (\<And>p. P p \<Longrightarrow> Q p) \<Longrightarrow> sends_only Q send w w'"
  by (induction rule: sends_only.induct) (auto intro: sends_only.intros)

lemma transmits_mono: "transmits P c c' \<Longrightarrow> (\<And>p. P p \<Longrightarrow> Q p) \<Longrightarrow> transmits Q c c'"
  by (auto simp: transmits_def intro: sends_only_mono)

lemma asks_transmits: "asks c c' \<longleftrightarrow> transmits asking c c'"
  by (simp add: asks_def transmits_def)

lemma transact_transmits: "P (request_packet c cs cm body) \<Longrightarrow> transact cs cm body p c = (r, c') \<Longrightarrow> transmits P c c'"
  using sent_one [OF sent_none, of P "request_packet c cs cm body" "loop_send c" "peer c"]
    transact_sends [of cs cm body p c]
  by (auto simp: transmits_def after_send_def)

section \<open>Effects under an invariant\<close>

text \<open>An effect run where \<open>I\<close> holds leaves \<open>I\<close> true, and what it returns satisfies \<open>Q\<close>.\<close>

definition yields :: "('s \<Rightarrow> bool) \<Rightarrow> ('s, 'e, 'a) eff \<Rightarrow> ('a \<Rightarrow> bool) \<Rightarrow> bool" where
  "yields I m Q \<longleftrightarrow> (\<forall>s r s'. I s \<longrightarrow> m s = (r, s') \<longrightarrow> I s' \<and> (\<forall>x. r = Inr x \<longrightarrow> Q x))"

lemma yields_bind:
  assumes "yields I m R" and "\<And>x. R x \<Longrightarrow> yields I (f x) Q"
  shows "yields I (ebind m f) Q"
  unfolding yields_def
proof (intro allI impI)
  fix s r s'
  assume s: "I s" and run: "ebind m f s = (r, s')"
  from run show "I s' \<and> (\<forall>x. r = Inr x \<longrightarrow> Q x)"
  proof (cases rule: ebind_cases)
    case (1 e)
    with assms(1) s show ?thesis by (auto simp: yields_def)
  next
    case (2 x t)
    with assms(1) s have "I t" "R x" by (auto simp: yields_def)
    with assms(2) 2(2) show ?thesis by (auto simp: yields_def)
  qed
qed

abbreviation maintains :: "('s \<Rightarrow> bool) \<Rightarrow> ('s, 'e, 'a) eff \<Rightarrow> bool" where
  "maintains I m \<equiv> yields I m (\<lambda>_. True)"

lemma maintains_bind: "maintains I m \<Longrightarrow> (\<And>x. yields I (f x) Q) \<Longrightarrow> yields I (ebind m f) Q"
  by (rule yields_bind)

lemma yields_pure [simp]: "yields I (ereturn x) Q \<longleftrightarrow> Q x \<or> (\<forall>s. \<not> I s)" "yields I (efail e) Q"
  by (auto simp: yields_def ereturn_def efail_def)

lemma yields_option: "(\<And>x. v = Some x \<Longrightarrow> Q x) \<Longrightarrow> yields I (eoption e v) Q"
  by (auto simp: yields_def eoption_def split: option.splits)

lemma yields_map: "(\<And>x. maintains I (f x)) \<Longrightarrow> yields I (emap f xs) (\<lambda>ys. length ys = length xs)"
  by (induction xs) (auto intro!: maintains_bind yields_bind [of _ "emap f xs" for xs])

lemma yields_catch: "yields I m Q \<Longrightarrow> yields I (ecatch m) (\<lambda>r. \<forall>x. r = Inr x \<longrightarrow> Q x)"
  by (auto simp: yields_def ecatch_def split: prod.splits)

section \<open>An evaluation\<close>

definition evaluating :: "'w connection \<Rightarrow> string \<Rightarrow> 'w debug_session \<Rightarrow> bool" where
  "evaluating c name s \<longleftrightarrow> transmits (eval_command c name) c (conn s)"

lemma evaluating_start [simp]: "evaluating (conn s) name s"
  by (simp add: evaluating_def)

lemma evaluating_step:
  "evaluating c name s \<Longrightarrow> transmits (eval_command c name) (conn s) c' \<Longrightarrow> evaluating c name (s\<lparr>conn := c'\<rparr>)"
  by (auto simp: evaluating_def intro: transmits_trans)

lemma evaluating_reads:
  assumes "evaluating c name s" and "reads s s'"
  shows "evaluating c name s'"
proof -
  from assms(2) have "transmits asking (conn s) (conn s')"
    by (auto simp: reads_def asks_transmits)
  then have "transmits (eval_command c name) (conn s) (conn s')"
    by (rule transmits_mono) (rule eval_command.ask)
  with assms(1) show ?thesis
    unfolding evaluating_def by (rule transmits_trans)
qed

lemma looking_maintains: "keeps reads m \<Longrightarrow> maintains (evaluating c name) m"
  by (auto simp: yields_def dest: keeps_run intro: evaluating_reads)

lemma asked_maintain:
  "maintains (evaluating c name) (attempt (get_frames t i n))"
  "maintains (evaluating c name) (attempt (get_object_reference_type ob))"
  "maintains (evaluating c name) (on_conn_err what (get_object_reference_type ob))"
  "maintains (evaluating c name) (attempt (get_interfaces rt))"
  "maintains (evaluating c name) (attempt (classes_by_signature sig))"
  by (intro looking_maintains keeps_intros asks_ops)+

lemma shown_maintain:
  "maintains (evaluating c name) (leaf ft v)"
  "maintains (evaluating c name) (epure (format_value_resolved ft v))"
  "maintains (evaluating c name) (epure (get_class_signature rt))"
  "maintains (evaluating c name) (resolve_target_thread t)"
  by (intro looking_maintains keeps_intros reads_class_signature reads_value_resolved)+

lemmas looking_steps = maintains_bind asked_maintain shown_maintain

lemma calls_maintain:
  assumes "\<And>u. transmits (eval_command c name) u (snd (m u))"
  shows "maintains (evaluating c name) (on_conn_err what m)" "maintains (evaluating c name) (attempt m)"
proof -
  have "evaluating c name (s\<lparr>conn := c'\<rparr>)" if "evaluating c name s" "m (conn s) = (r, c')" for s r c'
    using that assms [of "conn s"] by (simp add: evaluating_step)
  then show "maintains (evaluating c name) (on_conn_err what m)" "maintains (evaluating c name) (attempt m)"
    by (auto simp: yields_def on_conn_err_def attempt_def split: prod.splits)
qed

lemma create_transmits: "transmits (eval_command c name) u (snd (create_string str u))"
  unfolding create_string_def
  by (rule transact_transmits [OF _ surjective_pairing]) (auto intro: eval_command.create)

lemma invoke_transmits:
  assumes "nm \<in> {name, ''toString''} - set BLOCKED_METHODS" and "listed c nm (length args) cid mid"
  shows "transmits (eval_command c name) u (snd (invoke_method ob t cid mid args b u))"
  unfolding invoke_method_def
  by (rule transact_transmits [OF _ surjective_pairing]) (rule eval_command.invoke [OF _ _ _ assms], simp_all)

lemma eval_arg_maintains: "maintains (evaluating c name) (eval_arg api arg)"
  unfolding eval_arg_def by (auto intro!: maintains_bind calls_maintain create_transmits split: option.split)

section \<open>What is invoked was listed\<close>

lemma methods_listed:
  "yields (evaluating c name) (attempt (get_methods cid))
     (\<lambda>r. \<forall>mi \<in> set (or_default [] r). \<forall>n. match_sig n (mi_signature mi) = Some True \<longrightarrow> listed c (mi_name mi) n cid (mi_id mi))"
proof -
  have "listed c (mi_name mi) n cid (mi_id mi)"
    if "evaluating c name s" "get_methods cid (conn s) = (Inr ms, c')" "mi \<in> set ms"
      "match_sig n (mi_signature mi) = Some True" for s ms c' mi n
    using that transmits_mono [of "eval_command c name" c "conn s" "\<lambda>_. True"] unfolding listed_def evaluating_def by blast
  moreover have "maintains (evaluating c name) (attempt (get_methods cid))"
    by (intro looking_maintains keeps_intros asks_ops)
  ultimately show ?thesis
    by (auto simp: yields_def attempt_def ok_def or_default_def split: prod.splits sum.splits option.splits)
qed

abbreviation found_listed :: "'w connection \<Rightarrow> string \<Rightarrow> nat \<Rightarrow> (u64 \<times> u64) option \<Rightarrow> bool" where
  "found_listed c nm n r \<equiv> (\<forall>cid mid. r = Some (cid, mid) \<longrightarrow> listed c nm n cid mid)"

lemma class_listed: "yields (evaluating c name) (method_of_class n nm cid) (found_listed c nm n)"
  unfolding method_of_class_def
  by (rule yields_bind [OF methods_listed], rule yields_bind [OF yields_option])
    (auto dest: pick_method_found)

lemma classes_listed: "yields (evaluating c name) (method_of_classes n nm cids) (found_listed c nm n)"
  by (induction cids) (auto intro!: yields_bind [OF class_listed] split: option.split)

lemma search_listed: "yields (evaluating c name) (search_method n nm rt) (found_listed c nm n)"
  unfolding search_method_def
  by (auto intro!: yields_bind [OF class_listed] yields_bind [OF classes_listed] looking_steps class_listed
      split: option.split list.split)

lemma to_string_listed:
  assumes "\<forall>mi \<in> set ms. \<forall>n. match_sig n (mi_signature mi) = Some True \<longrightarrow> listed c (mi_name mi) n cid (mi_id mi)"
    and "find (\<lambda>m. mi_name m = ''toString'' \<and> starts_with (mi_signature m) ''()'') ms = Some mi"
  shows "listed c ''toString'' 0 cid (mi_id mi)"
proof -
  from assms(2) have "mi \<in> set ms" "mi_name mi = ''toString''" "match_sig 0 (mi_signature mi) = Some True"
    by (auto simp: find_Some_iff match_sig_def)
  with assms(1) show ?thesis by metis
qed

lemma message_maintains: "maintains (evaluating c name) (exception_message ft ex t rt cls)"
proof -
  have "maintains (evaluating c name) (attempt (invoke_method ex t rt (mi_id mi) [] True))"
    if "\<forall>mi \<in> set ms. \<forall>n. match_sig n (mi_signature mi) = Some True \<longrightarrow> listed c (mi_name mi) n rt (mi_id mi)"
      and "find (\<lambda>m. mi_name m = ''toString'' \<and> starts_with (mi_signature m) ''()'') ms = Some mi" for ms rt mi
    using to_string_listed [OF that]
    by (intro calls_maintain(2) invoke_transmits [of "''toString''"]) (simp_all add: BLOCKED_METHODS_def)
  then show ?thesis
    unfolding exception_message_def
    by (auto intro!: yields_bind [OF methods_listed] maintains_bind shown_maintain split: option.split)
qed

lemma invoke_maintains:
  assumes "listed c name (length args) cid mid" and "name \<notin> set BLOCKED_METHODS"
  shows "maintains (evaluating c name) (invoke_and_show ft ob t (cid, mid) args)"
proof -
  have "maintains (evaluating c name) (on_conn_err what (invoke_method ob t cid mid args True))" for what
    using assms by (intro calls_maintain(1) invoke_transmits) auto
  then show ?thesis
    unfolding invoke_and_show_def exception_class_def
    by (auto intro!: looking_steps message_maintains split: option.split)
qed

lemma run_found:
  assumes "length args = length raw" and "name \<notin> set BLOCKED_METHODS"
  shows "maintains (evaluating c name) (ebind (ecatch (search_method (length raw) name rt)) (\<lambda>found. case found of
      Inl _ \<Rightarrow> ereturn None
    | Inr None \<Rightarrow> efail (no_method (length raw) name)
    | Inr (Some cm) \<Rightarrow> ebind (invoke_and_show ft ob t cm args) (\<lambda>text. ereturn (Some text))))"
  using assms by (auto intro!: yields_bind [OF yields_catch [OF search_listed]] maintains_bind invoke_maintains
      split: sum.split option.split)

lemma eval_maintains:
  assumes "name \<notin> set BLOCKED_METHODS"
  shows "maintains (evaluating c name) (eval_on api ft thread ob name raw)"
proof -
  have "maintains (evaluating c name) (require_suspended t)" for t
    unfolding require_suspended_def by (auto intro!: looking_steps)
  then show ?thesis
    unfolding eval_on_def
    by (intro maintains_bind [OF shown_maintain(4)] maintains_bind [of _ "require_suspended t" for t]
        yields_bind [OF yields_map [OF eval_arg_maintains]] maintains_bind [OF asked_maintain(3)] run_found assms)
qed

section \<open>The safety of evaluations\<close>

text \<open>
  C27: \<open>debug.eval\<close> sends, besides commands that ask and the creation of strings, only invocations of
  methods that the JVM has listed for their class, under the name given (or \<open>toString\<close>, of an
  exception), a name not on the block list, and with as many parameters as arguments are passed. A call
  with a blocked name is refused and nothing is sent.
\<close>

theorem eval_invokes_listed:
  assumes "handle_eval api ft args m = (r, m')" and "get_current_session m = Some a" and "a < length (store m)"
    and "name = or_default ''toString'' (arg_str api args ''method'')"
    and "c = conn (store m ! a)"
  shows "transmits (eval_command c name) c (conn (store m' ! a))
    \<and> (name \<in> set BLOCKED_METHODS \<longrightarrow> m' = m \<and> (\<exists>e. r = Inl e))"
proof (cases "parse_object_id api args (missing ''object_id'')")
  case (Inl e)
  with assms(1,5) show ?thesis
    by (auto simp: handle_eval_def eresult_def ebind_def BLOCKED_METHODS_def)
next
  case (Inr oid)
  show ?thesis
  proof (cases "name \<in> set BLOCKED_METHODS")
    case True
    with Inr assms(1,4,5) show ?thesis
      by (auto simp: handle_eval_def eresult_def ebind_def efail_def Let_def BLOCKED_METHODS_def)
  next
    case False
    let ?run = "eval_on api ft (parse_thread_id api args) oid name
        (or_default [] (Option.bind (j_get api args ''args'') (j_array api)))"
    obtain q s where run: "?run (store m ! a) = (q, s)" by force
    with False Inr assms(1,2,4) have "m' = m\<lparr>store := (store m)[a := s]\<rparr>"
      by (auto simp: handle_eval_def eresult_def ebind_def with_session_defs Let_def)
    moreover have "transmits (eval_command c name) c (conn s)"
      using eval_maintains [OF False, of c] run assms(5) evaluating_start [of "store m ! a" name]
      unfolding yields_def evaluating_def by blast
    ultimately show ?thesis
      using False assms(3) by simp
  qed
qed

text \<open>A call that asks for \<open>exit\<close> on an object.\<close>

definition exit_api :: "string json_api" where
  "exit_api = demo_api\<lparr>j_get := (\<lambda>v n. if n = ''method'' then Some ''exit'' else if n = ''object_id'' then Some v else None)\<rparr>"

theorem eval_invokes_listed_witness:
  "snd (handle_eval exit_api no_floats ''0x1f'' (stub_manager (stub_session 1 []))) = stub_manager (stub_session 1 [])"
proof -
  let ?m = "stub_manager (stub_session 1 [])"
  obtain r m' where run: "handle_eval exit_api no_floats ''0x1f'' ?m = (r, m')" by force
  have "''exit'' = or_default ''toString'' (arg_str exit_api ''0x1f'' ''method'')"
    by (simp add: arg_str_def exit_api_def demo_api_def or_default_def)
  from eval_invokes_listed [OF run _ _ this refl] have "m' = ?m"
    by (simp add: BLOCKED_METHODS_def)
  with run show ?thesis by simp
qed

end
