(* ===== verification/SessionClaims.thy ===== *)
theory SessionClaims
  imports McpClaims EvalSafety
begin

text \<open>
  The properties of a session over time: attaching, the listener task and the tools that wait for
  what it stores, under every schedule of the two.
\<close>

section \<open>Attaching\<close>

text \<open>
  C22: Without \<open>allow_remote\<close> a call of \<open>debug.attach\<close> depends on the network only through the three
  local names: two networks that agree on them give the same result and the same server.
\<close>

theorem attach_stays_local:
  assumes "arg_bool api args ''allow_remote'' \<noteq> Some True"
    and "\<forall>h \<in> set local_hosts. \<forall>p t. net h p t = net' h p t"
  shows "handle_attach api net ts args m = handle_attach api net' ts args m"
proof -
  have "or_default False (arg_bool api args ''allow_remote'') = False"
    using assms(1) by (cases "arg_bool api args ''allow_remote''") (auto simp: or_default_def)
  with assms(2) show ?thesis
    by (simp add: handle_attach_def connect_session_def Let_def)
qed

text \<open>A call with a remote host, on a network where dialling it would succeed.\<close>

definition remote_api :: "string json_api" where
  "remote_api = demo_api\<lparr>j_get := (\<lambda>v n. if n = ''host'' then Some v else None)\<rparr>"

theorem attach_stays_local_witness:
  "handle_attach remote_api (\<lambda>h p t. if h = ''example.org'' then Inr (stub_conn 1 []) else Inl ConnectionClosed) 0
      ''example.org'' new_manager
    = handle_attach remote_api (\<lambda>h p t. Inl ConnectionClosed) 0 ''example.org'' new_manager"
  by (rule attach_stays_local) (simp_all add: arg_bool_def remote_api_def local_hosts_def)

section \<open>The listener\<close>

text \<open>An event that no trace collects reaches \<open>handle_event\<close>.\<close>

lemma untraced_event:
  assumes "get_current_session m = Some a" and "a < length (store m)" and "trace_state (store m ! a) = None"
  shows "listener_body ft a (now, later, Some es) m
    = (fst (session_event ft es (store m ! a)),
       m\<lparr>store := (store m)[a := snd (session_event ft es (store m ! a))]\<rparr>)"
proof -
  have "collect_trace_events now later es m = (False, m)"
    using assms by (simp add: collect_trace_events_def collect_trace_def)
  with handle_event_own [OF assms(1,2)] show ?thesis
    by (simp add: listener_body_def)
qed

text \<open>At a conditional breakpoint the evaluation decides.\<close>

lemma conditional_stop:
  assumes "get_current_session m = Some a" and "a < length (store m)" and "trace_state (store m ! a) = None"
    and "events es = [\<lparr>kind = k, request_id = rid, details = Breakpoint t l\<rparr>]"
    and "table_inv (breakpoints (store m ! a))" and "map_of (breakpoints (store m ! a)) (bp_key rid) = Some bp"
    and "condition bp = Some text" and "parse_condition text = Some (var, op, expected)"
    and "eval_condition ft t var op expected (conn (store m ! a)) = (skip, c)"
  shows "listener_body ft a (now, later, Some es) m
    = (True, m\<lparr>store := (store m)[a :=
        (if skip then (store m ! a)\<lparr>conn := snd (resume_all c)\<rparr>
         else (store m ! a)\<lparr>conn := c, last_event := Some es, last_event_seq := last_event_seq (store m ! a) + 1\<rparr>)]\<rparr>)"
proof -
  let ?s = "store m ! a"
  have "step_to_clear es ?s = None"
    by (simp add: step_to_clear_def assms(4) is_step_of_def split: option.split)
  moreover have "condition_of es ?s = Some (t, text)"
    using assms(5-7) by (simp add: condition_of_def assms(4) table_find)
  moreover have "\<not> vm_death_in es"
    by (simp add: vm_death_in_def assms(4))
  ultimately have "session_event ft es ?s
      = (True, if skip then ?s\<lparr>conn := snd (resume_all c)\<rparr>
           else ?s\<lparr>conn := c, last_event := Some es, last_event_seq := last_event_seq ?s + 1\<rparr>)"
    using assms(8,9)
    by (simp add: session_event_def Let_def skip_stop_def on_conn_def store_event_def split: prod.split)
  with untraced_event [OF assms(1-3)] show ?thesis by simp
qed

text \<open>
  C6: With no trace armed, at a breakpoint whose condition compares an \<open>int\<close> variable in scope with an
  integer, the only event of its set, on a JVM that answers the three requests of the evaluation, the listener resumes the JVM exactly when the
  comparison is false, and then what the tools see of the session is as before; when it is true the
  event becomes the last event, with the next sequence number. Either way it goes on listening.
\<close>

theorem conditional_stop_decided:
  assumes "get_current_session m = Some a" and "a < length (store m)" and "trace_state (store m ! a) = None"
    and "events es = [\<lparr>kind = k, request_id = rid, details = Breakpoint t l\<rparr>]"
    and "table_inv (breakpoints (store m ! a))" and "map_of (breakpoints (store m ! a)) (bp_key rid) = Some bp"
    and "condition bp = Some text" and "parse_condition text = Some (name, op, show_int j)"
    and "c = conn (store m ! a)"
    and "loop_send c (request_packet c 11 6 (put_u64 t @ put_u32 0 @ put_u32 1)) (peer c)
      = (Inr \<lparr>reply_id = i1, error_code = 0, reply_data = put_counted put_frame [f]\<rparr>, w1)"
    and "c1 = after_send c w1"
    and "loop_send c1 (request_packet c1 6 2 (ask_variables f)) w1
      = (Inr \<lparr>reply_id = i2, error_code = 0, reply_data = put_u32 n @ put_counted put_variable vt\<rparr>, w2)"
    and "length vt < 2 ^ 31" and "\<forall>v \<in> set vt. variable_ok v"
    and "find_variable (loc_index (fr_location f)) name vt = Some v"
    and "c2 = after_send c1 w2"
    and "loop_send c2 (request_packet c2 16 1 (ask_values t f v)) w2
      = (Inr \<lparr>reply_id = i3, error_code = 0, reply_data = put_counted put_value [\<lparr>tag = 73, vdata = VInt x\<rparr>]\<rparr>, w3)"
    and "op \<in> set condition_ops" and "\<bar>j\<bar> < 2 ^ 53"
  shows "listener_body ft a (now, later, Some es) m
    = (True, m\<lparr>store := (store m)[a :=
        (if \<not> int_cmp op (sint x) j then (store m ! a)\<lparr>conn := snd (resume_all (after_send c2 w3))\<rparr>
         else (store m ! a)\<lparr>conn := after_send c2 w3, last_event := Some es,
                last_event_seq := last_event_seq (store m ! a) + 1\<rparr>)]\<rparr>)"
proof -
  have "eval_condition ft t name op (show_int j) (conn (store m ! a)) = (\<not> int_cmp op (sint x) j, after_send c2 w3)"
    using int_condition_decides [OF assms(10-19), of ft] assms(9) by simp
  from conditional_stop [OF assms(1-8) this] show ?thesis by simp
qed

text \<open>A breakpoint of request 4 with the condition \<open>i>9\<close>, on the JVM whose \<open>i\<close> is 7.\<close>

definition stopped_manager :: "unit session_manager" where
  "stopped_manager = \<lparr>sessions = [(''s'', 0)], current = Some ''s'', store =
     [(new_session demo_jvm)\<lparr>breakpoints := [(bp_key 4, new_breakpoint ''A'' 7 (Some ''i>9'') ''m'' 4)]\<rparr>],
     uuid_counter = 2, aborted = []\<rparr>"

definition stop_event :: event_set where
  "stop_event = \<lparr>suspend_policy = 2, events = [\<lparr>kind = EK_BREAKPOINT, request_id = 4, details = Breakpoint 5 demo_location\<rparr>]\<rparr>"

theorem conditional_stop_decided_witness:
  "fst (listener_body no_floats 0 (0, 0, Some stop_event) stopped_manager)
    \<and> last_event (store (snd (listener_body no_floats 0 (0, 0, Some stop_event) stopped_manager)) ! 0) = None"
proof -
  have s: "utf8_scan 0 (bytes_of_str ''i'') = Inr [105]" "utf8_scan 0 (bytes_of_str ''I'') = Inr [73]"
    by code_simp+
  have ok: "variable_ok demo_variable"
    by (simp add: variable_ok_def demo_variable_def string_ok_def valid_str_def from_utf8_def s)
  have found: "find_variable (loc_index (fr_location demo_frame_7)) ''i'' [demo_variable] = Some demo_variable"
    by (simp add: find_variable_def in_scope_def demo_variable_def demo_frame_7_def demo_location_def)
  have "show_int 9 = ''9''" "parse_condition ''i>9'' = Some (''i'', ''>'', ''9'')"
    by code_simp+
  then have cond: "parse_condition ''i>9'' = Some (''i'', ''>'', show_int 9)" by simp
  have keyed: "table_inv (breakpoints (store stopped_manager ! 0))"
    "map_of (breakpoints (store stopped_manager ! 0)) (bp_key 4) = Some (new_breakpoint ''A'' 7 (Some ''i>9'') ''m'' 4)"
    by (simp_all add: stopped_manager_def table_inv_def new_breakpoint_def)
  note here = conditional_stop_decided [of stopped_manager 0 stop_event EK_BREAKPOINT 4 5 demo_location
      "new_breakpoint ''A'' 7 (Some ''i>9'') ''m'' 4" "''i>9''" "''i''" "''>''" 9 demo_jvm 1 demo_frame_7 "()"
      "after_send demo_jvm ()" 2 0 "[demo_variable]" "()" demo_variable "after_send (after_send demo_jvm ()) ()"
      3 7 "()" no_floats 0 0]
  from here keyed cond ok found show ?thesis
    by (simp add: stopped_manager_def stop_event_def get_current_session_def new_session_def new_breakpoint_def
        demo_jvm_def request_packet_def new_command_def after_send_def condition_ops_def int_cmp_def)
qed

text \<open>
  C40: While a trace is armed an event set with an event of the trace is handled as if it held the
  trace's events only: whatever else is in the set, a breakpoint included, makes no difference. The
  listener goes on, resumes the JVM if the set suspended anything, and of the session only the trace
  and the connection change: the last event stays, so no tool is shown the others.
\<close>

theorem trace_swallows_breakpoint:
  assumes "get_current_session m = Some a" and "a < length (store m)"
    and "trace_state (store m ! a) = Some tr" and "active tr"
    and "e \<in> set (events es)" and "is_trace_event tr e"
  shows "listener_body ft a (now, later, Some es) m
      = listener_body ft a (now, later, Some (es\<lparr>events := filter (is_trace_event tr) (events es)\<rparr>)) m
    \<and> (\<exists>tr'. listener_body ft a (now, later, Some es) m
      = (True, m\<lparr>store := (store m)[a := (store m ! a)\<lparr>trace_state := Some tr',
           conn := (if 0 < suspend_policy es then snd (resume_all (conn (store m ! a))) else conn (store m ! a))\<rparr>]\<rparr>))"
proof -
  let ?tr = "trace_loop now (raw_events tr es) tr"
  let ?tr' = "if 60 < (later - start_time ?tr) div 10 ^ 9 then ?tr\<lparr>active := False\<rparr> else ?tr"
  let ?m = "m\<lparr>store := (store m)[a := (store m ! a)\<lparr>trace_state := Some ?tr'\<rparr>]\<rparr>"
  have one: "collect_trace_events now later es' m = (True, ?m)"
    if "raw_events tr es' = raw_events tr es" "e \<in> set (events es')" for es'
    using assms that by (auto simp: collect_trace_events_def collect_trace_def Let_def list_ex_iff)
  have raw: "raw_events tr (es\<lparr>events := filter (is_trace_event tr) (events es)\<rparr>) = raw_events tr es"
    by (simp add: raw_events_def)
  from one [OF refl assms(5)] one [OF raw] assms(5,6) have same: "listener_body ft a (now, later, Some es) m
      = listener_body ft a (now, later, Some (es\<lparr>events := filter (is_trace_event tr) (events es)\<rparr>)) m"
    by (simp add: listener_body_def)
  have "listener_body ft a (now, later, Some es) m
      = (True, m\<lparr>store := (store m)[a := (store m ! a)\<lparr>trace_state := Some ?tr',
           conn := (if 0 < suspend_policy es then snd (resume_all (conn (store m ! a))) else conn (store m ! a))\<rparr>]\<rparr>)"
    using one [OF refl assms(5)] assms(2) by (auto simp: listener_body_def on_own_def split: prod.split)
  with same show ?thesis by blast
qed

theorem trace_swallows_breakpoint_witness:
  "\<exists>s m'. trace_state s = Some (new_trace 31 32 False False 0)
    \<and> listener_body no_floats 0 (1, 2, Some demo_mixed) (stub_manager s) = (True, m')
    \<and> last_event (store m' ! 0) = None
    \<and> Breakpoint 1 demo_location \<in> details ` set (events demo_mixed)"
proof -
  let ?s = "(stub_session 1 [])\<lparr>trace_state := Some (new_trace 31 32 False False 0)\<rparr>"
  let ?e = "\<lparr>kind = EK_METHOD_ENTRY, request_id = 31, details = MethodEntry 1 demo_location\<rparr>"
  have "\<exists>tr'. listener_body no_floats 0 (1, 2, Some demo_mixed) (stub_manager ?s)
      = (True, (stub_manager ?s)\<lparr>store := (store (stub_manager ?s))[0 := (store (stub_manager ?s) ! 0)\<lparr>trace_state := Some tr',
          conn := (if 0 < suspend_policy demo_mixed then snd (resume_all (conn (store (stub_manager ?s) ! 0)))
            else conn (store (stub_manager ?s) ! 0))\<rparr>]\<rparr>)"
    by (rule trace_swallows_breakpoint [where e = ?e and tr = "new_trace 31 32 False False 0", THEN conjunct2])
      (simp_all add: new_trace_def is_trace_event_def demo_mixed_def)
  then have "\<exists>m'. listener_body no_floats 0 (1, 2, Some demo_mixed) (stub_manager ?s) = (True, m')
      \<and> last_event (store m' ! 0) = None"
    by (auto simp: stub_session_def new_session_def)
  then show ?thesis
    by (intro exI [of _ ?s]) (auto simp: demo_mixed_def)
qed

section \<open>The end of a session\<close>

lemma dead_after:
  assumes "get_current_session m = Some a" and "vm_dead (store m ! a)"
    and "as_call sv (or_default (empty_object sv) params) = Inr p"
    and "call_name p \<noteq> ''debug.attach''" and "call_name p \<noteq> ''debug.disconnect''"
  shows "handle_call_tool sv ft w params m
    = (Some (Inl (rpc_error INTERNAL_ERROR (''Session dead: ''
         @ or_default ''unknown reason'' (disconnect_reason (store m ! a)) @ ''. Use debug.attach to reconnect.''))), m)"
  using assms by (simp add: handle_call_tool_def dead_session_def)

text \<open>
  C14: When the JVM reports its death, or the connection ends, and no trace is armed, the listener task
  ends, and from then on every tool call but attach and disconnect is refused with the reason and
  changes nothing.
\<close>

theorem death_ends_session:
  assumes "get_current_session m = Some a" and "a < length (store m)" and "trace_state (store m ! a) = None"
    and "recv = None \<or> recv = Some es \<and> events es = [\<lparr>kind = k, request_id = 0, details = VMDeath\<rparr>]"
    and "listener_body ft a (now, later, recv) m = (go, m')"
    and "as_call sv (or_default (empty_object sv) params) = Inr p"
    and "call_name p \<noteq> ''debug.attach''" and "call_name p \<noteq> ''debug.disconnect''"
  shows "\<not> go \<and> handle_call_tool sv ft' w params m'
    = (Some (Inl (rpc_error INTERNAL_ERROR (''Session dead: ''
         @ (if recv = None then ''JDWP connection closed'' else ''JVM terminated (VM_DEATH)'')
         @ ''. Use debug.attach to reconnect.''))), m')"
proof (cases "recv = None")
  case True
  with assms(1,5) have go: "\<not> go" and m': "m' = on_session a connection_lost m"
    by (simp_all add: listener_body_def)
  with assms(1,2) have "get_current_session m' = Some a" "vm_dead (store m' ! a)"
    "disconnect_reason (store m' ! a) = Some ''JDWP connection closed''"
    by (simp_all add: on_session_def connection_lost_def)
  from dead_after [OF this(1,2) assms(6-8)] this(3) go True show ?thesis
    by (simp add: or_default_def)
next
  case False
  with assms(4) have r: "recv = Some es" "events es = [\<lparr>kind = k, request_id = 0, details = VMDeath\<rparr>]" by auto
  let ?s = "store m ! a"
  have "step_to_clear es ?s = None" "condition_of es ?s = None" "vm_death_in es"
    by (simp_all add: step_to_clear_def r(2) is_step_of_def condition_of_def vm_death_in_def split: option.split)
  then have "session_event ft es ?s = (False, store_event es ?s)"
    by (simp add: session_event_def skip_stop_def)
  with untraced_event [OF assms(1-3)] assms(5) r(1)
  have go: "\<not> go" and m': "m' = m\<lparr>store := (store m)[a := store_event es ?s]\<rparr>"
    by simp_all
  with assms(1,2) \<open>vm_death_in es\<close> have "get_current_session m' = Some a" "vm_dead (store m' ! a)"
    "disconnect_reason (store m' ! a) = Some ''JVM terminated (VM_DEATH)''"
    by (simp_all add: store_event_def)
  from dead_after [OF this(1,2) assms(6-8)] this(3) go r(1) show ?thesis
    by (simp add: or_default_def)
qed

theorem death_ends_session_witness:
  "\<exists>m'. listener_body no_floats 0 (0, 0, None) (stub_manager (stub_session 1 [])) = (False, m')
    \<and> fst (handle_call_tool text_serde no_floats calm (Some ''debug.pause'') m')
      = Some (Inl (rpc_error INTERNAL_ERROR ''Session dead: JDWP connection closed. Use debug.attach to reconnect.''))"
proof -
  let ?m = "stub_manager (stub_session 1 [])"
  obtain go m' where run: "listener_body no_floats 0 (0, 0, None) ?m = (go, m')" by force
  have trace: "trace_state (store ?m ! 0) = None"
    by (simp add: stub_session_def new_session_def)
  have call: "as_call text_serde (or_default (empty_object text_serde) (Some ''debug.pause''))
      = Inr \<lparr>call_name = ''debug.pause'', call_arguments = ''debug.pause''\<rparr>"
    by (simp add: text_serde_def or_default_def)
  from death_ends_session [OF _ _ trace _ run call, where ft' = no_floats and w = calm] run show ?thesis by simp
qed

section \<open>Waiting for an event\<close>

lemma run_wait_finished: "place st = Finished r \<Longrightarrow> run_wait ft chk as st = (r, shared st)"
proof (cases as)
  case Nil
  assume "place st = Finished r"
  then have "poll_wait ft chk st = st"
    by (subst poll_wait.simps) (simp add: waiter_action_def)
  with Nil \<open>place st = Finished r\<close> show ?thesis by simp
qed simp

lemma stored_finished [simp]: "place st = Finished r \<Longrightarrow> stored ft chk as st = []"
  by (cases as) simp_all

text \<open>A waiter that has not finished, after the events \<open>es\<close> were stored since it began at \<open>n\<close>.\<close>

definition waiting_since :: "u64 \<Rightarrow> event_set list \<Rightarrow> ('w, event_set option) waiter \<Rightarrow> bool" where
  "waiting_since n es st \<longleftrightarrow> event_wait.blocked_inv st \<and> (\<forall>r. place st \<noteq> Finished r) \<and> seen st = n
     \<and> last_event_seq (shared st) = n + of_nat (length es)
     \<and> (es \<noteq> [] \<longrightarrow> last_event (shared st) = Some (last es))"

lemma seq_bound: "unat (n :: u64) < 2 ^ 64"
  using unsigned_less [of n, where ?'a = nat] by simp

lemma later_seq: "unat n + k < 2 ^ 64 \<Longrightarrow> n < n + of_nat k \<longleftrightarrow> 0 < k" for n :: u64
  by (simp add: word_less_nat_alt unat_word_ariths unat_of_nat)

lemma waiting_check:
  assumes "waiting_since n es st" and "unat n + length es < 2 ^ 64"
  shows "event_check (seen st) (shared st) = (if es = [] then None else Some (Some (last es)), n)"
  using assms later_seq [of n "length es"] by (auto simp: waiting_since_def event_check_def)

lemma storing_cases: "storing LPhase p = [] \<or> (\<exists>e. storing LPhase p = [e])"
  by (cases p) auto

lemma waiting_phase:
  assumes "waiting_since n es st" and "\<not> at_rest (listener st)"
  shows "waiting_since n (es @ storing LPhase (listener st)) (wait_phase ft st)"
proof -
  have "event_wait.blocked_inv (wait_phase ft st)"
    by (rule event_wait.blocked_inv_phase) (use assms(1) in \<open>simp add: waiting_since_def\<close>)
  with assms(1) wait_phase_stores [of ft st] storing_cases [of "listener st"] show ?thesis
    by (auto simp: waiting_since_def)
qed

lemma waiting_act:
  assumes "waiting_since n es st" and "unat n + length es < 2 ^ 64" and "a \<noteq> WExpire"
    and "wait_act ft event_check a st = Some st'"
  shows "waiting_since n (es @ storing a (listener st)) st' \<or> es \<noteq> [] \<and> place st' = Finished (Some (Some (last es)))"
proof -
  have b: "event_wait.blocked_inv st'"
    using event_wait.blocked_inv_act [OF _ assms(4)] assms(1) by (simp add: waiting_since_def)
  consider "a = LPhase" | "a = WCheck" | "a \<noteq> LPhase" "a \<noteq> WCheck" by blast
  then show ?thesis
  proof cases
    case 1
    with assms(1,4) waiting_phase [of n es st ft] show ?thesis by (auto split: if_splits)
  next
    case 2
    with assms(4) waiting_check [OF assms(1,2)] assms(1) b show ?thesis
      by (auto simp: waiting_since_def check_session_def split: wait_place.splits if_splits)
  next
    case 3
    with assms(1,3,4) b show ?thesis
      by (cases a) (auto simp: waiting_since_def split: wait_place.splits if_splits)
  qed
qed

text \<open>One step of a wait: passed over, or taken with what it stores.\<close>

lemma run_wait_step:
  assumes "waiting_since n es st"
  shows "run_wait ft event_check (a # as) st
      = run_wait ft event_check as (case wait_act ft event_check a st of None \<Rightarrow> st | Some st' \<Rightarrow> st')"
    and "stored ft event_check (a # as) st = (case wait_act ft event_check a st of
        None \<Rightarrow> stored ft event_check as st
      | Some st' \<Rightarrow> storing a (listener st) @ stored ft event_check as st')"
  using assms by (auto simp: waiting_since_def split: wait_place.split)

lemma run_wait_event:
  assumes "waiting_since n es st" and "unat n + length es + length (stored ft event_check as st) < 2 ^ 64"
    and "WExpire \<notin> set as" and "es @ stored ft event_check as st \<noteq> []"
  shows "\<exists>e \<in> set (es @ stored ft event_check as st). fst (run_wait ft event_check as st) = Some (Some e)"
  using assms
proof (induction as arbitrary: es st)
  case Nil
  then have "event_check (seen st) (shared st) = (Some (Some (last es)), n)"
    using waiting_check [of n es st] by simp
  with Nil.prems(1) event_wait.poll_reports [of st]
  have "place (poll_wait ft event_check st) = Finished (Some (Some (last es)))"
    by (auto simp: waiting_since_def)
  with Nil.prems(4) show ?case by (auto intro: last_in_set)
next
  case (Cons a as)
  note step = run_wait_step [OF Cons.prems(1), of ft a as]
  have n: "unat n + length es < 2 ^ 64" "a \<noteq> WExpire" using Cons.prems(2,3) by auto
  show ?case
  proof (cases "wait_act ft event_check a st")
    case None
    with step Cons.IH [OF Cons.prems(1)] Cons.prems(2-4) show ?thesis by simp
  next
    case (Some st')
    from waiting_act [OF Cons.prems(1) n Some] show ?thesis
    proof
      assume "waiting_since n (es @ storing a (listener st)) st'"
      from Cons.IH [OF this] Cons.prems(2-4) step Some show ?thesis by simp
    next
      assume "es \<noteq> [] \<and> place st' = Finished (Some (Some (last es)))"
      with step Some run_wait_finished [of st' _ ft event_check as] show ?thesis
        by (auto intro: last_in_set)
    qed
  qed
qed

lemma waiting_start: "waiting_since (last_event_seq s) [] (start_wait p s)"
  using event_wait.blocked_inv_start [of p s] by (simp add: waiting_since_def start_wait_def)

text \<open>
  C9: If the listener stores an event while \<open>debug.wait_for_event\<close> waits and the timer has not fired,
  the tool reports an event stored during the wait, wherever the listener was when the wait began and
  however its phases and the tool's steps interleave: no notification is missed.
\<close>

theorem wait_reports_event:
  assumes "es = stored ft event_check (snd sch) (start_wait (fst sch) s)"
    and "WExpire \<notin> set (snd sch)" and "es \<noteq> []" and "unat (last_event_seq s) + length es < 2 ^ 64"
  shows "\<exists>e \<in> set es. fst (wait_event ft sch timeout_ms s) = Inr (event_report e)"
  using run_wait_event [OF waiting_start [of s "fst sch"], of ft "snd sch"] assms
  by (auto simp: wait_event_def event_wait_result_def split: prod.split)

text \<open>
  The listener receives a breakpoint while the tool waits; the session has no condition for it, so it
  is stored after four phases.
\<close>

definition demo_wait :: wait_schedule where
  "demo_wait = (Receiving, [WEnable, WCheck, LReceive (0, 0, Some demo_mixed), LPhase, LPhase, WWake, LPhase, LPhase, LPhase])"

theorem wait_reports_event_witness:
  "fst (wait_event no_floats demo_wait 1000 (stub_session 1 [])) = Inr (event_report demo_mixed)"
proof -
  have "stored no_floats event_check (snd demo_wait) (start_wait (fst demo_wait) (stub_session 1 [])) = [demo_mixed]"
    by (simp add: demo_wait_def start_wait_def check_session_def event_check_def received_def at_rest_def
        wait_phase_def notify_waiters_def collect_trace_def step_to_clear_def condition_of_def skip_stop_def
        demo_mixed_def stub_session_def new_session_def)
  from wait_reports_event [OF this [symmetric], of 1000] show ?thesis
    by (simp add: demo_wait_def stub_session_def new_session_def)
qed

lemma waiting_poll: "waiting_since n [] st \<Longrightarrow> waiting_since n [] (poll_wait ft event_check st)"
proof (induction "poll_rank st" arbitrary: st rule: less_induct)
  case less
  show ?case
  proof (cases "Option.bind (waiter_action st) (\<lambda>a. wait_act ft event_check a st)")
    case None
    then have "poll_wait ft event_check st = st"
      by (subst poll_wait.simps) simp
    with less.prems show ?thesis by simp
  next
    case (Some st')
    then obtain a where a: "waiter_action st = Some a" "wait_act ft event_check a st = Some st'"
      by (auto simp: Option.bind_eq_Some_conv)
    then have "a \<noteq> WExpire" "storing a (listener st) = []"
      by (auto simp: waiter_action_def split: wait_place.splits if_splits)
    with waiting_act [OF less.prems _ _ a(2)] seq_bound [of n] have "waiting_since n [] st'" by simp
    from less.hyps [OF waiter_action_ranks [OF a] this] show ?thesis
      by (subst poll_wait.simps) (simp add: Some)
  qed
qed

lemma run_wait_nothing:
  assumes "waiting_since n [] st" and "stored ft event_check as st = []"
  shows "fst (run_wait ft event_check as st) = None"
  using assms
proof (induction as arbitrary: st)
  case Nil
  with waiting_poll [of n st ft] show ?case
    by (auto simp: waiting_since_def split: wait_place.split)
next
  case (Cons a as)
  note step = run_wait_step [OF Cons.prems(1), of ft a as]
  show ?case
  proof (cases "wait_act ft event_check a st")
    case None
    with step Cons.IH [OF Cons.prems(1)] Cons.prems(2) show ?thesis by simp
  next
    case (Some st')
    with step Cons.prems(2) have none: "storing a (listener st) = []" "stored ft event_check as st' = []" by simp_all
    show ?thesis
    proof (cases "a = WExpire")
      case True
      with Some have "place st' = Finished None"
        by (auto split: wait_place.splits if_splits)
      with step Some run_wait_finished [of st' None ft event_check as] show ?thesis by simp
    next
      case False
      with waiting_act [OF Cons.prems(1) _ _ Some] none seq_bound [of n] have "waiting_since n [] st'" by simp
      from Cons.IH [OF this none(2)] step Some show ?thesis by simp
    qed
  qed
qed

text \<open>
  C37: When no event is stored the tool reports a timeout under every schedule, one in which the
  connection was lost included: the waiter is woken, finds no new event and goes back to waiting.
\<close>

theorem lost_connection_waits_on:
  assumes "stored ft event_check (snd sch) (start_wait (fst sch) s) = []"
  shows "fst (wait_event ft sch timeout_ms s) = Inl (''timeout after '' @ show_unsigned timeout_ms @ ''ms'')"
  using run_wait_nothing [OF waiting_start [of s "fst sch"] assms]
  by (auto simp: wait_event_def event_wait_result_def split: prod.split)

definition lost_wait :: wait_schedule where
  "lost_wait = (Receiving, [WEnable, WCheck, LReceive (0, 0, None), LPhase, WWake, WEnable, WCheck, WExpire])"

lemmas lost_wait_steps = lost_wait_def start_wait_def check_session_def event_check_def received_def at_rest_def
  wait_phase_def notify_waiters_def connection_lost_def stub_session_def new_session_def

theorem lost_connection_waits_on_witness:
  "fst (wait_event no_floats lost_wait 1000 (stub_session 1 []))
     = Inl (''timeout after '' @ show_unsigned (1000 :: u64) @ ''ms'')
   \<and> vm_dead (snd (wait_event no_floats lost_wait 1000 (stub_session 1 [])))"
proof
  show "fst (wait_event no_floats lost_wait 1000 (stub_session 1 []))
     = Inl (''timeout after '' @ show_unsigned (1000 :: u64) @ ''ms'')"
    by (rule lost_connection_waits_on) (simp add: lost_wait_steps)
  show "vm_dead (snd (wait_event no_floats lost_wait 1000 (stub_session 1 [])))"
    by (simp add: wait_event_def lost_wait_steps poll_wait.simps waiter_action_def split: prod.split)
qed

text \<open>
  C19: Every poll of a waiting tool comes to an end, whatever the listener did before: the tool has
  finished, or it sleeps unnotified, having looked at the session as it now is and found nothing.
\<close>

theorem polls_settle:
  assumes "wait_acts ft event_check as (start_wait p s) = Some st"
    and "wait_acts ft (class_check rid) bs (start_wait p s) = Some st'"
  shows "((\<exists>x. place (poll_wait ft event_check st) = Finished x)
      \<or> place (poll_wait ft event_check st) = Awaiting \<and> \<not> woken (poll_wait ft event_check st)
        \<and> fst (event_check (seen (poll_wait ft event_check st)) (shared st)) = None)
    \<and> ((\<exists>x. place (poll_wait ft (class_check rid) st') = Finished x)
      \<or> place (poll_wait ft (class_check rid) st') = Awaiting \<and> \<not> woken (poll_wait ft (class_check rid) st')
        \<and> fst (class_check rid (seen (poll_wait ft (class_check rid) st')) (shared st')) = None)"
  using event_wait.poll_settles [OF event_wait.blocked_inv_acts [OF assms(1) event_wait.blocked_inv_start], of ft]
    class_wait.poll_settles [OF class_wait.blocked_inv_acts [OF assms(2) class_wait.blocked_inv_start], of ft]
  by auto

theorem polls_settle_witness:
  "\<exists>st. wait_acts no_floats event_check [WEnable, WCheck, LPhase] (start_wait (Storing demo_mixed) (stub_session 1 [])) = Some st
    \<and> ((\<exists>x. place (poll_wait no_floats event_check st) = Finished x) \<or> \<not> woken (poll_wait no_floats event_check st))"
proof -
  obtain st where st: "wait_acts no_floats event_check [WEnable, WCheck, LPhase]
      (start_wait (Storing demo_mixed) (stub_session 1 [])) = Some st"
    by (simp add: start_wait_def check_session_def event_check_def at_rest_def)
  have "wait_acts no_floats (class_check 1) [] (start_wait (Storing demo_mixed) (stub_session 1 []))
      = Some (start_wait (Storing demo_mixed) (stub_session 1 []))"
    by simp
  from polls_settle [OF st this] st show ?thesis by blast
qed

section \<open>Waiting for a class\<close>

text \<open>
  C18: \<open>debug.wait_for_class\<close> leaves no request of its own behind, on a JVM that carries out the
  clearing: once the class was found loaded or the request for it made, then whatever comes of the
  wait, and whatever the listener does meanwhile on the same connection, the JVM has afterwards the
  requests armed that it had before, except for the step that was active or being cleared when the
  tool was called: the listener may have cleared that one.
\<close>

theorem class_wait_leaves_nothing:
  assumes "get_current_session m = Some a" and "a < length (store m)"
    and "jvm_contract (loop_send (conn (store m ! a))) armed" and "clears_succeed (loop_send (conn (store m ! a)))"
    and "arg_str api args ''class_pattern'' = Some pattern"
    and "begin_class_wait pattern (store m ! a) = (Inr b, s1)"
    and "handle_wait_for_class api ft sch args m = (r, m')"
    and "before = armed (peer (conn (store m ! a)))" and "after = armed (peer (conn (store m' ! a)))"
  shows "after \<subseteq> before \<and> before - after \<subseteq> {EK_SINGLE_STEP} \<times> pending_steps (fst sch) (store m ! a)"
proof -
  obtain q s where run: "wait_class ft sch (wait_timeout api args) pattern (store m ! a) = (q, s)" by force
  with assms(1,5,7) have "m' = m\<lparr>store := (store m)[a := s]\<rparr>"
    by (simp add: handle_wait_for_class_def with_session_defs)
  with wait_class_armed [OF assms(3,4,6) run] assms(2,8,9) show ?thesis by simp
qed

definition class_api :: "string json_api" where
  "class_api = demo_api\<lparr>j_get := (\<lambda>v n. if n = ''class_pattern'' then Some v else None)\<rparr>"

text \<open>A JVM that has not loaded the class; it reports it while the tool waits.\<close>

definition unloaded_jvm ::
    "command_packet \<Rightarrow> (u8 \<times> i32) list \<Rightarrow> reply_packet jdwp_result \<times> (u8 \<times> i32) list" where
  "unloaded_jvm p w = (if command_set p = 1 \<and> command p \<in> {2, 3} then (reply_with (cmd_id p) 0 (put_u32 0), w)
     else stub_jvm p w)"

definition unloaded_conn :: "u32 \<Rightarrow> (u8 \<times> i32) list \<Rightarrow> (u8 \<times> i32) list connection" where
  "unloaded_conn i w = \<lparr>loop_send = unloaded_jvm, id_counter = i, peer = w\<rparr>"

definition prepared_event :: event_set where
  "prepared_event = \<lparr>suspend_policy = 2, events =
     [\<lparr>kind = EK_CLASS_PREPARE, request_id = 1, details = ClassPrepare 5 2 ''LA;'' 7\<rparr>]\<rparr>"

definition class_wait :: wait_schedule where
  "class_wait = (Receiving, [WEnable, WCheck, LReceive (0, 0, Some prepared_event), LPhase, LPhase, LPhase, LPhase, LPhase])"

lemma unloaded_contract: "jvm_contract unloaded_jvm set" "clears_succeed unloaded_jvm"
  using stub_contract stub_clears
  by (simp_all add: jvm_contract_def clears_succeed_def unloaded_jvm_def CS_EVENT_REQUEST_def)
    (simp add: event_request_effect_def CS_EVENT_REQUEST_def)

lemma unloaded_calls:
  "classes_by_signature sig (unloaded_conn i w) = (Inr [], unloaded_conn (i + 1) w)"
  "all_classes (unloaded_conn i w) = (Inr [], unloaded_conn (i + 1) w)"
proof -
  let ?c = "unloaded_conn i w"
  have send: "loop_send ?c (request_packet ?c 1 cm body) (peer ?c)
      = (Inr \<lparr>reply_id = i, error_code = 0, reply_data = put_u32 0\<rparr>, w)" if "cm \<in> {2, 3}" for cm body
    using that by (simp add: unloaded_jvm_def reply_with_def request_packet_def new_command_def unloaded_conn_def)
  have empty: "prun (read_counted p) (put_u32 0) = Inr []" for p :: "(jdwp_error, class_info) parser"
    by (simp add: read_counted_def parser_defs loop_count_def)
  have "after_send ?c w = unloaded_conn (i + 1) w"
    by (simp add: after_send_def unloaded_conn_def)
  then have asked: "transact 1 cm body (read_counted p) ?c = (Inr [], unloaded_conn (i + 1) w)"
    if "cm \<in> {2, 3}" for cm body and p :: "(jdwp_error, class_info) parser"
    using transact_reads [OF send [OF that] empty] by simp
  show "classes_by_signature sig ?c = (Inr [], unloaded_conn (i + 1) w)"
    "all_classes ?c = (Inr [], unloaded_conn (i + 1) w)"
    unfolding classes_by_signature_def all_classes_def CS_VIRTUAL_MACHINE_def VM_ALL_CLASSES_def
      VM_CLASSES_BY_SIGNATURE_def by (simp_all only: asked insert_iff simp_thms)
qed

lemma unloaded_sets:
  assumes "word_of_nat (length w) \<notin> snd ` set w"
  shows "set_class_prepare g sp (unloaded_conn i w)
    = (Inr (word_of_nat (length w)), unloaded_conn (i + 1) ((EK_CLASS_PREPARE, word_of_nat (length w)) # w))"
proof -
  let ?c = "unloaded_conn i w" and ?b = "class_match_body EK_CLASS_PREPARE g sp"
  have "hd ?b = EK_CLASS_PREPARE"
    by (simp add: class_match_body_def write_jdwp_string_def put_u8_def)
  with assms have "loop_send ?c (request_packet ?c CS_EVENT_REQUEST EV_SET ?b) (peer ?c)
      = (Inr \<lparr>reply_id = i, error_code = 0, reply_data = put_u32 (word_of_nat (length w))\<rparr>,
         (EK_CLASS_PREPARE, word_of_nat (length w)) # w)"
    by (simp add: unloaded_jvm_def stub_jvm_def reply_with_def request_packet_def new_command_def
        unloaded_conn_def Let_def CS_EVENT_REQUEST_def)
  from transact_reads [OF this, of read_i32 "word_of_nat (length w)"] show ?thesis
    by (simp add: set_class_prepare_def after_send_def unloaded_conn_def prun_def)
qed

text \<open>With a breakpoint armed, the tool asks for the class, is told of it, and clears its request.\<close>

theorem class_wait_leaves_nothing_witness:
  "\<exists>m s1 m'. handle_wait_for_class class_api no_floats class_wait ''A'' m = (Inr ''class loaded: A'', m')
    \<and> set (peer (conn (store m ! 0))) = {(EK_BREAKPOINT, 3)} \<and> begin_class_wait ''A'' (store m ! 0) = (Inr (Inr 1), s1)
    \<and> set (peer (conn s1)) = {(EK_CLASS_PREPARE, 1 :: i32), (EK_BREAKPOINT, 3)}
    \<and> set (peer (conn (store m' ! 0))) = {(EK_BREAKPOINT, 3 :: i32)}"
proof -
  let ?s = "new_session (unloaded_conn 1 [(EK_BREAKPOINT, 3)])"
  let ?m = "stub_manager ?s"
  let ?s1 = "new_session (unloaded_conn 4 [(EK_CLASS_PREPARE, 1), (EK_BREAKPOINT, 3)])"
  obtain r m' where run: "handle_wait_for_class class_api no_floats class_wait ''A'' ?m = (r, m')" by force
  have begun: "begin_class_wait ''A'' (store ?m ! 0) = (Inr (Inr 1), ?s1)"
    by (simp add: begin_class_wait_def ebind_def ecatch_def class_wait_request_def ok_def or_default_def ereturn_def
        resolve_classes_def stub_candidates on_conn_err_def unloaded_calls unloaded_sets new_session_def
        rank_classes_def)
  have arg: "arg_str class_api ''A'' ''class_pattern'' = Some ''A''"
    by (simp add: arg_str_def class_api_def demo_api_def)
  have "fst (run_wait no_floats (class_check 1) (snd class_wait) (start_wait (fst class_wait) ?s1)) = Some ''LA;''"
    by (simp add: class_wait_def start_wait_def check_session_def class_check_def received_def at_rest_def
        wait_phase_def notify_waiters_def collect_trace_def step_to_clear_def condition_of_def skip_stop_def
        prepared_event_def prepared_signature_def store_event_def vm_death_in_def Let_def new_session_def
        poll_wait.simps waiter_action_def)
  moreover have "signature_to_display_name ''LA;'' = Some ''A''"
    by code_simp
  ultimately have r: "r = Inr ''class loaded: A''"
    using run begun arg
    by (auto simp: handle_wait_for_class_def with_session_defs wait_class_def ebind_def epure_def eresult_def
        end_class_wait_def attempt_def ereturn_def class_wait_result_def or_default_def eoption_def split: prod.splits)
  have "set (peer (conn (store m' ! 0))) = set (peer (conn (store ?m ! 0)))"
    using class_wait_leaves_nothing [OF _ _ _ _ arg begun run refl refl, of set] unloaded_contract
    by (auto simp: pending_steps_def class_wait_def new_session_def unloaded_conn_def)
  with run r begun have "handle_wait_for_class class_api no_floats class_wait ''A'' ?m = (Inr ''class loaded: A'', m')
    \<and> set (peer (conn (store ?m ! 0))) = {(EK_BREAKPOINT, 3)} \<and> begin_class_wait ''A'' (store ?m ! 0) = (Inr (Inr 1), ?s1)
    \<and> set (peer (conn ?s1)) = {(EK_CLASS_PREPARE, 1), (EK_BREAKPOINT, 3)}
    \<and> set (peer (conn (store m' ! 0))) = {(EK_BREAKPOINT, 3)}"
    by (simp add: unloaded_conn_def new_session_def)
  then show ?thesis by blast
qed

end
