(* ===== verification/UpdateCheck.thy ===== *)
theory UpdateCheck
  imports Lookup
begin

text \<open>
  \<open>mcp-server/src/update_check.rs\<close>: the background check for a newer release, with its 24-hour cache,
  the output of \<open>pip index versions\<close>, and the tags of \<open>git ls-remote\<close> as the fallback. What the file
  system and the two programs answer is the record \<open>update_world\<close>; program output is the text after
  \<open>from_utf8_lossy\<close>. \<open>None\<close> at the outer level is a panic of the task.
\<close>

section \<open>Lines of a text\<close>

text \<open>\<open>str::lines\<close>: split after each newline, dropping it and a carriage return before it.\<close>

definition drop_cr :: "string \<Rightarrow> string" where
  "drop_cr l = (if l \<noteq> [] \<and> last l = CHR 0x0D then butlast l else l)"

fun split_lines :: "string \<Rightarrow> string \<Rightarrow> string list" where
  "split_lines acc [] = (if acc = [] then [] else [rev acc])"
| "split_lines acc (c # s) =
     (if c = CHR 0x0A then drop_cr (rev acc) # split_lines [] s else split_lines (c # acc) s)"

definition str_lines :: "string \<Rightarrow> string list" where
  "str_lines s = split_lines [] s"

section \<open>The two sources of a version\<close>

record command_output =
  success :: bool
  stdout_text :: string

text \<open>\<open>line[start + 1..end]\<close> panics when the closing parenthesis comes first.\<close>

definition between_parens :: "string \<Rightarrow> string option option" where
  "between_parens line = (case (str_find line ''('', str_find line '')'') of
      (Some start, Some end) \<Rightarrow>
        if start + 1 \<le> end then Some (Some (take (end - (start + 1)) (drop (start + 1) line))) else None
    | _ \<Rightarrow> Some None)"

definition fetch_via_pip :: "command_output option \<Rightarrow> (string + string) option" where
  "fetch_via_pip out = (case out of
      None \<Rightarrow> Some (Inl ''spawn failed'')
    | Some r \<Rightarrow>
        if \<not> success r then Some (Inl ''pip index failed'')
        else (case str_lines (stdout_text r) of
            [] \<Rightarrow> Some (Inl ''could not parse pip output'')
          | l # _ \<Rightarrow> map_option (\<lambda>v. case v of
                None \<Rightarrow> Inl ''could not parse pip output'' | Some v \<Rightarrow> Inr v) (between_parens l)))"

definition tag_version :: "string \<Rightarrow> string option" where
  "tag_version line =
     (let tag = rsplit_last (CHR ''/'') line
      in if starts_with tag ''v'' \<and> \<not> str_contains tag ''^{}''
         then Some (dropWhile (\<lambda>c. c = CHR ''v'') tag) else None)"

text \<open>The exit status of git is not looked at.\<close>

definition fetch_via_git :: "command_output option \<Rightarrow> string + string" where
  "fetch_via_git out = (case out of
      None \<Rightarrow> Inl ''spawn failed''
    | Some r \<Rightarrow> (case List.map_filter tag_version (str_lines (stdout_text r)) of
        [] \<Rightarrow> Inl ''no tags found'' | v # _ \<Rightarrow> Inr v))"

section \<open>The check\<close>

text \<open>
  \<open>last_check\<close>: the age in seconds of the file \<open>last-check\<close>, when it has one; a modification time in
  the future counts as infinitely old.
\<close>

datatype file_age = NoFile | Age nat | InFuture

record update_world =
  last_check :: file_age
  cached_version :: "string option"
  pip_output :: "command_output option"
  git_output :: "command_output option"
  version_writable :: bool

datatype update_result = CheckFailed string | Checked "string option" "string option" bool

definition fresh :: "file_age \<Rightarrow> bool" where
  "fresh a = (case a of Age n \<Rightarrow> n < 86400 | _ \<Rightarrow> False)"

text \<open>\<open>Checked notice saved touched\<close>: the version announced, the one written, the time stamp renewed.\<close>

definition check_update :: "string \<Rightarrow> update_world \<Rightarrow> update_result option" where
  "check_update current_version w =
     (if fresh (last_check w)
      then Some (Checked (case cached_version w of
               None \<Rightarrow> None
             | Some text \<Rightarrow> (let latest = trim text
                 in if latest \<noteq> [] \<and> latest \<noteq> current_version then Some latest else None)) None False)
      else (case fetch_via_pip (pip_output w) of
          None \<Rightarrow> None
        | Some first \<Rightarrow>
            (case (case first of Inr v \<Rightarrow> Inr v | Inl _ \<Rightarrow> fetch_via_git (git_output w)) of
               Inl e \<Rightarrow> Some (CheckFailed e)
             | Inr latest \<Rightarrow>
                 Some (Checked (if latest \<noteq> current_version then Some latest else None)
                   (if version_writable w then Some latest else None) (version_writable w)))))"

text \<open>\<open>PathBuf::join\<close> of a relative path, and the directory of the cache.\<close>

definition path_join :: "string \<Rightarrow> string \<Rightarrow> string" where
  "path_join p q = (if p = [] then q else if last p = CHR ''/'' then p @ q else p @ ''/'' @ q)"

definition cache_path :: "string option \<Rightarrow> string option \<Rightarrow> string" where
  "cache_path xdg_cache_home home =
     (case xdg_cache_home of
        Some p \<Rightarrow> path_join p ''jdwp-mcp''
      | None \<Rightarrow> (case home of
          Some h \<Rightarrow> path_join (path_join h ''.cache'') ''jdwp-mcp''
        | None \<Rightarrow> ''/tmp/jdwp-mcp-cache''))"

section \<open>Facts\<close>

lemma str_find_char_absent: "c \<notin> set s \<Longrightarrow> str_find s [c] = None"
  by (induction s) (auto simp: starts_with_def)

lemma str_find_char: "c \<notin> set a \<Longrightarrow> str_find (a @ c # b) [c] = Some (length a)"
  by (induction a) (auto simp: starts_with_def)

lemma between_parens_found:
  assumes "CHR ''('' \<notin> set a" and "CHR '')'' \<notin> set a" and "CHR '')'' \<notin> set v"
  shows "between_parens (a @ ''('' @ v @ '')'' @ b) = Some (Some v)"
proof -
  have "str_find (a @ ''('' @ v @ '')'' @ b) ''('' = Some (length a)"
    using str_find_char [OF assms(1)] by simp
  moreover have "str_find ((a @ ''('' @ v) @ CHR '')'' # b) '')'' = Some (length (a @ ''('' @ v))"
    by (rule str_find_char) (use assms in auto)
  ultimately show ?thesis
    by (simp add: between_parens_def)
qed

lemma between_parens_panics:
  assumes "CHR ''('' \<notin> set a" and "CHR '')'' \<notin> set a" and "CHR ''('' \<in> set b"
  shows "between_parens (a @ '')'' @ b) = None"
proof -
  obtain x y where b: "b = x @ CHR ''('' # y" "CHR ''('' \<notin> set x"
    using assms(3) by (meson split_list_first)
  have "str_find ((a @ '')'' @ x) @ CHR ''('' # y) ''('' = Some (length (a @ '')'' @ x))"
    by (rule str_find_char) (use assms b in auto)
  moreover have "str_find (a @ CHR '')'' # b) '')'' = Some (length a)"
    by (rule str_find_char) (rule assms(2))
  ultimately show ?thesis
    by (simp add: between_parens_def b(1))
qed

lemma split_first_line:
  "CHR 0x0A \<notin> set l \<Longrightarrow> split_lines acc (l @ CHR 0x0A # r) = drop_cr (rev acc @ l) # split_lines [] r"
  by (induction l arbitrary: acc) auto

lemma first_line: "CHR 0x0A \<notin> set l \<Longrightarrow> str_lines (l @ CHR 0x0A # r) = drop_cr l # str_lines r"
  by (simp add: str_lines_def split_first_line)

end
