(* ===== verification/Spec2Isabelle.thy ===== *)
theory Spec2Isabelle
  imports SessionClaims UpdateCheck
begin

text \<open>
  A verification development for jdwp-mcp, a debugger for the JVM that speaks the Java Debug Wire
  Protocol (JDWP) on one side and serves tools over the Model Context Protocol on the other. The
  program is two Rust crates: \<open>jdwp-client\<close> (the protocol client: packets, readers, events, an
  event loop over TCP, and one operation per JDWP command) and \<open>mcp-server\<close> (sessions, the tool
  handlers and the JSON-RPC server).

  How the parts interact. A tool handler locks the current session and calls operations of the
  client on its connection. An operation takes a packet id, builds a command packet and hands it to
  the event loop, which writes it to the socket, files the caller's reply channel under the id, and
  resolves it when the reply comes, when the request is older than 30 seconds, or when it ends.
  Event packets go through a bounded channel to a listener task, which collects traces, evaluates
  the condition of a conditional breakpoint and stores what the user should see in the session.

  Conventions. \<open>Inl\<close> is \<open>Err\<close>, \<open>Inr\<close> is \<open>Ok\<close>. Machine integers are words of their width
  (signed ones read by \<open>sint\<close>); floats are IEEE bit patterns. A string is its UTF-8 bytes, kept as
  characters. A reader \<open>&mut &[u8]\<close> is a \<open>parser\<close> from bytes to a value and the bytes left; a
  method that changes an object and may fail is an \<open>eff\<close>, whose state survives a failure. A
  \<open>HashMap\<close> is an association list with distinct keys. Logging is not modelled.

  The theories, in the order they build on each other:

  \<^item> \<open>Prelude\<close>: integers, strings, number formatting, the \<open>str\<close> operations, parsers and effects.
  \<^item> \<open>Wire\<close>: big-endian words; the interfaces \<open>byte_reader\<close> (a reader depends only on what it
    consumes), \<open>wire_codec\<close> (reading undoes writing) and \<open>canonical_codec\<close> (nothing else is
    accepted). Every reader and writer below is an interpretation of one of them.
  \<^item> \<open>Utf8\<close>: the standard library's UTF-8 decoder, with its error positions, and the encoder.
  \<^item> \<open>Protocol\<close> (\<open>protocol.rs\<close>): errors, packets, modified UTF-8; \<open>JdwpTypes\<close> (\<open>types.rs\<close>);
    \<open>Reader\<close> (\<open>reader.rs\<close>); \<open>Commands\<close> (\<open>commands.rs\<close>); \<open>Events\<close> (\<open>events.rs\<close>), with the
    composite packets of the protocol as a specification the parser is proved against.
  \<^item> \<open>Connection\<close> (\<open>connection.rs\<close>): handshake, packet ids, and \<open>transact\<close>, the exchange every
    operation performs. What answers a command is the parameter \<open>loop_send\<close> of a connection.
  \<^item> \<open>VmOps\<close> (\<open>vm.rs\<close>, \<open>thread.rs\<close>), \<open>RefOps\<close> (\<open>reftype.rs\<close>, \<open>method.rs\<close>), \<open>ObjOps\<close>
    (\<open>object.rs\<close>, \<open>array.rs\<close>, \<open>string.rs\<close>, \<open>stackframe.rs\<close>), \<open>EventRequests\<close>
    (\<open>eventrequest.rs\<close>): one definition per operation, the layouts of requests and replies.
  \<^item> \<open>EventChannel\<close>, \<open>EventLoop\<close>, \<open>LoopInvariants\<close> (\<open>eventloop.rs\<close>): the event channel with its
    single-permit notification, at the granularity of await points; packet framing; the three
    branches of the loop; the interleavings (\<open>loop_act\<close>) and what they all keep. A poll of the unfinished \<open>read_packet\<close> keeps its bytes in
    \<open>read_buf\<close>, which any other branch clears, as dropping the future does.
  \<^item> \<open>Board\<close>: an abstract board of the requests asked and the final outcome of each, its steps, and
    the simulation of the event loop by it. \<open>Delivery\<close>: the event sets of the packets a run reads
    against those its consumers get, the loop on a full channel, and what an interrupted read loses.
  \<^item> \<open>ServerText\<close>, \<open>Floats\<close>: trimming, hexadecimal, stable sorting; parsing and order of \<open>f64\<close>.
  \<^item> \<open>Session\<close> (\<open>session.rs\<close>): sessions behind addresses into a store, and the session manager.
  \<^item> \<open>ClassNames\<close>, \<open>Lookup\<close>, \<open>Conditions\<close>, \<open>Trace\<close> (parts of \<open>handlers.rs\<close>): names, signatures
    and class resolution; arguments, threads, source lines, variables in scope; conditional
    breakpoints; method traces.
  \<^item> \<open>Jvm\<close>: the contract of EventRequest commands (which requests are armed before and after an
    exchange); \<open>asks\<close>, connections that differ by an exchange of commands that only ask; and \<open>reads\<close>,
    what a tool that only looks may change, with the interface \<open>looking_tool\<close> that the ten such
    tools interpret.
  \<^item> \<open>Breakpoints\<close>, \<open>Control\<close>, \<open>Inspection\<close>, \<open>Evaluation\<close>, \<open>TraceReport\<close> (the tool handlers of
    \<open>handlers.rs\<close>, \<open>config.rs\<close>): one definition \<open>handle_<tool>\<close> per tool, which reads its arguments and
    runs a body under the lock of the current session. \<open>Ledger\<close>: setting and clearing breakpoints as
    steps of two sets of request ids.
  \<^item> \<open>Listener\<close>: \<open>debug.attach\<close> and the task it spawns, a turn of its loop as a whole; \<open>Phases\<close>: the
    same turn phase by phase, each what the task does under one lock, with the places
    between (\<open>listener_phase\<close>; on the session the task belongs to, \<open>session_phase\<close>); \<open>Waiting\<close>:
    \<open>debug.wait_for_event\<close> and \<open>debug.wait_for_class\<close> interleaved with those phases, on the same
    session and connection, with the interface \<open>wait_loop\<close> of what they look for.
  \<^item> \<open>Tools\<close> (\<open>tools.rs\<close>), \<open>Dispatch\<close> (\<open>protocol.rs\<close>, the dispatch of \<open>handlers.rs\<close>, the message
    loop of \<open>main.rs\<close>), \<open>UpdateCheck\<close> (\<open>update_check.rs\<close>).
  \<^item> \<open>LoopClaims\<close> (event loop), \<open>ClientClaims\<close> (protocol client), \<open>ServerClaims\<close> (names, traces,
    conditions), \<open>HandlerClaims\<close> (breakpoints, steps, written values), \<open>EvalSafety\<close> (what an evaluation
    makes the JVM run), \<open>McpClaims\<close> (the server as a whole), \<open>SessionClaims\<close> (attaching, the
    listener, waiting): the properties, each with an instance.

  Parameters. What answers a command (\<open>loop_send\<close>); the accessors of \<open>serde_json::Value\<close>
  (\<open>json_api\<close>) and the parsing and printing of JSON (\<open>serde\<close>); the decimal text of floats
  (\<open>float_text\<close>); the bounded channel and the \<open>Notify\<close> of tokio (\<open>tokio\<close>), whose documented behaviour
  is stated by \<open>mpsc_contract\<close> and \<open>notify_contract\<close> and met by \<open>list_tokio\<close>; dialling, the clock and
  the schedule of a wait (\<open>surroundings\<close>); the version of the
  package and the instructions to agents (\<open>build\<close>); the answers of other programs and of the file
  system to the update check (\<open>update_world\<close>).

  Bounds. Loops over a received \<open>i32\<close> count run \<open>loop_count\<close> times, none for a negative count; the
  counted layouts are proved for counts below \<open>2 ^ 31\<close>. No definition uses fuel: every recursion
  is structural or has a termination proof, save \<open>recv_event\<close>, whose result says whether it
  returns (\<open>recv_event_outcome\<close>); the event loop, which may run for ever, is a relation on states. Integers are compared as \<open>f64\<close> exactly below \<open>2 ^ 53\<close>, which covers the
  integer types of Java short of \<open>long\<close>. Arithmetic wraps, as in a release build. The order in which
  a \<open>HashMap\<close> is listed is that of the association list; no property depends on it. A handler that
  panics has the result \<open>None\<close>.

  Not modelled. Log lines, and \<open>handle_notification\<close>, which only logs; the set-up of logging; TCP
  beyond the bytes in each direction and the outcome of a write; \<open>from_utf8_lossy\<close> of the output of
  other programs. Tool calls do not overlap, as the message loop answers one line before it reads the
  next; the phases of listener tasks come between them (\<open>server_step\<close>) or, in the waiting tools, as
  their schedule says. What a tool call does while it holds the session's lock is one step, and so is a
  phase of the listener.
\<close>

end
